(* ===== verification/Prelude.thy ===== *)
theory Prelude
  imports Complex_Main "HOL-Library.AList" "HOL-Library.Word"
begin

text \<open>
  What every component of the development shares: Python dictionaries as association lists in
  insertion order, the operations that read and write a state and may raise (with the rules of
  their weakest preconditions), sums over lists, and the generic interface of a transition
  system with an invariant.
\<close>

named_theorems dict_simps \<open>lookups in and keys of updated dictionaries\<close>
named_theorems wp_simps \<open>weakest preconditions of the operation combinators\<close>
named_theorems inv_intros \<open>preservation lemmas of the components' invariants\<close>


section \<open>Dictionaries\<close>

text \<open>
  A Python dictionary keeps its keys in insertion order, assignment to a present key keeps the
  key's position, a new key goes last, and \<open>pop\<close> removes the key. \<open>AList.update\<close> and
  \<open>AList.delete\<close> do exactly this on association lists; lookup is \<open>map_of\<close>.
\<close>

type_synonym ('k, 'v) dict = "('k \<times> 'v) list"

abbreviation dict_keys :: "('k, 'v) dict \<Rightarrow> 'k list" where
  "dict_keys d \<equiv> map fst d"

abbreviation dict_get :: "('k, 'v) dict \<Rightarrow> 'k \<Rightarrow> 'v option" where
  "dict_get d k \<equiv> map_of d k"

abbreviation dict_set :: "('k, 'v) dict \<Rightarrow> 'k \<Rightarrow> 'v \<Rightarrow> ('k, 'v) dict" where
  "dict_set d k v \<equiv> AList.update k v d"

abbreviation dict_pop :: "('k, 'v) dict \<Rightarrow> 'k \<Rightarrow> ('k, 'v) dict" where
  "dict_pop d k \<equiv> AList.delete k d"

definition dict_has :: "('k, 'v) dict \<Rightarrow> 'k \<Rightarrow> bool" where
  "dict_has d k \<longleftrightarrow> k \<in> set (dict_keys d)"

definition dict_wf :: "('k, 'v) dict \<Rightarrow> bool" where
  "dict_wf d \<longleftrightarrow> distinct (dict_keys d)"

definition dict_get_or :: "('k, 'v) dict \<Rightarrow> 'k \<Rightarrow> 'v \<Rightarrow> 'v" where
  "dict_get_or d k v = (case dict_get d k of None \<Rightarrow> v | Some x \<Rightarrow> x)"

text \<open>\<open>setdefault\<close>: the key is written only where it is missing.\<close>

definition dict_setdefault :: "('k, 'v) dict \<Rightarrow> 'k \<Rightarrow> 'v \<Rightarrow> ('k, 'v) dict" where
  "dict_setdefault d k v = (if dict_has d k then d else dict_set d k v)"

lemma dict_has_iff [dict_simps]: "dict_has d k \<longleftrightarrow> dict_get d k \<noteq> None"
  by (simp add: dict_has_def map_of_eq_None_iff)

lemma dict_key_iff: "k \<in> fst ` set d \<longleftrightarrow> dict_get d k \<noteq> None"
  by (simp add: map_of_eq_None_iff)

lemma dict_get_set [dict_simps]: "dict_get (dict_set d k v) k' = (if k' = k then Some v else dict_get d k')"
  by (simp add: update_conv')

lemma dict_get_pop [dict_simps]: "dict_get (dict_pop d k) k' = (if k' = k then None else dict_get d k')"
  by (simp add: delete_conv')

lemma dict_get_or_set [dict_simps]:
  "dict_get_or (dict_set d k v) k' w = (if k' = k then v else dict_get_or d k' w)"
  by (simp add: dict_get_or_def dict_get_set)

lemma dict_get_or_pop [dict_simps]:
  "dict_get_or (dict_pop d k) k' w = (if k' = k then w else dict_get_or d k' w)"
  by (simp add: dict_get_or_def dict_get_pop)

lemma dict_has_set [dict_simps]: "dict_has (dict_set d k v) k' \<longleftrightarrow> k' = k \<or> dict_has d k'"
  by (auto simp: dict_has_iff dict_get_set)

lemma dict_has_pop [dict_simps]: "dict_has (dict_pop d k) k' \<longleftrightarrow> k' \<noteq> k \<and> dict_has d k'"
  by (auto simp: dict_has_iff dict_get_pop)

lemma dict_get_setdefault [dict_simps]:
  "dict_get (dict_setdefault d k v) k' =
     (if k' = k then Some (dict_get_or d k v) else dict_get d k')"
  by (auto simp: dict_setdefault_def dict_get_set dict_get_or_def dict_has_iff split: option.splits)

lemma dict_wf_Nil [simp]: "dict_wf []"
  by (simp add: dict_wf_def)

lemma dict_wf_set [simp, intro]: "dict_wf d \<Longrightarrow> dict_wf (dict_set d k v)"
  by (simp add: dict_wf_def distinct_update)

lemma dict_wf_pop [simp, intro]: "dict_wf d \<Longrightarrow> dict_wf (dict_pop d k)"
  by (simp add: dict_wf_def distinct_delete)

lemma dict_set_fresh: "\<not> dict_has d k \<Longrightarrow> dict_set d k v = d @ [(k, v)]"
  unfolding dict_has_def by (induction d) auto

lemma dict_pop_absent: "\<not> dict_has d k \<Longrightarrow> dict_pop d k = d"
  unfolding dict_has_def by (induction d) (auto simp: AList.delete_eq)

lemma dict_pop_filter: "dict_pop d k = filter (\<lambda>p. fst p \<noteq> k) d"
  by (simp add: AList.delete_eq case_prod_unfold eq_commute)

lemma dict_keys_pop: "dict_keys (dict_pop d k) = filter (\<lambda>x. x \<noteq> k) (dict_keys d)"
  by (simp add: dict_pop_filter filter_map comp_def)

lemma length_dict_pop_le: "length (dict_pop d k) \<le> length d"
  by (simp add: dict_pop_filter)

lemma length_dict_pop_less: "dict_has d k \<Longrightarrow> length (dict_pop d k) < length d"
  unfolding dict_has_def dict_pop_filter
  by (induction d) (auto simp: le_imp_less_Suc)

lemma length_dict_pop: "dict_wf d \<Longrightarrow> dict_has d k \<Longrightarrow> Suc (length (dict_pop d k)) = length d"
  unfolding dict_has_def dict_wf_def dict_pop_filter
proof (induction d)
  case (Cons p d)
  then show ?case
    by (cases "fst p = k") (auto simp: filter_id_conv image_iff intro!: arg_cong [where f = length] filter_True)
qed simp

lemma length_dict_set_fresh: "\<not> dict_has d k \<Longrightarrow> length (dict_set d k v) = Suc (length d)"
  by (simp add: dict_set_fresh)

lemma length_dict_set_present: "dict_has d k \<Longrightarrow> length (dict_set d k v) = length d"
  unfolding dict_has_def by (induction d) auto

text \<open>Popping a key and writing it again moves it to the end: the \<open>move to end\<close> of an LRU order.\<close>

lemma dict_move_to_end: "dict_set (dict_pop d k) k v = dict_pop d k @ [(k, v)]"
  by (rule dict_set_fresh) (simp add: dict_has_pop)


section \<open>Sums over dictionaries\<close>

definition dict_sum :: "('k, int) dict \<Rightarrow> int" where
  "dict_sum d = sum_list (map snd d)"

lemma dict_sum_Nil [simp]: "dict_sum [] = 0"
  by (simp add: dict_sum_def)

lemma dict_sum_Cons [simp]: "dict_sum (p # d) = snd p + dict_sum d"
  by (simp add: dict_sum_def)

lemma dict_sum_set: "dict_sum (dict_set d k v) = dict_sum d + v - dict_get_or d k 0"
  by (induction d) (auto simp: dict_get_or_def)

lemma dict_sum_pop: "dict_wf d \<Longrightarrow> dict_sum (dict_pop d k) = dict_sum d - dict_get_or d k 0"
proof (induction d)
  case (Cons p d)
  have wf: "dict_wf d" using Cons.prems by (simp add: dict_wf_def)
  show ?case
  proof (cases "fst p = k")
    case True
    have "\<not> dict_has d k" using Cons.prems True by (auto simp: dict_wf_def dict_has_def)
    then have "dict_pop d k = d" by (rule dict_pop_absent)
    then show ?thesis using True by (cases p) (simp add: dict_get_or_def)
  next
    case False
    then show ?thesis using Cons.IH [OF wf] by (cases p) (simp add: dict_get_or_def)
  qed
qed (simp add: dict_get_or_def)

lemma dict_sum_eq_sum: "dict_wf d \<Longrightarrow> dict_sum d = (\<Sum>k\<in>set (dict_keys d). dict_get_or d k 0)"
proof (induction d)
  case (Cons p d)
  have wf: "dict_wf d" and new: "fst p \<notin> set (dict_keys d)"
    using Cons.prems by (simp_all add: dict_wf_def)
  have "(\<Sum>k\<in>set (dict_keys d). dict_get_or (p # d) k 0) = (\<Sum>k\<in>set (dict_keys d). dict_get_or d k 0)"
    using new by (intro sum.cong refl) (cases p, auto simp: dict_get_or_def)
  then show ?case
    using Cons.IH [OF wf] new by (cases p) (simp add: dict_get_or_def image_iff)
qed simp

lemma dict_sum_nonneg: "(\<And>k v. (k, v) \<in> set d \<Longrightarrow> 0 \<le> v) \<Longrightarrow> 0 \<le> dict_sum d"
  by (induction d) (auto, fastforce)


lemma find_Some_mem: "find P xs = Some x \<Longrightarrow> x \<in> set xs \<and> P x"
  by (induction xs) (auto split: if_splits)

lemma find_None_iff_all: "find P xs = None \<longleftrightarrow> (\<forall>x\<in>set xs. \<not> P x)"
  by (induction xs) auto


section \<open>Operations: state, result and exceptions\<close>

text \<open>
  A statement of the code that may change a state \<open>'s\<close> and may raise is a function from the
  state to a result and a state. The state survives a raise, as a Python object does: what an
  operation had written before it raised stays written.
\<close>

type_synonym ('s, 'e, 'a) op = "'s \<Rightarrow> ('e + 'a) \<times> 's"

definition ret :: "'a \<Rightarrow> ('s, 'e, 'a) op" where
  "ret x s = (Inr x, s)"

definition raise :: "'e \<Rightarrow> ('s, 'e, 'a) op" where
  "raise e s = (Inl e, s)"

text \<open>A computation that reads no state: a validation, a lookup.\<close>

definition pure_op :: "'e + 'a \<Rightarrow> ('s, 'e, 'a) op" where
  "pure_op r s = (r, s)"

definition bind_op :: "('s, 'e, 'a) op \<Rightarrow> ('a \<Rightarrow> ('s, 'e, 'b) op) \<Rightarrow> ('s, 'e, 'b) op" where
  "bind_op m k s = (case m s of (Inl e, t) \<Rightarrow> (Inl e, t) | (Inr x, t) \<Rightarrow> k x t)"

definition read_op :: "('s \<Rightarrow> 'a) \<Rightarrow> ('s, 'e, 'a) op" where
  "read_op f s = (Inr (f s), s)"

definition modify_op :: "('s \<Rightarrow> 's) \<Rightarrow> ('s, 'e, unit) op" where
  "modify_op f s = (Inr (), f s)"

text \<open>\<open>if c: raise e\<close>\<close>

definition raise_if :: "bool \<Rightarrow> 'e \<Rightarrow> ('s, 'e, unit) op" where
  "raise_if c e = (if c then raise e else ret ())"

text \<open>\<open>try: m except E: h\<close>: the handler is partial, and what it does not catch goes on.\<close>

definition try_op :: "('s, 'e, 'a) op \<Rightarrow> ('e \<Rightarrow> ('s, 'e, 'a) op option) \<Rightarrow> ('s, 'e, 'a) op" where
  "try_op m h s =
     (case m s of
        (Inl e, t) \<Rightarrow> (case h e of None \<Rightarrow> (Inl e, t) | Some k \<Rightarrow> k t)
      | (Inr x, t) \<Rightarrow> (Inr x, t))"

text \<open>\<open>try: m finally: f\<close>: \<open>f\<close> runs on both paths, and its own exception replaces the result.\<close>

definition finally_op :: "('s, 'e, 'a) op \<Rightarrow> ('s, 'e, unit) op \<Rightarrow> ('s, 'e, 'a) op" where
  "finally_op m f s =
     (case m s of (r, t) \<Rightarrow> (case f t of (Inl e, u) \<Rightarrow> (Inl e, u) | (Inr _, u) \<Rightarrow> (r, u)))"

text \<open>Errors without state: the same composition on sums.\<close>

definition bind_sum :: "'e + 'a \<Rightarrow> ('a \<Rightarrow> 'e + 'b) \<Rightarrow> 'e + 'b" where
  "bind_sum r k = (case r of Inl e \<Rightarrow> Inl e | Inr x \<Rightarrow> k x)"

definition raise_sum_if :: "bool \<Rightarrow> 'e \<Rightarrow> 'e + unit" where
  "raise_sum_if c e = (if c then Inl e else Inr ())"

lemma bind_sum_simps [simp]:
  "bind_sum (Inl e) k = Inl e"
  "bind_sum (Inr x) k = k x"
  by (simp_all add: bind_sum_def)

lemma bind_sum_eq_Inr: "bind_sum r k = Inr y \<longleftrightarrow> (\<exists>x. r = Inr x \<and> k x = Inr y)"
  by (cases r) auto

lemma raise_sum_if_eq_Inr [simp]: "raise_sum_if c e = Inr u \<longleftrightarrow> \<not> c"
  by (simp add: raise_sum_if_def)

text \<open>
  Weakest preconditions. The second argument is about the result (an exception or a value) and
  the final state; one equation per combinator turns a goal about a handler into a goal about
  its parts.
\<close>

definition wp :: "('s, 'e, 'a) op \<Rightarrow> ('e + 'a \<Rightarrow> 's \<Rightarrow> bool) \<Rightarrow> 's \<Rightarrow> bool" where
  "wp m Q s = (case m s of (r, t) \<Rightarrow> Q r t)"

lemma wp_iff: "wp m Q s \<longleftrightarrow> Q (fst (m s)) (snd (m s))"
  by (simp add: wp_def case_prod_unfold)

lemma wp_mono: "wp m Q s \<Longrightarrow> (\<And>r t. Q r t \<Longrightarrow> R r t) \<Longrightarrow> wp m R s"
  by (auto simp: wp_iff)

lemma wp_conj: "wp m Q s \<Longrightarrow> wp m R s \<Longrightarrow> wp m (\<lambda>r t. Q r t \<and> R r t) s"
  by (simp add: wp_iff)

lemma wp_ret [wp_simps]: "wp (ret x) Q s \<longleftrightarrow> Q (Inr x) s"
  by (simp add: wp_iff ret_def)

lemma wp_raise [wp_simps]: "wp (raise e) Q s \<longleftrightarrow> Q (Inl e) s"
  by (simp add: wp_iff raise_def)

lemma wp_pure [wp_simps]: "wp (pure_op r) Q s \<longleftrightarrow> Q r s"
  by (simp add: wp_iff pure_op_def)

lemma wp_read [wp_simps]: "wp (read_op f) Q s \<longleftrightarrow> Q (Inr (f s)) s"
  by (simp add: wp_iff read_op_def)

lemma wp_modify [wp_simps]: "wp (modify_op f) Q s \<longleftrightarrow> Q (Inr ()) (f s)"
  by (simp add: wp_iff modify_op_def)

lemma wp_raise_if [wp_simps]:
  "wp (raise_if c e) Q s \<longleftrightarrow> (c \<longrightarrow> Q (Inl e) s) \<and> (\<not> c \<longrightarrow> Q (Inr ()) s)"
  by (simp add: raise_if_def wp_ret wp_raise)

lemma wp_bind:
  "wp (bind_op m k) Q s \<longleftrightarrow> wp m (\<lambda>r t. case r of Inl e \<Rightarrow> Q (Inl e) t | Inr x \<Rightarrow> wp (k x) Q t) s"
  by (auto simp: wp_iff bind_op_def case_prod_unfold split: sum.split prod.split)

text \<open>The rule used to step through a handler: a specification of the first part, then the rest.\<close>

lemma wp_bindI:
  assumes "wp m R s"
    and "\<And>e t. R (Inl e) t \<Longrightarrow> Q (Inl e) t"
    and "\<And>x t. R (Inr x) t \<Longrightarrow> wp (k x) Q t"
  shows "wp (bind_op m k) Q s"
  unfolding wp_bind using assms(1)
  by (rule wp_mono) (auto split: sum.split intro: assms(2,3))

lemma wp_try:
  "wp (try_op m h) Q s \<longleftrightarrow>
     wp m (\<lambda>r t. case r of Inl e \<Rightarrow> (case h e of None \<Rightarrow> Q (Inl e) t | Some k \<Rightarrow> wp k Q t)
                 | Inr x \<Rightarrow> Q (Inr x) t) s"
  by (auto simp: wp_iff try_op_def case_prod_unfold split: sum.split prod.split option.split)

lemma wp_finally:
  "wp (finally_op m f) Q s \<longleftrightarrow>
     wp m (\<lambda>r t. wp f (\<lambda>r' u. case r' of Inl e \<Rightarrow> Q (Inl e) u | Inr _ \<Rightarrow> Q r u) t) s"
  by (auto simp: wp_iff finally_op_def case_prod_unfold split: sum.split prod.split)

lemma wp_if [wp_simps]:
  "wp (if c then m else n) Q s \<longleftrightarrow> (c \<longrightarrow> wp m Q s) \<and> (\<not> c \<longrightarrow> wp n Q s)"
  by simp

text \<open>Preservation of an invariant by an operation, on its normal and its exceptional exits.\<close>

definition preserves :: "('s \<Rightarrow> bool) \<Rightarrow> ('s, 'e, 'a) op \<Rightarrow> bool" where
  "preserves I m \<longleftrightarrow> (\<forall>s. I s \<longrightarrow> wp m (\<lambda>_ t. I t) s)"

lemma preservesI: "(\<And>s. I s \<Longrightarrow> wp m (\<lambda>_ t. I t) s) \<Longrightarrow> preserves I m"
  by (simp add: preserves_def)

lemma preservesD: "preserves I m \<Longrightarrow> I s \<Longrightarrow> I (snd (m s))"
  by (simp add: preserves_def wp_iff)

lemma preserves_wp: "preserves I m \<Longrightarrow> I s \<Longrightarrow> wp m (\<lambda>_ t. I t) s"
  by (simp add: preserves_def)

lemma preserves_basic [inv_intros]:
  "preserves I (ret x)"
  "preserves I (raise e)"
  "preserves I (pure_op r)"
  "preserves I (read_op f)"
  "preserves I (raise_if c e)"
  by (simp_all add: preserves_def wp_simps)

lemma preserves_modify: "(\<And>s. I s \<Longrightarrow> I (f s)) \<Longrightarrow> preserves I (modify_op f)"
  by (simp add: preserves_def wp_modify)

lemma preserves_bind [inv_intros]:
  "preserves I m \<Longrightarrow> (\<And>x. preserves I (k x)) \<Longrightarrow> preserves I (bind_op m k)"
  by (auto simp: preserves_def wp_iff bind_op_def case_prod_unfold split: sum.split prod.split)

lemma preserves_if [inv_intros]:
  "(c \<Longrightarrow> preserves I m) \<Longrightarrow> (\<not> c \<Longrightarrow> preserves I n) \<Longrightarrow> preserves I (if c then m else n)"
  by simp

lemma preserves_try [inv_intros]:
  "preserves I m \<Longrightarrow> (\<And>e k. h e = Some k \<Longrightarrow> preserves I k) \<Longrightarrow> preserves I (try_op m h)"
  by (auto simp: preserves_def wp_iff try_op_def case_prod_unfold split: sum.split prod.split option.split)

lemma preserves_finally [inv_intros]:
  "preserves I m \<Longrightarrow> preserves I f \<Longrightarrow> preserves I (finally_op m f)"
  by (auto simp: preserves_def wp_iff finally_op_def case_prod_unfold split: sum.split prod.split)


section \<open>Transition systems\<close>

text \<open>
  The interface through which every step relation of the development obtains its reachable
  states: an initial predicate, a step relation, and an invariant that both keep.
\<close>

locale transition_system =
  fixes init :: "'s \<Rightarrow> bool"
    and step :: "'s \<Rightarrow> 's \<Rightarrow> bool"
    and inv :: "'s \<Rightarrow> bool"
  assumes init_inv: "init s \<Longrightarrow> inv s"
    and step_inv: "inv s \<Longrightarrow> step s t \<Longrightarrow> inv t"
begin

inductive reachable :: "'s \<Rightarrow> bool" where
  reach_init: "init s \<Longrightarrow> reachable s"
| reach_step: "reachable s \<Longrightarrow> step s t \<Longrightarrow> reachable t"

lemma reachable_inv: "reachable s \<Longrightarrow> inv s"
  by (induction rule: reachable.induct) (auto intro: init_inv step_inv)

lemma steps_inv: "step\<^sup>*\<^sup>* s t \<Longrightarrow> inv s \<Longrightarrow> inv t"
  by (induction rule: rtranclp_induct) (auto intro: step_inv)

lemma reachable_steps: "reachable s \<longleftrightarrow> (\<exists>i. init i \<and> step\<^sup>*\<^sup>* i s)"
proof
  show "reachable s \<Longrightarrow> \<exists>i. init i \<and> step\<^sup>*\<^sup>* i s"
    by (induction rule: reachable.induct) (blast intro: rtranclp.rtrancl_into_rtrancl)+
next
  have "step\<^sup>*\<^sup>* i t \<Longrightarrow> init i \<Longrightarrow> reachable t" for i t
    by (induction rule: rtranclp_induct) (auto intro: reachable.intros)
  then show "\<exists>i. init i \<and> step\<^sup>*\<^sup>* i s \<Longrightarrow> reachable s" by blast
qed

end

end
