(* ===== verification/PyValues.thy ===== *)
theory PyValues
  imports Prelude
begin

text \<open>
  The Python values the program handles dynamically: JSON documents, run configurations,
  metadata and the items a graph streams. Also the exceptions that cross component borders,
  strings with their encoded length, and the identifier check that the saver, the request
  models and the assistant registry share.

  Strings are lists of \<open>char\<close>, read as the code points U+0000 to U+00FF: \<open>length\<close> counts code
  points, as Python's \<open>len\<close> does, \<open>utf8_len\<close> is the length of \<open>str.encode()\<close>, and
  \<open>isprintable\<close> is exact on this range. Code points above U+00FF are outside the model.
  Floating-point numbers are rationals with the infinities and NaN; rounding is not modelled.
\<close>


section \<open>Values\<close>

datatype pyfloat = Fin rat | PosInf | NegInf | NaN

datatype pyval =
    PNone
  | PBool bool
  | PInt int
  | PFloat pyfloat
  | PStr string
  | PList "pyval list"
  | PTuple "pyval list"
  | PDict "(pyval \<times> pyval) list"
  | PObj "(string \<times> pyval) list"

type_synonym pydict = "(pyval, pyval) dict"

text \<open>
  \<open>PObj\<close> is an object known by its attributes only (a message, a graph): \<open>getattr\<close> reads them.
  Keys of JSON objects are strings; \<open>sget\<close> looks one up, as \<open>d.get("key")\<close> does but for the
  missing key, which is \<open>None\<close> of the option type here.
\<close>

abbreviation sget :: "pydict \<Rightarrow> string \<Rightarrow> pyval option" where
  "sget d k \<equiv> dict_get d (PStr k)"

abbreviation sset :: "pydict \<Rightarrow> string \<Rightarrow> pyval \<Rightarrow> pydict" where
  "sset d k v \<equiv> dict_set d (PStr k) v"

text \<open>\<open>d.get(key)\<close> and \<open>d.get(key, default)\<close>.\<close>

definition py_get :: "pydict \<Rightarrow> string \<Rightarrow> pyval" where
  "py_get d k = dict_get_or d (PStr k) PNone"

definition py_get_or :: "pydict \<Rightarrow> string \<Rightarrow> pyval \<Rightarrow> pyval" where
  "py_get_or d k v = dict_get_or d (PStr k) v"

definition getattr_or :: "pyval \<Rightarrow> string \<Rightarrow> pyval \<Rightarrow> pyval" where
  "getattr_or v name dflt =
     (case v of PObj attrs \<Rightarrow> dict_get_or attrs name dflt | _ \<Rightarrow> dflt)"

fun is_str :: "pyval \<Rightarrow> bool" where
  "is_str (PStr _) = True"
| "is_str _ = False"

fun is_dict :: "pyval \<Rightarrow> bool" where
  "is_dict (PDict _) = True"
| "is_dict _ = False"

text \<open>\<open>bool(v)\<close>; NaN is true, and an object without \<open>__bool__\<close> or \<open>__len__\<close> is.\<close>

fun truthy :: "pyval \<Rightarrow> bool" where
  "truthy PNone = False"
| "truthy (PBool b) = b"
| "truthy (PInt i) = (i \<noteq> 0)"
| "truthy (PFloat f) = (f \<noteq> Fin 0)"
| "truthy (PStr s) = (s \<noteq> [])"
| "truthy (PList xs) = (xs \<noteq> [])"
| "truthy (PTuple xs) = (xs \<noteq> [])"
| "truthy (PDict d) = (d \<noteq> [])"
| "truthy (PObj _) = True"


section \<open>Exceptions\<close>

datatype exc =
    ValueError string
  | TypeError string
  | KeyError string
  | LookupError string
  | RuntimeError string
  | StopIteration
  | TimeoutError
  | CancelledError
  | NotImplementedError
  | InvalidUpdateError string
  | CheckpointCapacityError string
  | ThreadStoreCapacityError string
  | ThreadAssistantConflictError string
  | ThreadRunConflictError string
  | RunCapacityError string
  | HTTPException nat string
  | OtherError string

text \<open>\<open>KeyError\<close> is a subclass of \<open>LookupError\<close>.\<close>

fun is_lookup_error :: "exc \<Rightarrow> bool" where
  "is_lookup_error (LookupError _) = True"
| "is_lookup_error (KeyError _) = True"
| "is_lookup_error _ = False"

fun exc_str :: "exc \<Rightarrow> string" where
  "exc_str (ValueError m) = m"
| "exc_str (TypeError m) = m"
| "exc_str (KeyError m) = m"
| "exc_str (LookupError m) = m"
| "exc_str (RuntimeError m) = m"
| "exc_str (InvalidUpdateError m) = m"
| "exc_str (CheckpointCapacityError m) = m"
| "exc_str (ThreadStoreCapacityError m) = m"
| "exc_str (ThreadAssistantConflictError m) = m"
| "exc_str (ThreadRunConflictError m) = m"
| "exc_str (RunCapacityError m) = m"
| "exc_str (HTTPException _ m) = m"
| "exc_str (OtherError m) = m"
| "exc_str _ = ''''"


section \<open>Strings\<close>

definition printable_char :: "char \<Rightarrow> bool" where
  "printable_char c =
     (let n = of_char c :: nat in (32 \<le> n \<and> n \<le> 126) \<or> (161 \<le> n \<and> n \<noteq> 173))"

definition isprintable :: "string \<Rightarrow> bool" where
  "isprintable s = list_all printable_char s"

definition utf8_char_len :: "char \<Rightarrow> nat" where
  "utf8_char_len c = (if (of_char c :: nat) < 128 then 1 else 2)"

definition utf8_len :: "string \<Rightarrow> nat" where
  "utf8_len s = sum_list (map utf8_char_len s)"

lemma utf8_len_bounds: "length s \<le> utf8_len s \<and> utf8_len s \<le> 2 * length s"
  unfolding utf8_len_def by (induction s) (auto simp: utf8_char_len_def)

definition join_strings :: "string \<Rightarrow> string list \<Rightarrow> string" where
  "join_strings sep xs =
     (case xs of [] \<Rightarrow> '''' | x # ys \<Rightarrow> x @ concat (map (\<lambda>y. sep @ y) ys))"


section \<open>Identifiers\<close>

text \<open>
  The rule that \<open>BoundedInMemorySaver._validated_identifier\<close>, \<open>Config.validate_checkpoint_config\<close>
  and the annotated string types of \<open>models.py\<close> agree on: printable, at most a length, non-empty
  unless the field allows it.
\<close>

definition valid_identifier :: "nat \<Rightarrow> bool \<Rightarrow> string \<Rightarrow> bool" where
  "valid_identifier max_length allow_empty s \<longleftrightarrow>
     (s \<noteq> [] \<or> allow_empty) \<and> length s \<le> max_length \<and> isprintable s"

lemma isprintable_Nil [simp]: "isprintable []"
  by (simp add: isprintable_def)

lemma valid_identifier_mono:
  "valid_identifier n e s \<Longrightarrow> n \<le> m \<Longrightarrow> (e \<longrightarrow> e') \<Longrightarrow> valid_identifier m e' s"
  by (auto simp: valid_identifier_def)

end
