(* ===== verification/Interleaving.thy ===== *)
theory Interleaving
  imports PyValues
begin

text \<open>
  Coroutines that share a state. The other theories run a handler to its end; here it is cut at
  its \<open>await\<close>s. What the event loop does at a suspension is the environment's choice: any other
  task may go on first, and a task may be resumed normally or with a cancellation. This theory has
  the combinators, the undisturbed run (with which each combinator is the one of \<open>Prelude\<close>), and a
  proof rule for what a task does to the shared state from one suspension to the next.
\<close>


section \<open>Tasks\<close>

text \<open>
  A task that has reached its end, or a suspension. A suspension has a label, and goes on when it
  is told whether it is cancelled, in the state of that moment: it works on the state up to the
  next suspension or the end.
\<close>

datatype ('l, 's, 'a) outcome =
    Finished "exc + 'a"
  | Suspended 'l "bool \<Rightarrow> 's \<Rightarrow> ('l, 's, 'a) outcome \<times> 's"

text \<open>A task, called but not yet resumed. It may look at the state and does not change it.\<close>

type_synonym ('l, 's, 'a) task = "'s \<Rightarrow> ('l, 's, 'a) outcome"

definition finished :: "exc + 'a \<Rightarrow> ('l, 's, 'a) task" where
  "finished r s = Finished r"

primrec resume_with :: "(exc + 'a \<Rightarrow> ('l, 's, 'b) task) \<Rightarrow> ('l, 's, 'a) outcome \<Rightarrow> ('l, 's, 'b) task" where
  "resume_with g (Finished r) = g r"
| "resume_with g (Suspended l k) =
     (\<lambda>s. Suspended l (\<lambda>c s. case map_prod (resume_with g) id (k c s) of (f, t) \<Rightarrow> (f t, t)))"

text \<open>What follows a task gets its result, an exception or a value.\<close>

definition seq_task :: "('l, 's, 'a) task \<Rightarrow> (exc + 'a \<Rightarrow> ('l, 's, 'b) task) \<Rightarrow> ('l, 's, 'b) task" where
  "seq_task m g s = resume_with g (m s) s"

definition bind_task :: "('l, 's, 'a) task \<Rightarrow> ('a \<Rightarrow> ('l, 's, 'b) task) \<Rightarrow> ('l, 's, 'b) task" where
  "bind_task m f = seq_task m (\<lambda>r. case r of Inl e \<Rightarrow> finished (Inl e) | Inr x \<Rightarrow> f x)"

definition try_task :: "('l, 's, 'a) task \<Rightarrow> (exc \<Rightarrow> (exc + 'a) option) \<Rightarrow> ('l, 's, 'a) task" where
  "try_task m h = seq_task m (\<lambda>r. finished (case r of Inl e \<Rightarrow> (case h e of None \<Rightarrow> Inl e | Some q \<Rightarrow> q) | Inr x \<Rightarrow> Inr x))"

definition finally_task :: "('l, 's, 'a) task \<Rightarrow> ('l, 's, unit) task \<Rightarrow> ('l, 's, 'a) task" where
  "finally_task m f =
     seq_task m (\<lambda>r. seq_task f (\<lambda>q. finished (case q of Inl e \<Rightarrow> Inl e | Inr _ \<Rightarrow> r)))"

definition raise_task :: "bool \<Rightarrow> exc \<Rightarrow> ('l, 's, unit) task" where
  "raise_task b e = finished (if b then Inl e else Inr ())"

lemma seq_finished: "seq_task (finished r) g = g r"
  by (simp add: fun_eq_iff seq_task_def finished_def)

lemma bind_finished [simp]:
  "bind_task (finished (Inl e)) f = finished (Inl e)" "bind_task (finished (Inr x)) f = f x"
  by (simp_all add: bind_task_def seq_finished)

text \<open>A suspension with nothing to do.\<close>

definition suspend :: "'l \<Rightarrow> ('l, 's, unit) task" where
  "suspend l s = Suspended l (\<lambda>c s. (Finished (if c then Inl CancelledError else Inr ()), s))"

text \<open>
  Awaiting an operation of another object: it takes effect at some moment between the call and the
  return, and the task may be cancelled on either side of that moment.
\<close>

definition await_op :: "'l \<Rightarrow> ('s, exc, 'a) op \<Rightarrow> ('l, 's, 'a) task" where
  "await_op l m s =
     Suspended l (\<lambda>c s.
       if c then (Finished (Inl CancelledError), s)
       else (case m s of (r, t) \<Rightarrow>
         (Suspended l (\<lambda>c s. (Finished (if c then Inl CancelledError else r), s)), t)))"


section \<open>The undisturbed run\<close>

primrec run_outcome :: "('l, 's, 'a) outcome \<Rightarrow> ('s, exc, 'a) op" where
  "run_outcome (Finished r) = (\<lambda>s. (r, s))"
| "run_outcome (Suspended l k) = (\<lambda>s. case map_prod run_outcome id (k False s) of (f, t) \<Rightarrow> f t)"

definition run_task :: "('l, 's, 'a) task \<Rightarrow> ('s, exc, 'a) op" where
  "run_task m s = run_outcome (m s) s"

named_theorems run_simps \<open>undisturbed runs of the combinators\<close>

lemma run_resume:
  "run_outcome (resume_with g x s) s = (case run_outcome x s of (r, t) \<Rightarrow> run_task (g r) t)"
proof (induction x arbitrary: s)
  case (Suspended l k)
  obtain y t where k: "k False s = (y, t)" by (rule prod.exhaust)
  have "run_outcome (resume_with g y t) t = (case run_outcome y t of (r, u) \<Rightarrow> run_task (g r) u)"
    by (rule Suspended [of "k False" "k False s"]) (simp, rule rangeI, simp add: k)
  then show ?case by (simp add: k)
qed (simp add: run_task_def)

lemma run_seq: "run_task (seq_task m g) s = (case run_task m s of (r, t) \<Rightarrow> run_task (g r) t)"
  by (simp add: run_task_def [of "seq_task m g"] run_task_def [of m] seq_task_def run_resume)

lemma run_finished [run_simps]: "run_task (finished r) = pure_op r"
  by (simp add: run_task_def finished_def pure_op_def fun_eq_iff)

lemma run_bind [run_simps]: "run_task (bind_task m f) = bind_op (run_task m) (\<lambda>x. run_task (f x))"
  by (auto simp: bind_task_def run_seq bind_op_def run_finished pure_op_def fun_eq_iff split: prod.split sum.split)

lemma run_try [run_simps]: "run_task (try_task m h) = try_op (run_task m) (\<lambda>e. map_option pure_op (h e))"
  by (auto simp: try_task_def run_seq try_op_def run_finished pure_op_def fun_eq_iff
      split: prod.split sum.split option.split)

lemma run_finally [run_simps]: "run_task (finally_task m f) = finally_op (run_task m) (run_task f)"
  by (auto simp: finally_task_def run_seq finally_op_def run_finished pure_op_def fun_eq_iff
      split: prod.split sum.split)

lemma run_raise [run_simps]: "run_task (raise_task b e) = raise_if b e"
  by (simp add: raise_task_def run_finished raise_if_def raise_def ret_def pure_op_def fun_eq_iff)

lemma run_suspend [run_simps]: "run_task (suspend l) = ret ()"
  by (simp add: run_task_def suspend_def ret_def fun_eq_iff)

lemma run_await [run_simps]: "run_task (await_op l m) = m"
  by (simp add: run_task_def await_op_def fun_eq_iff split: prod.split)


section \<open>Discipline\<close>

text \<open>
  A task with a private ghost value, which \<open>fits\<close> the state. At a suspension a guard holds of it, and
  every resumption, with or without cancellation and in whatever state the value fits, makes a move
  that the relation allows; at the end the result goes with the value.
\<close>

inductive disciplined ::
  "('h \<Rightarrow> 's \<Rightarrow> bool) \<Rightarrow> ('l \<Rightarrow> 'h \<Rightarrow> bool) \<Rightarrow> ('l \<Rightarrow> 'h \<Rightarrow> 's \<Rightarrow> 's \<Rightarrow> 'h \<Rightarrow> bool) \<Rightarrow>
     (exc + 'a \<Rightarrow> 'h \<Rightarrow> bool) \<Rightarrow> 'h \<Rightarrow> ('l, 's, 'a) outcome \<Rightarrow> bool"
  for fits guard move post where
  disc_finished: "post r h \<Longrightarrow> disciplined fits guard move post h (Finished r)"
| disc_suspended:
    "guard l h \<Longrightarrow>
     (\<And>c s. fits h s \<Longrightarrow> \<exists>h'. move l h s (snd (k c s)) h' \<and> disciplined fits guard move post h' (fst (k c s))) \<Longrightarrow>
     disciplined fits guard move post h (Suspended l k)"

inductive_simps disc_finished_iff: "disciplined fits guard move post h (Finished r)"
inductive_simps disc_suspended_iff: "disciplined fits guard move post h (Suspended l k)"

definition disciplined_task ::
  "('h \<Rightarrow> 's \<Rightarrow> bool) \<Rightarrow> ('l \<Rightarrow> 'h \<Rightarrow> bool) \<Rightarrow> ('l \<Rightarrow> 'h \<Rightarrow> 's \<Rightarrow> 's \<Rightarrow> 'h \<Rightarrow> bool) \<Rightarrow>
     (exc + 'a \<Rightarrow> 'h \<Rightarrow> bool) \<Rightarrow> 'h \<Rightarrow> ('l, 's, 'a) task \<Rightarrow> bool" where
  "disciplined_task fits guard move post h m \<longleftrightarrow> (\<forall>s. fits h s \<longrightarrow> disciplined fits guard move post h (m s))"

lemma disciplined_mono:
  assumes "disciplined fits guard move post h x" "\<And>r h. post r h \<Longrightarrow> post' r h"
  shows "disciplined fits guard move post' h x"
  using assms(1)
proof (induction rule: disciplined.induct)
  case (disc_suspended l h k)
  then show ?case by (auto simp: disc_suspended_iff)
qed (simp add: disc_finished_iff assms(2))

lemma disciplined_weaken:
  "disciplined_task fits guard move post h m \<Longrightarrow> (\<And>r h. post r h \<Longrightarrow> post' r h) \<Longrightarrow>
   disciplined_task fits guard move post' h m"
  by (auto simp: disciplined_task_def intro: disciplined_mono)

text \<open>
  The contract between a state and the moves on it: a move takes a value that fits to one that
  fits. It is what makes the discipline of a sequence that of its parts.
\<close>

named_theorems steady_intros \<open>tasks that keep their ghost value\<close>

locale discipline =
  fixes fits :: "'h \<Rightarrow> 's \<Rightarrow> bool"
    and guard :: "'l \<Rightarrow> 'h \<Rightarrow> bool"
    and move :: "'l \<Rightarrow> 'h \<Rightarrow> 's \<Rightarrow> 's \<Rightarrow> 'h \<Rightarrow> bool"
  assumes move_fits: "fits h s \<Longrightarrow> move l h s s' h' \<Longrightarrow> fits h' s'"
begin

abbreviation task_ok :: "(exc + 'a \<Rightarrow> 'h \<Rightarrow> bool) \<Rightarrow> 'h \<Rightarrow> ('l, 's, 'a) task \<Rightarrow> bool" where
  "task_ok \<equiv> disciplined_task fits guard move"

lemma resume_ok:
  assumes "disciplined fits guard move post h x" "\<And>r h. post r h \<Longrightarrow> task_ok post' h (g r)" "fits h s"
  shows "disciplined fits guard move post' h (resume_with g x s)"
  using assms(1,3)
proof (induction arbitrary: s)
  case (disc_finished r h)
  then show ?case using assms(2) by (simp add: disciplined_task_def)
next
  case (disc_suspended l h k)
  have "\<exists>h'. move l h u (snd (k c u)) h' \<and> disciplined fits guard move post' h' (resume_with g (fst (k c u)) (snd (k c u)))"
    if "fits h u" for c u
    using disc_suspended(2) [OF that, of c] move_fits [OF that] by blast
  then show ?case
    using disc_suspended(1) by (auto simp: disc_suspended_iff case_prod_unfold)
qed

lemma seq_ok: "task_ok post h m \<Longrightarrow> (\<And>r h. post r h \<Longrightarrow> task_ok post' h (g r)) \<Longrightarrow> task_ok post' h (seq_task m g)"
  unfolding disciplined_task_def [of _ _ _ _ h] seq_task_def by (blast intro: resume_ok)

lemma finished_ok: "post r h \<Longrightarrow> task_ok post h (finished r)"
  by (simp add: disciplined_task_def finished_def disc_finished)

lemma bind_ok:
  assumes "task_ok post h m"
    and "\<And>x h. post (Inr x) h \<Longrightarrow> task_ok post' h (f x)"
    and "\<And>e h. post (Inl e) h \<Longrightarrow> post' (Inl e) h"
  shows "task_ok post' h (bind_task m f)"
  unfolding bind_task_def
  by (rule seq_ok [OF assms(1)]) (auto intro: finished_ok assms(2,3) split: sum.split)

lemma finally_ok:
  assumes "task_ok post h m"
    and "\<And>r h. post r h \<Longrightarrow> task_ok (\<lambda>q h. post' (case q of Inl e \<Rightarrow> Inl e | Inr _ \<Rightarrow> r) h) h f"
  shows "task_ok post' h (finally_task m f)"
  unfolding finally_task_def
  by (rule seq_ok [OF assms(1)], rule seq_ok, erule assms(2)) (rule finished_ok)

text \<open>Operations on whose moves the ghost value does not depend.\<close>

lemma await_ok:
  assumes "guard l h" "\<And>s. move l h s s h" "\<And>s. move l h s (snd (m s)) h" "\<And>r. post r h"
  shows "task_ok post h (await_op l m)"
  unfolding disciplined_task_def await_op_def
  by (auto simp: disc_suspended_iff disc_finished_iff assms case_prod_unfold intro!: exI [of _ h])

lemma suspend_ok:
  assumes "guard l h" "\<And>s. move l h s s h" "\<And>r. post r h"
  shows "task_ok post h (suspend l)"
  unfolding disciplined_task_def suspend_def
  by (auto simp: disc_suspended_iff disc_finished_iff assms intro!: exI [of _ h])

text \<open>Tasks whose ghost value stays what it is.\<close>

definition steady :: "'h \<Rightarrow> ('l, 's, 'a) task \<Rightarrow> bool" where
  "steady h m \<longleftrightarrow> task_ok (\<lambda>_ h'. h' = h) h m"

lemma steady_finished [steady_intros]: "steady h (finished r)"
  by (simp add: steady_def finished_ok)

lemma steady_bind [steady_intros]: "steady h m \<Longrightarrow> (\<And>x. steady h (f x)) \<Longrightarrow> steady h (bind_task m f)"
  unfolding steady_def by (rule bind_ok) auto

lemma steady_known: "(\<And>x. r = Inr x \<Longrightarrow> steady h (f x)) \<Longrightarrow> steady h (bind_task (finished r) f)"
  by (cases r) (simp_all add: steady_finished)

lemma steady_seq: "steady h m \<Longrightarrow> (\<And>r. steady h (g r)) \<Longrightarrow> steady h (seq_task m g)"
  unfolding steady_def by (rule seq_ok [where post = "\<lambda>_ h'. h' = h"]) auto

lemma steady_try [steady_intros]: "steady h m \<Longrightarrow> steady h (try_task m k)"
  unfolding try_task_def by (intro steady_seq steady_finished)

lemma steady_finally: "steady h m \<Longrightarrow> steady h f \<Longrightarrow> steady h (finally_task m f)"
  unfolding finally_task_def by (intro steady_seq steady_finished)

lemma steady_reader: "steady h (\<lambda>s. Finished (f s))"
  by (simp add: steady_def disciplined_task_def disc_finished_iff)

lemma steady_raise [steady_intros]: "steady h (raise_task b e)"
  by (simp add: raise_task_def steady_finished)

lemma steady_cases [steady_intros]:
  "steady h m \<Longrightarrow> steady h m' \<Longrightarrow> steady h (if b then m else m')"
  "steady h m \<Longrightarrow> (\<And>y. steady h (f y)) \<Longrightarrow> steady h (case x of None \<Rightarrow> m | Some y \<Rightarrow> f y)"
  "(\<And>x y. steady h (g x y)) \<Longrightarrow> steady h (case p of (x, y) \<Rightarrow> g x y)"
  by (simp_all split: option.split prod.split)

end

end
