(* ===== verification/SaverConfig.thy ===== *)
theory SaverConfig
  imports PyValues
begin

text \<open>
  The limits of the bounded saver (\<open>InMemoryCheckpointConfig\<close> of \<open>checkpoint/memory.py\<close>) with
  the validation of \<open>__post_init__\<close>, and the validation of identifiers and of the location a
  run configuration names.
\<close>


section \<open>Limits\<close>

text \<open>The arguments of the dataclass, of whatever type a caller passes.\<close>

record checkpoint_config_args =
  arg_idle_ttl_seconds :: pyval
  arg_max_threads :: pyval
  arg_max_namespaces_per_thread :: pyval
  arg_max_checkpoints_per_thread :: pyval
  arg_max_checkpoint_bytes :: pyval
  arg_max_pending_write_bytes :: pyval
  arg_max_total_bytes :: pyval
  arg_max_thread_id_length :: pyval
  arg_max_checkpoint_namespace_length :: pyval

definition default_checkpoint_config_args :: checkpoint_config_args where
  "default_checkpoint_config_args =
     \<lparr>arg_idle_ttl_seconds = PInt 14400, arg_max_threads = PInt 1000,
      arg_max_namespaces_per_thread = PInt 16, arg_max_checkpoints_per_thread = PInt 1000,
      arg_max_checkpoint_bytes = PInt 1048576, arg_max_pending_write_bytes = PInt 524288,
      arg_max_total_bytes = PInt 67108864, arg_max_thread_id_length = PInt 256,
      arg_max_checkpoint_namespace_length = PInt 256\<rparr>"

record checkpoint_config =
  idle_ttl_seconds :: rat
  max_threads :: int
  max_namespaces_per_thread :: int
  max_checkpoints_per_thread :: int
  max_checkpoint_bytes :: int
  max_pending_write_bytes :: int
  max_total_bytes :: int
  max_thread_id_length :: int
  max_checkpoint_namespace_length :: int

text \<open>
  A number above zero: not a \<open>bool\<close> (which Python counts among the integers), an \<open>int\<close> or a
  finite \<open>float\<close>.
\<close>

fun positive_number :: "pyval \<Rightarrow> rat option" where
  "positive_number (PInt n) = (if n \<le> 0 then None else Some (of_int n))"
| "positive_number (PFloat (Fin q)) = (if q \<le> 0 then None else Some q)"
| "positive_number _ = None"

fun positive_int :: "pyval \<Rightarrow> int option" where
  "positive_int (PInt n) = (if n \<le> 0 then None else Some n)"
| "positive_int _ = None"

fun check_positive_fields :: "(string \<times> pyval) list \<Rightarrow> exc + int list" where
  "check_positive_fields [] = Inr []"
| "check_positive_fields ((field_name, v) # rest) =
     (case positive_int v of
        None \<Rightarrow> Inl (ValueError (field_name @ '' must be an integer greater than zero''))
      | Some n \<Rightarrow> bind_sum (check_positive_fields rest) (\<lambda>ns. Inr (n # ns)))"

definition positive_integer_fields :: "checkpoint_config_args \<Rightarrow> (string \<times> pyval) list" where
  "positive_integer_fields a =
     [(''max_threads'', arg_max_threads a),
      (''max_namespaces_per_thread'', arg_max_namespaces_per_thread a),
      (''max_checkpoints_per_thread'', arg_max_checkpoints_per_thread a),
      (''max_checkpoint_bytes'', arg_max_checkpoint_bytes a),
      (''max_pending_write_bytes'', arg_max_pending_write_bytes a),
      (''max_total_bytes'', arg_max_total_bytes a),
      (''max_thread_id_length'', arg_max_thread_id_length a),
      (''max_checkpoint_namespace_length'', arg_max_checkpoint_namespace_length a)]"

definition make_checkpoint_config :: "checkpoint_config_args \<Rightarrow> exc + checkpoint_config" where
  "make_checkpoint_config a =
     (case positive_number (arg_idle_ttl_seconds a) of
        None \<Rightarrow> Inl (ValueError ''idle_ttl_seconds must be a finite number greater than zero'')
      | Some ttl \<Rightarrow>
          bind_sum (check_positive_fields (positive_integer_fields a)) (\<lambda>ns.
            (let c = \<lparr>idle_ttl_seconds = ttl, max_threads = ns ! 0,
                      max_namespaces_per_thread = ns ! 1, max_checkpoints_per_thread = ns ! 2,
                      max_checkpoint_bytes = ns ! 3, max_pending_write_bytes = ns ! 4,
                      max_total_bytes = ns ! 5, max_thread_id_length = ns ! 6,
                      max_checkpoint_namespace_length = ns ! 7\<rparr>
             in if max_checkpoint_bytes c > max_total_bytes c
                then Inl (ValueError ''max_checkpoint_bytes must not exceed max_total_bytes'')
                else if max_pending_write_bytes c > max_total_bytes c
                then Inl (ValueError ''max_pending_write_bytes must not exceed max_total_bytes'')
                else Inr c)))"

text \<open>What the rest of the saver may rely on.\<close>

definition config_ok :: "checkpoint_config \<Rightarrow> bool" where
  "config_ok c \<longleftrightarrow>
     0 < idle_ttl_seconds c \<and> 0 < max_threads c \<and> 0 < max_namespaces_per_thread c \<and>
     0 < max_checkpoints_per_thread c \<and> 0 < max_checkpoint_bytes c \<and>
     0 < max_pending_write_bytes c \<and> 0 < max_total_bytes c \<and> 0 < max_thread_id_length c \<and>
     0 < max_checkpoint_namespace_length c \<and>
     max_checkpoint_bytes c \<le> max_total_bytes c \<and> max_pending_write_bytes c \<le> max_total_bytes c"

text \<open>The arguments that spell out a configuration.\<close>

definition args_of_config :: "checkpoint_config \<Rightarrow> checkpoint_config_args" where
  "args_of_config c =
     \<lparr>arg_idle_ttl_seconds = PFloat (Fin (idle_ttl_seconds c)), arg_max_threads = PInt (max_threads c),
      arg_max_namespaces_per_thread = PInt (max_namespaces_per_thread c),
      arg_max_checkpoints_per_thread = PInt (max_checkpoints_per_thread c),
      arg_max_checkpoint_bytes = PInt (max_checkpoint_bytes c),
      arg_max_pending_write_bytes = PInt (max_pending_write_bytes c),
      arg_max_total_bytes = PInt (max_total_bytes c),
      arg_max_thread_id_length = PInt (max_thread_id_length c),
      arg_max_checkpoint_namespace_length = PInt (max_checkpoint_namespace_length c)\<rparr>"

lemma positive_number_Some: "positive_number v = Some q \<Longrightarrow> 0 < q"
  by (cases v rule: positive_number.cases) (auto split: if_splits)

lemma positive_int_iff: "positive_int v = Some n \<longleftrightarrow> v = PInt n \<and> 0 < n"
  by (cases v) auto

lemma check_positive_fields_iff:
  "check_positive_fields fs = Inr ns \<longleftrightarrow> map snd fs = map PInt ns \<and> (\<forall>n\<in>set ns. 0 < n)"
proof (induction fs arbitrary: ns rule: check_positive_fields.induct)
  case (2 field_name v rest)
  show ?case
  proof (cases "positive_int v")
    case None
    then have "v \<noteq> PInt n \<or> n \<le> 0" for n by (metis linorder_not_le option.distinct(1) positive_int_iff)
    then show ?thesis using None by (cases ns) (auto simp: not_less)
  next
    case (Some n)
    then have "v = PInt n" "0 < n" by (simp_all add: positive_int_iff)
    then show ?thesis using "2.IH" Some by (cases ns) (auto simp: bind_sum_eq_Inr)
  qed
qed auto

lemma config_ok_make: "make_checkpoint_config a = Inr c \<Longrightarrow> config_ok c"
  by (auto simp: make_checkpoint_config_def positive_integer_fields_def config_ok_def Let_def
      bind_sum_eq_Inr check_positive_fields_iff Cons_eq_map_conv positive_number_Some positive_int_iff
      split: option.splits if_splits)

lemma make_config_args: "config_ok c \<Longrightarrow> make_checkpoint_config (args_of_config c) = Inr c"
  by (simp add: make_checkpoint_config_def positive_integer_fields_def config_ok_def args_of_config_def)


section \<open>Identifiers and locations\<close>

definition validated_identifier :: "pyval \<Rightarrow> string \<Rightarrow> int \<Rightarrow> bool \<Rightarrow> exc + string" where
  "validated_identifier v name max_length allow_empty =
     (case v of
        PStr s \<Rightarrow>
          (if s = [] \<and> \<not> allow_empty then Inl (ValueError (name @ '' must not be empty''))
           else if int (length s) > max_length
           then Inl (ValueError (name @ '' exceeds its maximum length''))
           else if s \<noteq> [] \<and> \<not> isprintable s
           then Inl (ValueError (name @ '' must not contain control characters or other '' @
                                 ''non-printable text''))
           else Inr s)
      | _ \<Rightarrow> Inl (ValueError (name @ '' must be a string'')))"

definition validated_location :: "checkpoint_config \<Rightarrow> pydict \<Rightarrow> exc + string \<times> string" where
  "validated_location cfg config =
     (case py_get config ''configurable'' of
        PDict configurable \<Rightarrow>
          bind_sum (validated_identifier (py_get configurable ''thread_id'') ''thread_id''
                      (max_thread_id_length cfg) False) (\<lambda>thread_id.
          bind_sum (validated_identifier (py_get_or configurable ''checkpoint_ns'' (PStr []))
                      ''checkpoint_ns'' (max_checkpoint_namespace_length cfg) True) (\<lambda>checkpoint_ns.
          (let checkpoint_id = py_get configurable ''checkpoint_id'' in
           if checkpoint_id = PNone then Inr (thread_id, checkpoint_ns)
           else bind_sum (validated_identifier checkpoint_id ''checkpoint_id''
                            (max_thread_id_length cfg) False)
                  (\<lambda>_. Inr (thread_id, checkpoint_ns)))))
      | _ \<Rightarrow> Inl (ValueError ''checkpoint config requires configurable values''))"

lemma validated_identifier_Inr:
  "validated_identifier v name n e = Inr s \<longleftrightarrow>
     v = PStr s \<and> (s \<noteq> [] \<or> e) \<and> int (length s) \<le> n \<and> isprintable s"
  by (cases v) (auto simp: validated_identifier_def)

lemma validated_identifier_valid:
  "validated_identifier v name n e = Inr s \<Longrightarrow> v = PStr s \<and> valid_identifier (nat n) e s"
  by (auto simp: validated_identifier_Inr valid_identifier_def)

lemma validated_location_cases:
  assumes "validated_location cfg config = Inr (t, ns)"
  obtains d where "py_get config ''configurable'' = PDict d"
    and "validated_identifier (py_get d ''thread_id'') ''thread_id'' (max_thread_id_length cfg) False = Inr t"
    and "validated_identifier (py_get_or d ''checkpoint_ns'' (PStr [])) ''checkpoint_ns''
           (max_checkpoint_namespace_length cfg) True = Inr ns"
proof (cases "py_get config ''configurable''")
  case (PDict d)
  then show ?thesis using assms that [of d]
    by (simp add: validated_location_def bind_sum_eq_Inr Let_def split: if_splits) (metis old.prod.inject)+
qed (use assms in \<open>simp_all add: validated_location_def\<close>)

text \<open>The thread and the namespace a configuration names, without their validation.\<close>

definition config_location :: "pydict \<Rightarrow> (string \<times> string) option" where
  "config_location config =
     (case py_get config ''configurable'' of
        PDict d \<Rightarrow>
          (case (py_get d ''thread_id'', py_get_or d ''checkpoint_ns'' (PStr [])) of
             (PStr t, PStr ns) \<Rightarrow> Some (t, ns)
           | _ \<Rightarrow> None)
      | _ \<Rightarrow> None)"

lemma validated_location_config:
  "validated_location cfg config = Inr (t, ns) \<Longrightarrow> config_location config = Some (t, ns)"
  by (erule validated_location_cases) (simp add: config_location_def validated_identifier_Inr)

lemma validated_location_ids:
  "validated_location cfg config = Inr (t, ns) \<Longrightarrow>
     valid_identifier (nat (max_thread_id_length cfg)) False t \<and>
     valid_identifier (nat (max_checkpoint_namespace_length cfg)) True ns"
  by (erule validated_location_cases) (blast dest: validated_identifier_valid)

end
