(* ===== verification/SaverState.thy ===== *)
theory SaverState
  imports SaverConfig
begin

text \<open>
  The state of \<open>BoundedInMemorySaver\<close> (\<open>checkpoint/memory.py\<close>) and its private helpers: the
  size ledger, eviction and expiry of threads, the LRU order. The class it extends, LangGraph's
  \<open>InMemorySaver\<close>, is not part of the repository: its operations are a parameter
  (\<open>parent_ops\<close>), and what the saver relies on is stated in theory \<open>SaverInvariant\<close>. Only the
  attributes that the saver itself reads (\<open>storage\<close>, \<open>writes\<close>, \<open>blobs\<close>) have a known shape.
\<close>


section \<open>State\<close>

type_synonym bytes = "8 word list"
type_synonym serialized = "string \<times> bytes"
type_synonym checkpoint_entry = "serialized \<times> serialized \<times> pyval"
type_synonym write_entry = "string \<times> string \<times> serialized \<times> string"
type_synonym checkpoint_key = "string \<times> string \<times> string"
type_synonym blob_key = "string \<times> string \<times> string \<times> pyval"

record mem =
  storage :: "(string, (string, (string, checkpoint_entry) dict) dict) dict"
  writes :: "(checkpoint_key, (string \<times> int, write_entry) dict) dict"
  blobs :: "(blob_key, serialized) dict"

text \<open>
  \<open>SizeKey\<close>: the tuples \<open>("checkpoint", ...)\<close>, \<open>("blob", ...)\<close> and \<open>("write", ...)\<close>; the
  component at index 1 is the thread in all of them.
\<close>

datatype size_key =
    CheckpointKey string string string
  | BlobKey string string string pyval
  | WriteKey string string string string int

fun key_thread :: "size_key \<Rightarrow> string" where
  "key_thread (CheckpointKey t _ _) = t"
| "key_thread (BlobKey t _ _ _) = t"
| "key_thread (WriteKey t _ _ _ _) = t"

record saver =
  mem_of :: mem
  last_access :: "(string, rat) dict"
  sizes :: "(size_key, int) dict"
  serialized_bytes :: int

definition empty_mem :: mem where
  "empty_mem = \<lparr>storage = [], writes = [], blobs = []\<rparr>"

text \<open>\<open>BoundedInMemorySaver.__init__\<close>, with the parent's empty containers.\<close>

definition new_saver :: saver where
  "new_saver = \<lparr>mem_of = empty_mem, last_access = [], sizes = [], serialized_bytes = 0\<rparr>"

text \<open>\<open>CheckpointTuple\<close>, as far as the repository reads it.\<close>

record checkpoint_tuple =
  tuple_config :: pydict
  tuple_checkpoint :: pydict
  tuple_metadata :: "pydict option"
  tuple_parent_config :: "pydict option"

text \<open>
  The methods of the parent class (\<open>super().m\<close>), the serializer and \<open>get_checkpoint_metadata\<close>.
  The readers may create empty containers, so they are operations on the state too.
  \<open>empty_blob\<close> is what the parent stores for a new channel version that carries no value.
\<close>

record parent_ops =
  super_get_tuple :: "pydict \<Rightarrow> (mem, exc, checkpoint_tuple option) op"
  super_list :: "pydict option \<Rightarrow> pydict option \<Rightarrow> pydict option \<Rightarrow> int option \<Rightarrow>
                   (mem, exc, checkpoint_tuple list) op"
  super_put :: "pydict \<Rightarrow> pydict \<Rightarrow> pydict \<Rightarrow> (string \<times> pyval) list \<Rightarrow> (mem, exc, pydict) op"
  super_put_writes :: "pydict \<Rightarrow> (string \<times> pyval) list \<Rightarrow> string \<Rightarrow> string \<Rightarrow> (mem, exc, unit) op"
  super_delete_thread :: "string \<Rightarrow> mem \<Rightarrow> mem"
  super_get_delta_channel_history :: "pydict \<Rightarrow> string list \<Rightarrow> (mem, exc, pydict) op"
  dumps_typed :: "pyval \<Rightarrow> exc + serialized"
  get_checkpoint_metadata :: "pydict \<Rightarrow> pydict \<Rightarrow> pydict"
  empty_blob :: serialized

text \<open>A method of the parent, run on the attributes it shares with the saver.\<close>

definition on_mem :: "(mem, exc, 'a) op \<Rightarrow> (saver, exc, 'a) op" where
  "on_mem m s = (case m (mem_of s) of (r, m') \<Rightarrow> (r, s\<lparr>mem_of := m'\<rparr>))"

lemma wp_on_mem: "wp (on_mem m) Q s \<longleftrightarrow> wp m (\<lambda>r m'. Q r (s\<lparr>mem_of := m'\<rparr>)) (mem_of s)"
  by (auto simp: wp_iff on_mem_def case_prod_unfold split: prod.split)


section \<open>Sizes\<close>

definition serialized_size :: "serialized \<Rightarrow> int" where
  "serialized_size v = int (utf8_len (fst v)) + int (length (snd v))"

definition set_size_locked :: "size_key \<Rightarrow> int \<Rightarrow> saver \<Rightarrow> saver" where
  "set_size_locked key sz s =
     (let previous = dict_get_or (sizes s) key 0 in
      s\<lparr>sizes := dict_set (sizes s) key sz,
        serialized_bytes := serialized_bytes s + (sz - previous)\<rparr>)"

definition remove_size_locked :: "size_key \<Rightarrow> saver \<Rightarrow> saver" where
  "remove_size_locked key s =
     s\<lparr>serialized_bytes := serialized_bytes s - dict_get_or (sizes s) key 0,
       sizes := dict_pop (sizes s) key\<rparr>"

definition ledger_ok :: "saver \<Rightarrow> bool" where
  "ledger_ok s \<longleftrightarrow> dict_wf (sizes s) \<and> serialized_bytes s = dict_sum (sizes s)"

definition ledger_size :: "saver \<Rightarrow> size_key \<Rightarrow> int option" where
  "ledger_size s k = dict_get (sizes s) k"

lemma serialized_size_nonneg [simp]: "0 \<le> serialized_size v"
  by (simp add: serialized_size_def)

text \<open>
  The interface of the size ledger: what writing and removing an entry does to the entries and
  to the running total. The folds over it are the loops of the record and delete helpers.
\<close>

locale size_ledger =
  fixes set_size :: "'k \<Rightarrow> int \<Rightarrow> 's \<Rightarrow> 's"
    and remove_size :: "'k \<Rightarrow> 's \<Rightarrow> 's"
    and size_of :: "'s \<Rightarrow> 'k \<Rightarrow> int option"
    and total :: "'s \<Rightarrow> int"
    and ok :: "'s \<Rightarrow> bool"
  assumes size_of_set: "size_of (set_size k n s) k' = (if k' = k then Some n else size_of s k')"
    and size_of_remove: "size_of (remove_size k s) k' = (if k' = k then None else size_of s k')"
    and total_set: "total (set_size k n s) = total s + n - (case size_of s k of None \<Rightarrow> 0 | Some m \<Rightarrow> m)"
    and total_remove: "ok s \<Longrightarrow> total (remove_size k s) = total s - (case size_of s k of None \<Rightarrow> 0 | Some m \<Rightarrow> m)"
    and ok_set: "ok s \<Longrightarrow> ok (set_size k n s)"
    and ok_remove: "ok s \<Longrightarrow> ok (remove_size k s)"
begin

lemma ok_fold_set: "ok s \<Longrightarrow> ok (fold (\<lambda>(k, n). set_size k n) kns s)"
  by (induction kns arbitrary: s) (auto intro: ok_set)

lemma size_of_fold_set:
  "size_of (fold (\<lambda>(k, n). set_size k n) kns s) k =
     (case map_of (rev kns) k of None \<Rightarrow> size_of s k | Some n \<Rightarrow> Some n)"
  by (induction kns arbitrary: s) (auto simp: size_of_set map_add_def split: option.split)

lemma total_fold_set_le:
  assumes "\<And>k n. size_of s k = Some n \<Longrightarrow> 0 \<le> n" "\<And>k n. (k, n) \<in> set kns \<Longrightarrow> 0 \<le> n"
  shows "total (fold (\<lambda>(k, n). set_size k n) kns s) \<le> total s + sum_list (map snd kns)"
  using assms
proof (induction kns arbitrary: s)
  case (Cons p kns)
  obtain k n where p: "p = (k, n)" by (cases p)
  have "total (set_size k n s) \<le> total s + n"
    using Cons.prems(1) [of k] by (auto simp: total_set split: option.split)
  moreover have "total (fold (\<lambda>(k, n). set_size k n) kns (set_size k n s))
      \<le> total (set_size k n s) + sum_list (map snd kns)"
    using Cons.prems p by (intro Cons.IH) (auto simp: size_of_set split: if_splits)
  ultimately show ?case by (simp add: p)
qed simp

text \<open>Writing again the size an entry has costs nothing.\<close>

lemma total_fold_set_changed:
  assumes "\<And>k n. size_of s k = Some n \<Longrightarrow> 0 \<le> n" "distinct (map fst kns)"
  shows "total (fold (\<lambda>(k, n). set_size k n) kns s)
           \<le> total s + sum_list (map snd (filter (\<lambda>(k, n). size_of s k \<noteq> Some n) kns))"
proof -
  have "total (fold (\<lambda>(k, n). set_size k n) kns t)
          \<le> total t + sum_list (map snd (filter (\<lambda>(k, n). size_of s k \<noteq> Some n) kns))"
    if "distinct (map fst kns)" "\<And>k. k \<in> fst ` set kns \<Longrightarrow> size_of t k = size_of s k" for t
    using that
  proof (induction kns arbitrary: t)
    case (Cons p kns)
    obtain k n where p: "p = (k, n)" by (cases p)
    have tk: "size_of t k = size_of s k" using Cons.prems(2) p by simp
    have "total (fold (\<lambda>(k, n). set_size k n) kns (set_size k n t)) \<le> total (set_size k n t) +
        sum_list (map snd (filter (\<lambda>(k, n). size_of s k \<noteq> Some n) kns))"
      using Cons.prems p by (intro Cons.IH) (auto simp: size_of_set rev_image_eqI)
    moreover have "total (set_size k n t) \<le> total t + (if size_of s k \<noteq> Some n then n else 0)"
      using assms(1) [of k] tk by (auto simp: total_set split: option.split)
    ultimately show ?case by (cases "size_of s k = Some n") (simp_all add: p)
  qed simp
  then show ?thesis using assms(2) by blast
qed

lemma ok_fold_remove: "ok s \<Longrightarrow> ok (fold (\<lambda>k s. if P k then remove_size k s else s) ks s)"
  by (induction ks arbitrary: s) (auto intro: ok_remove)

lemma size_of_fold_remove:
  "size_of (fold (\<lambda>k s. if P k then remove_size k s else s) ks s) k =
     (if k \<in> set ks \<and> P k then None else size_of s k)"
  by (induction ks arbitrary: s) (auto simp: size_of_remove)

lemma total_fold_remove_le:
  assumes "ok s" "\<And>k n. size_of s k = Some n \<Longrightarrow> 0 \<le> n"
  shows "total (fold (\<lambda>k s. if P k then remove_size k s else s) ks s) \<le> total s"
  using assms
proof (induction ks arbitrary: s)
  case (Cons k ks)
  have "total (remove_size k s) \<le> total s"
    using Cons.prems by (auto simp: total_remove split: option.split)
  moreover have "total (fold (\<lambda>k s. if P k then remove_size k s else s) ks (remove_size k s)) \<le> total (remove_size k s)"
    using Cons.prems by (intro Cons.IH) (auto simp: size_of_remove ok_remove split: if_splits)
  ultimately show ?case using Cons.IH [OF Cons.prems] by auto
qed simp

end

interpretation ledger: size_ledger set_size_locked remove_size_locked ledger_size serialized_bytes ledger_ok
proof unfold_locales
  show "serialized_bytes (set_size_locked k n s) =
      serialized_bytes s + n - (case ledger_size s k of None \<Rightarrow> 0 | Some m \<Rightarrow> m)" for k n s
    by (simp add: set_size_locked_def ledger_size_def dict_get_or_def Let_def)
  show "ledger_ok s \<Longrightarrow> serialized_bytes (remove_size_locked k s) =
      serialized_bytes s - (case ledger_size s k of None \<Rightarrow> 0 | Some m \<Rightarrow> m)" for k s
    by (simp add: remove_size_locked_def ledger_size_def dict_get_or_def)
  show "ledger_ok s \<Longrightarrow> ledger_ok (set_size_locked k n s)" for k n s
    by (simp add: ledger_ok_def set_size_locked_def dict_sum_set Let_def)
  show "ledger_ok s \<Longrightarrow> ledger_ok (remove_size_locked k s)" for k s
    by (simp add: ledger_ok_def remove_size_locked_def dict_sum_pop)
qed (simp_all add: ledger_size_def set_size_locked_def remove_size_locked_def Let_def dict_simps)



section \<open>Recording sizes\<close>

text \<open>The entry of \<open>storage[t][ns][c]\<close> and of \<open>writes[(t, ns, c)][(task, index)]\<close>, if present.\<close>

definition stored :: "mem \<Rightarrow> checkpoint_key \<Rightarrow> checkpoint_entry option" where
  "stored m k =
     (case k of (t, ns, c) \<Rightarrow>
        (case dict_get (storage m) t of
           None \<Rightarrow> None
         | Some namespaces \<Rightarrow>
             (case dict_get namespaces ns of None \<Rightarrow> None | Some checkpoints \<Rightarrow> dict_get checkpoints c)))"

definition pending :: "mem \<Rightarrow> checkpoint_key \<Rightarrow> (string \<times> int, write_entry) dict" where
  "pending m k = dict_get_or (writes m) k []"

definition entry_size :: "checkpoint_entry \<Rightarrow> int" where
  "entry_size e = (case e of (checkpoint, metadata, _) \<Rightarrow> serialized_size checkpoint + serialized_size metadata)"

definition write_size :: "write_entry \<Rightarrow> int" where
  "write_size w = (case w of (_, channel, v, task_path) \<Rightarrow>
     serialized_size v + int (utf8_len channel) + int (utf8_len task_path))"

text \<open>
  \<open>_record_checkpoint_sizes_locked\<close>: the entry just stored, then the blob of every new channel
  version. A missing entry would be a \<open>KeyError\<close>.
\<close>

fun record_blob_sizes :: "string \<Rightarrow> string \<Rightarrow> (string \<times> pyval) list \<Rightarrow> saver \<Rightarrow> saver" where
  "record_blob_sizes t ns [] s = s"
| "record_blob_sizes t ns ((channel, version) # rest) s =
     record_blob_sizes t ns rest
       (case dict_get (blobs (mem_of s)) (t, ns, channel, version) of
          None \<Rightarrow> s
        | Some blob \<Rightarrow> set_size_locked (BlobKey t ns channel version) (serialized_size blob) s)"

definition record_checkpoint_sizes_locked ::
  "string \<Rightarrow> string \<Rightarrow> string \<Rightarrow> (string \<times> pyval) list \<Rightarrow> (saver, exc, unit) op" where
  "record_checkpoint_sizes_locked t ns c new_versions s =
     (case stored (mem_of s) (t, ns, c) of
        None \<Rightarrow> (Inl (KeyError c), s)
      | Some e \<Rightarrow>
          (Inr (), record_blob_sizes t ns new_versions (set_size_locked (CheckpointKey t ns c) (entry_size e) s)))"

definition record_write_sizes_locked :: "string \<Rightarrow> string \<Rightarrow> string \<Rightarrow> saver \<Rightarrow> saver" where
  "record_write_sizes_locked t ns c s =
     fold (\<lambda>((task, index), w). set_size_locked (WriteKey t ns c task index) (write_size w))
       (pending (mem_of s) (t, ns, c)) s"

definition estimate_channel_size :: "parent_ops \<Rightarrow> pyval \<Rightarrow> string \<Rightarrow> exc + int" where
  "estimate_channel_size P channel_values channel =
     (case channel_values of
        PDict d \<Rightarrow>
          (case sget d channel of
             None \<Rightarrow> Inr 0
           | Some v \<Rightarrow> bind_sum (dumps_typed P v) (\<lambda>b. Inr (serialized_size b)))
      | _ \<Rightarrow> Inl (TypeError ''channel_values is not a container''))"

fun estimate_channel_sizes :: "parent_ops \<Rightarrow> pyval \<Rightarrow> (string \<times> pyval) list \<Rightarrow> exc + int" where
  "estimate_channel_sizes P channel_values [] = Inr 0"
| "estimate_channel_sizes P channel_values ((channel, _) # rest) =
     bind_sum (estimate_channel_size P channel_values channel) (\<lambda>n.
     bind_sum (estimate_channel_sizes P channel_values rest) (\<lambda>total. Inr (n + total)))"

definition checkpoint_copy :: "pydict \<Rightarrow> pydict" where
  "checkpoint_copy checkpoint = filter (\<lambda>(k, _). k \<noteq> PStr ''channel_values'') checkpoint"

definition estimate_checkpoint_size ::
  "parent_ops \<Rightarrow> pydict \<Rightarrow> pydict \<Rightarrow> pydict \<Rightarrow> (string \<times> pyval) list \<Rightarrow> exc + int" where
  "estimate_checkpoint_size P config checkpoint metadata new_versions =
     (let channel_values = py_get_or checkpoint ''channel_values'' (PDict []) in
      bind_sum (dumps_typed P (PDict (checkpoint_copy checkpoint))) (\<lambda>a.
      bind_sum (dumps_typed P (PDict (get_checkpoint_metadata P config metadata))) (\<lambda>b.
      bind_sum (estimate_channel_sizes P channel_values new_versions) (\<lambda>n.
        Inr (serialized_size a + serialized_size b + n)))))"

fun sum_write_sizes :: "parent_ops \<Rightarrow> (string \<times> pyval) list \<Rightarrow> exc + int" where
  "sum_write_sizes P [] = Inr 0"
| "sum_write_sizes P ((channel, v) # rest) =
     bind_sum (dumps_typed P v) (\<lambda>b.
     bind_sum (sum_write_sizes P rest) (\<lambda>total.
       Inr (serialized_size b + int (utf8_len channel) + total)))"

definition estimate_write_size ::
  "parent_ops \<Rightarrow> (string \<times> pyval) list \<Rightarrow> string \<Rightarrow> string \<Rightarrow> exc + int" where
  "estimate_write_size P ws task_id task_path =
     bind_sum (sum_write_sizes P ws) (\<lambda>total.
       Inr (total + int (utf8_len task_id) + int (utf8_len task_path)))"


section \<open>Access order, deletion, expiry and eviction\<close>

definition touch_locked :: "rat \<Rightarrow> string \<Rightarrow> saver \<Rightarrow> saver" where
  "touch_locked now t s = s\<lparr>last_access := dict_set (dict_pop (last_access s) t) t now\<rparr>"

definition delete_thread_locked :: "parent_ops \<Rightarrow> string \<Rightarrow> saver \<Rightarrow> saver" where
  "delete_thread_locked P t s =
     (let s = s\<lparr>mem_of := super_delete_thread P t (mem_of s)\<rparr>;
          s = s\<lparr>last_access := dict_pop (last_access s) t\<rparr>
      in fold (\<lambda>k s. if key_thread k = t then remove_size_locked k s else s) (dict_keys (sizes s)) s)"

definition purge_expired_locked :: "parent_ops \<Rightarrow> checkpoint_config \<Rightarrow> rat \<Rightarrow> (saver, exc, int) op" where
  "purge_expired_locked P cfg now s =
     (let cutoff = now - idle_ttl_seconds cfg;
          expired = map fst (filter (\<lambda>(_, accessed). accessed \<le> cutoff) (last_access s))
      in (Inr (int (length expired)), fold (delete_thread_locked P) expired s))"

definition known_namespaces_locked :: "string \<Rightarrow> saver \<Rightarrow> string set" where
  "known_namespaces_locked t s =
     set (dict_keys (dict_get_or (storage (mem_of s)) t [])) \<union>
     set (map (\<lambda>(_, ns, _). ns) (filter (\<lambda>(t', _, _). t' = t) (dict_keys (writes (mem_of s)))))"

definition known_checkpoints_locked :: "string \<Rightarrow> saver \<Rightarrow> (string \<times> string) set" where
  "known_checkpoints_locked t s =
     set (concat (map (\<lambda>(ns, checkpoints). map (Pair ns) (dict_keys checkpoints))
                    (dict_get_or (storage (mem_of s)) t []))) \<union>
     set (map snd (filter (\<lambda>(t', _, _). t' = t) (dict_keys (writes (mem_of s)))))"

lemma last_access_set_size [simp]: "last_access (set_size_locked k n s) = last_access s"
  by (simp add: set_size_locked_def Let_def)

lemma mem_of_set_size [simp]: "mem_of (set_size_locked k n s) = mem_of s"
  by (simp add: set_size_locked_def Let_def)

lemma last_access_remove_size [simp]: "last_access (remove_size_locked k s) = last_access s"
  by (simp add: remove_size_locked_def)

lemma mem_of_remove_size [simp]: "mem_of (remove_size_locked k s) = mem_of s"
  by (simp add: remove_size_locked_def)

lemma fold_remove_size_frame:
  "last_access (fold (\<lambda>k s. if c k then remove_size_locked k s else s) ks s) = last_access s"
  "mem_of (fold (\<lambda>k s. if c k then remove_size_locked k s else s) ks s) = mem_of s"
  by (induction ks arbitrary: s) auto

lemma last_access_delete [simp]: "last_access (delete_thread_locked P t s) = dict_pop (last_access s) t"
  by (simp add: delete_thread_locked_def Let_def fold_remove_size_frame)

lemma mem_of_delete [simp]: "mem_of (delete_thread_locked P t s) = super_delete_thread P t (mem_of s)"
  by (simp add: delete_thread_locked_def Let_def fold_remove_size_frame)

text \<open>
  \<open>_make_room_for_thread_locked\<close>: the loop drops the first thread of the access order until
  there is room. Every iteration removes an entry of \<open>last_access\<close>, so it ends; with no entry
  left, \<open>next\<close> raises \<open>StopIteration\<close>.
\<close>

function make_room_loop :: "parent_ops \<Rightarrow> checkpoint_config \<Rightarrow> saver \<Rightarrow> (exc + unit) \<times> saver" where
  "make_room_loop P cfg s =
     (if int (length (last_access s)) \<ge> max_threads cfg
      then (case last_access s of
              [] \<Rightarrow> (Inl StopIteration, s)
            | (oldest_thread, _) # _ \<Rightarrow> make_room_loop P cfg (delete_thread_locked P oldest_thread s))
      else (Inr (), s))"
  by pat_completeness auto
termination
  by (relation "measure (\<lambda>(P, cfg, s). length (last_access s))")
    (auto intro!: le_imp_less_Suc length_dict_pop_le)

declare make_room_loop.simps [simp del]

definition make_room_for_thread_locked :: "parent_ops \<Rightarrow> checkpoint_config \<Rightarrow> string \<Rightarrow> (saver, exc, unit) op" where
  "make_room_for_thread_locked P cfg t s =
     (if dict_has (last_access s) t then (Inr (), s) else make_room_loop P cfg s)"

text \<open>
  \<open>_make_room_for_bytes_locked\<close>: the least recently used thread other than the protected one is
  dropped until the required bytes fit; with none left the operation is refused.
\<close>

function make_room_for_bytes_locked ::
  "parent_ops \<Rightarrow> checkpoint_config \<Rightarrow> int \<Rightarrow> string \<Rightarrow> saver \<Rightarrow> (exc + unit) \<times> saver" where
  "make_room_for_bytes_locked P cfg required_bytes protected_thread s =
     (if serialized_bytes s + required_bytes > max_total_bytes cfg
      then (case find (\<lambda>t. t \<noteq> protected_thread) (dict_keys (last_access s)) of
              None \<Rightarrow>
                (Inl (CheckpointCapacityError ''operation exceeds the in-memory checkpoint byte budget''), s)
            | Some evictable \<Rightarrow>
                make_room_for_bytes_locked P cfg required_bytes protected_thread
                  (delete_thread_locked P evictable s))
      else (Inr (), s))"
  by pat_completeness auto
termination
  by (relation "measure (\<lambda>(P, cfg, n, t, s). length (last_access s))")
    (auto simp: dict_has_def intro!: length_dict_pop_less dest: find_Some_mem)

declare make_room_for_bytes_locked.simps [simp del]

end
