(* ===== verification/SaverOps.thy ===== *)
theory SaverOps
  imports SaverState
begin

text \<open>
  The public operations of \<open>BoundedInMemorySaver\<close> (\<open>checkpoint/memory.py\<close>). Each runs under the
  saver's re-entrant lock, so it is one step from state to state. \<open>now\<close> is the clock reading of
  \<open>_purge_expired_locked\<close>, \<open>later\<close> the one of \<open>_touch_locked\<close>. A state survives an exception:
  what had been purged or evicted before a refusal stays so.
\<close>


section \<open>Reading\<close>

definition get_tuple ::
  "parent_ops \<Rightarrow> checkpoint_config \<Rightarrow> rat \<Rightarrow> rat \<Rightarrow> pydict \<Rightarrow> (saver, exc, checkpoint_tuple option) op" where
  "get_tuple P cfg now later config =
     bind_op (pure_op (validated_location cfg config)) (\<lambda>(thread_id, _).
     bind_op (purge_expired_locked P cfg now) (\<lambda>_.
     bind_op (read_op (\<lambda>s. dict_has (storage (mem_of s)) thread_id)) (\<lambda>present.
       if \<not> present then ret None
       else bind_op (on_mem (super_get_tuple P config)) (\<lambda>item.
         case item of
           None \<Rightarrow> ret None
         | Some _ \<Rightarrow> bind_op (modify_op (touch_locked later thread_id)) (\<lambda>_. ret item)))))"

text \<open>\<open>list\<close>; the configuration and the \<open>before\<close> marker are validated where they are given.\<close>

definition list_locations ::
  "checkpoint_config \<Rightarrow> pydict option \<Rightarrow> pydict option \<Rightarrow> exc + string option" where
  "list_locations cfg config before_config =
     bind_sum (case config of
                 None \<Rightarrow> Inr None
               | Some c \<Rightarrow> bind_sum (validated_location cfg c) (\<lambda>(t, _). Inr (Some t))) (\<lambda>thread_id.
     bind_sum (case before_config of
                 None \<Rightarrow> Inr ()
               | Some b \<Rightarrow> bind_sum (validated_location cfg b) (\<lambda>_. Inr ())) (\<lambda>_.
       Inr thread_id))"

definition list_checkpoints ::
  "parent_ops \<Rightarrow> checkpoint_config \<Rightarrow> rat \<Rightarrow> rat \<Rightarrow> pydict option \<Rightarrow> pydict option \<Rightarrow>
     pydict option \<Rightarrow> int option \<Rightarrow> (saver, exc, checkpoint_tuple list) op" where
  "list_checkpoints P cfg now later config flt before_config limit =
     bind_op (pure_op (list_locations cfg config before_config)) (\<lambda>thread_id.
     bind_op (purge_expired_locked P cfg now) (\<lambda>_.
     bind_op (read_op (\<lambda>s. case thread_id of None \<Rightarrow> True | Some t \<Rightarrow> dict_has (storage (mem_of s)) t)) (\<lambda>present.
       if \<not> present then ret []
       else bind_op (on_mem (super_list P config flt before_config limit)) (\<lambda>items.
         case thread_id of
           None \<Rightarrow> ret items
         | Some t \<Rightarrow>
             if items = [] then ret items
             else bind_op (modify_op (touch_locked later t)) (\<lambda>_. ret items)))))"

text \<open>
  \<open>get_delta_channel_history\<close>; unlike the two readers above it does not ask whether the thread
  is stored.
\<close>

definition get_delta_channel_history ::
  "parent_ops \<Rightarrow> checkpoint_config \<Rightarrow> rat \<Rightarrow> rat \<Rightarrow> pydict \<Rightarrow> string list \<Rightarrow> (saver, exc, pydict) op" where
  "get_delta_channel_history P cfg now later config channels =
     bind_op (pure_op (validated_location cfg config)) (\<lambda>(thread_id, _).
     bind_op (purge_expired_locked P cfg now) (\<lambda>_.
     bind_op (on_mem (super_get_delta_channel_history P config channels)) (\<lambda>result.
       if result = [] then ret result
       else bind_op (modify_op (touch_locked later thread_id)) (\<lambda>_. ret result))))"


section \<open>Writing\<close>

text \<open>
  The part that \<open>put\<close> and \<open>put_writes\<close> have in common: expiry, room for the thread, the
  namespace and checkpoint quotas, room for the bytes.
\<close>

definition admit ::
  "parent_ops \<Rightarrow> checkpoint_config \<Rightarrow> rat \<Rightarrow> string \<Rightarrow> string \<Rightarrow> string \<Rightarrow> int \<Rightarrow> (saver, exc, unit) op" where
  "admit P cfg now thread_id checkpoint_ns checkpoint_id required_bytes =
     bind_op (purge_expired_locked P cfg now) (\<lambda>_.
     bind_op (make_room_for_thread_locked P cfg thread_id) (\<lambda>_.
     bind_op (read_op (known_namespaces_locked thread_id)) (\<lambda>namespaces.
     bind_op (raise_if (checkpoint_ns \<notin> namespaces \<and> int (card namespaces) \<ge> max_namespaces_per_thread cfg)
        (CheckpointCapacityError ''thread exceeds max_namespaces_per_thread'')) (\<lambda>_.
     bind_op (read_op (known_checkpoints_locked thread_id)) (\<lambda>checkpoints.
     bind_op (raise_if ((checkpoint_ns, checkpoint_id) \<notin> checkpoints \<and>
                        int (card checkpoints) \<ge> max_checkpoints_per_thread cfg)
        (CheckpointCapacityError (''thread exceeds max_checkpoints_per_thread; delete the '' @
                                  ''thread or use a persistent checkpointer''))) (\<lambda>_.
       make_room_for_bytes_locked P cfg required_bytes thread_id))))))"

text \<open>What \<open>put\<close> computes before it takes the lock.\<close>

definition put_arguments ::
  "parent_ops \<Rightarrow> checkpoint_config \<Rightarrow> pydict \<Rightarrow> pydict \<Rightarrow> pydict \<Rightarrow> (string \<times> pyval) list \<Rightarrow>
     exc + string \<times> string \<times> string \<times> int" where
  "put_arguments P cfg config checkpoint metadata new_versions =
     bind_sum (validated_location cfg config) (\<lambda>(thread_id, checkpoint_ns).
     bind_sum (case sget checkpoint ''id'' of None \<Rightarrow> Inl (KeyError ''id'') | Some v \<Rightarrow> Inr v) (\<lambda>idv.
     bind_sum (validated_identifier idv ''checkpoint_id'' (max_thread_id_length cfg) False) (\<lambda>checkpoint_id.
     bind_sum (estimate_checkpoint_size P config checkpoint metadata new_versions) (\<lambda>estimated_size.
     bind_sum (raise_sum_if (estimated_size > max_checkpoint_bytes cfg)
        (CheckpointCapacityError ''checkpoint exceeds max_checkpoint_bytes'')) (\<lambda>_.
       Inr (thread_id, checkpoint_ns, checkpoint_id, estimated_size))))))"

definition put ::
  "parent_ops \<Rightarrow> checkpoint_config \<Rightarrow> rat \<Rightarrow> rat \<Rightarrow> pydict \<Rightarrow> pydict \<Rightarrow> pydict \<Rightarrow>
     (string \<times> pyval) list \<Rightarrow> (saver, exc, pydict) op" where
  "put P cfg now later config checkpoint metadata new_versions =
     bind_op (pure_op (put_arguments P cfg config checkpoint metadata new_versions))
       (\<lambda>(thread_id, checkpoint_ns, checkpoint_id, estimated_size).
     bind_op (admit P cfg now thread_id checkpoint_ns checkpoint_id estimated_size) (\<lambda>_.
     bind_op (on_mem (super_put P config checkpoint metadata new_versions)) (\<lambda>result.
     bind_op (record_checkpoint_sizes_locked thread_id checkpoint_ns checkpoint_id new_versions) (\<lambda>_.
     bind_op (modify_op (touch_locked later thread_id)) (\<lambda>_.
       ret result)))))"

definition put_writes_arguments ::
  "parent_ops \<Rightarrow> checkpoint_config \<Rightarrow> pydict \<Rightarrow> (string \<times> pyval) list \<Rightarrow> pyval \<Rightarrow> string \<Rightarrow>
     exc + string \<times> string \<times> string \<times> string \<times> int" where
  "put_writes_arguments P cfg config ws task_idv task_path =
     bind_sum (validated_location cfg config) (\<lambda>(thread_id, checkpoint_ns).
     bind_sum (case py_get config ''configurable'' of
                 PDict d \<Rightarrow> Inr (py_get d ''checkpoint_id'')
               | _ \<Rightarrow> Inl (KeyError ''configurable'')) (\<lambda>idv.
     bind_sum (validated_identifier idv ''checkpoint_id'' (max_thread_id_length cfg) False) (\<lambda>checkpoint_id.
     bind_sum (validated_identifier task_idv ''task_id'' (max_thread_id_length cfg) False) (\<lambda>task_id.
     bind_sum (estimate_write_size P ws task_id task_path) (\<lambda>estimated_size.
     bind_sum (raise_sum_if (estimated_size > max_pending_write_bytes cfg)
        (CheckpointCapacityError ''pending writes exceed max_pending_write_bytes'')) (\<lambda>_.
       Inr (thread_id, checkpoint_ns, checkpoint_id, task_id, estimated_size)))))))"

definition put_writes ::
  "parent_ops \<Rightarrow> checkpoint_config \<Rightarrow> rat \<Rightarrow> rat \<Rightarrow> pydict \<Rightarrow> (string \<times> pyval) list \<Rightarrow> pyval \<Rightarrow> string \<Rightarrow>
     (saver, exc, unit) op" where
  "put_writes P cfg now later config ws task_idv task_path =
     bind_op (pure_op (put_writes_arguments P cfg config ws task_idv task_path))
       (\<lambda>(thread_id, checkpoint_ns, checkpoint_id, task_id, estimated_size).
     bind_op (admit P cfg now thread_id checkpoint_ns checkpoint_id estimated_size) (\<lambda>_.
     bind_op (on_mem (super_put_writes P config ws task_id task_path)) (\<lambda>_.
     bind_op (modify_op (record_write_sizes_locked thread_id checkpoint_ns checkpoint_id)) (\<lambda>_.
       modify_op (touch_locked later thread_id)))))"


section \<open>Deletion, expiry, statistics\<close>

definition delete_thread :: "parent_ops \<Rightarrow> checkpoint_config \<Rightarrow> pyval \<Rightarrow> (saver, exc, unit) op" where
  "delete_thread P cfg v =
     bind_op (pure_op (validated_identifier v ''thread_id'' (max_thread_id_length cfg) False)) (\<lambda>validated.
       modify_op (delete_thread_locked P validated))"

definition purge_expired :: "parent_ops \<Rightarrow> checkpoint_config \<Rightarrow> rat \<Rightarrow> (saver, exc, int) op" where
  "purge_expired P cfg now = purge_expired_locked P cfg now"

definition clear :: "(saver, exc, unit) op" where
  "clear = modify_op (\<lambda>s.
     s\<lparr>mem_of := (mem_of s)\<lparr>storage := [], writes := [], blobs := []\<rparr>,
       last_access := [], sizes := [], serialized_bytes := 0\<rparr>)"

record checkpoint_stats =
  stat_threads :: int
  stat_checkpoints :: int
  stat_pending_writes :: int
  stat_serialized_bytes :: int

definition checkpoint_count :: "mem \<Rightarrow> int" where
  "checkpoint_count m =
     sum_list (concat (map (\<lambda>(_, namespaces). map (\<lambda>(_, checkpoints). int (length checkpoints)) namespaces)
                        (storage m)))"

definition pending_write_count :: "mem \<Rightarrow> int" where
  "pending_write_count m = sum_list (map (\<lambda>(_, ws). int (length ws)) (writes m))"

definition stats :: "parent_ops \<Rightarrow> checkpoint_config \<Rightarrow> rat \<Rightarrow> (saver, exc, checkpoint_stats) op" where
  "stats P cfg now =
     bind_op (purge_expired_locked P cfg now) (\<lambda>_.
       read_op (\<lambda>s. \<lparr>stat_threads = int (length (last_access s)),
                      stat_checkpoints = checkpoint_count (mem_of s),
                      stat_pending_writes = pending_write_count (mem_of s),
                      stat_serialized_bytes = serialized_bytes s\<rparr>))"


section \<open>Asynchronous variants\<close>

text \<open>
  \<open>asyncio.to_thread\<close> runs the synchronous method on a worker thread; the lock makes the call
  atomic, so the model is the same step. \<open>alist\<close> yields the items of the finished snapshot.
\<close>

definition aget_tuple ::
  "parent_ops \<Rightarrow> checkpoint_config \<Rightarrow> rat \<Rightarrow> rat \<Rightarrow> pydict \<Rightarrow> (saver, exc, checkpoint_tuple option) op" where
  "aget_tuple P cfg now later config = get_tuple P cfg now later config"

definition alist ::
  "parent_ops \<Rightarrow> checkpoint_config \<Rightarrow> rat \<Rightarrow> rat \<Rightarrow> pydict option \<Rightarrow> pydict option \<Rightarrow>
     pydict option \<Rightarrow> int option \<Rightarrow> (saver, exc, checkpoint_tuple list) op" where
  "alist P cfg now later config flt before_config limit = list_checkpoints P cfg now later config flt before_config limit"

definition aput ::
  "parent_ops \<Rightarrow> checkpoint_config \<Rightarrow> rat \<Rightarrow> rat \<Rightarrow> pydict \<Rightarrow> pydict \<Rightarrow> pydict \<Rightarrow>
     (string \<times> pyval) list \<Rightarrow> (saver, exc, pydict) op" where
  "aput P cfg now later config checkpoint metadata new_versions =
     put P cfg now later config checkpoint metadata new_versions"

definition aput_writes ::
  "parent_ops \<Rightarrow> checkpoint_config \<Rightarrow> rat \<Rightarrow> rat \<Rightarrow> pydict \<Rightarrow> (string \<times> pyval) list \<Rightarrow> pyval \<Rightarrow> string \<Rightarrow>
     (saver, exc, unit) op" where
  "aput_writes P cfg now later config ws task_idv task_path =
     put_writes P cfg now later config ws task_idv task_path"

definition adelete_thread :: "parent_ops \<Rightarrow> checkpoint_config \<Rightarrow> pyval \<Rightarrow> (saver, exc, unit) op" where
  "adelete_thread P cfg v = delete_thread P cfg v"

definition aget_delta_channel_history ::
  "parent_ops \<Rightarrow> checkpoint_config \<Rightarrow> rat \<Rightarrow> rat \<Rightarrow> pydict \<Rightarrow> string list \<Rightarrow> (saver, exc, pydict) op" where
  "aget_delta_channel_history P cfg now later config channels =
     get_delta_channel_history P cfg now later config channels"

text \<open>One operation of the saver, as the events of a run.\<close>

datatype saver_event =
    GetTuple rat rat pydict
  | ListCheckpoints rat rat "pydict option" "pydict option" "pydict option" "int option"
  | Put rat rat pydict pydict pydict "(string \<times> pyval) list"
  | PutWrites rat rat pydict "(string \<times> pyval) list" pyval string
  | DeleteThread pyval
  | GetDelta rat rat pydict "string list"
  | PurgeExpired rat
  | Clear
  | Stats rat

definition run_op :: "('s, 'e, 'a) op \<Rightarrow> 's \<Rightarrow> 's" where
  "run_op m s = snd (m s)"

fun saver_exec :: "parent_ops \<Rightarrow> checkpoint_config \<Rightarrow> saver_event \<Rightarrow> saver \<Rightarrow> saver" where
  "saver_exec P cfg (GetTuple n l c) = run_op (get_tuple P cfg n l c)"
| "saver_exec P cfg (ListCheckpoints n l c f b k) = run_op (list_checkpoints P cfg n l c f b k)"
| "saver_exec P cfg (Put n l c ch md nv) = run_op (put P cfg n l c ch md nv)"
| "saver_exec P cfg (PutWrites n l c ws tk tp) = run_op (put_writes P cfg n l c ws tk tp)"
| "saver_exec P cfg (DeleteThread v) = run_op (delete_thread P cfg v)"
| "saver_exec P cfg (GetDelta n l c chs) = run_op (get_delta_channel_history P cfg n l c chs)"
| "saver_exec P cfg (PurgeExpired n) = run_op (purge_expired P cfg n)"
| "saver_exec P cfg Clear = run_op clear"
| "saver_exec P cfg (Stats n) = run_op (stats P cfg n)"

end
