(* ===== verification/Models.thy ===== *)
theory Models
  imports PyValues "HOL-Library.Multiset"
begin

text \<open>
  The request and response models of \<open>models.py\<close> and their validators. pydantic itself is not
  modelled: the constraints a field declares are predicates, and the validators written in the
  repository are functions to \<open>exc + unit\<close>. A record's instance exists for the handlers only
  if its \<open>_ok\<close> predicate holds.
\<close>


section \<open>Identifiers\<close>

definition printable_check :: "string \<Rightarrow> exc + string" where
  "printable_check s =
     (if isprintable s then Inr s
      else Inl (ValueError ''identifier must contain only printable characters''))"

text \<open>\<open>ThreadId\<close>, \<open>ConfigTag\<close> and \<open>RequiredIdentifier\<close> have the same constraints.\<close>

definition required_identifier :: "string \<Rightarrow> bool" where
  "required_identifier s \<longleftrightarrow> 1 \<le> length s \<and> length s \<le> 256 \<and> printable_check s = Inr s"

definition namespace_identifier :: "string \<Rightarrow> bool" where
  "namespace_identifier s \<longleftrightarrow> length s \<le> 256 \<and> printable_check s = Inr s"

definition optional :: "('a \<Rightarrow> bool) \<Rightarrow> 'a option \<Rightarrow> bool" where
  "optional p x = (case x of None \<Rightarrow> True | Some v \<Rightarrow> p v)"

definition stream_modes :: "string list" where
  "stream_modes = [''values'', ''updates'', ''messages'', ''messages-tuple'', ''custom'', ''debug'']"


section \<open>Models\<close>

text \<open>\<open>Config\<close>, with its validator.\<close>

record config_model =
  cm_tags :: "string list option"
  cm_recursion_limit :: "int option"
  cm_configurable :: "pydict option"

definition reserved_fields :: "(string \<times> bool) list" where
  "reserved_fields = [(''thread_id'', False), (''checkpoint_id'', False), (''checkpoint_ns'', True)]"

fun validate_reserved :: "pydict \<Rightarrow> (string \<times> bool) list \<Rightarrow> exc + unit" where
  "validate_reserved d [] = Inr ()"
| "validate_reserved d ((name, allow_empty) # rest) =
     bind_sum (case py_get d name of
         PNone \<Rightarrow> Inr ()
       | PStr s \<Rightarrow>
           (if s = [] \<and> \<not> allow_empty then Inl (ValueError (''configurable.'' @ name @ '' must not be empty''))
            else if length s > 256 then Inl (ValueError (''configurable.'' @ name @ '' exceeds its maximum length''))
            else bind_sum (printable_check s) (\<lambda>_. Inr ()))
       | _ \<Rightarrow> Inl (ValueError (''configurable.'' @ name @ '' must be a string'')))
       (\<lambda>_. validate_reserved d rest)"

definition validate_checkpoint_config :: "config_model \<Rightarrow> exc + unit" where
  "validate_checkpoint_config c =
     (case cm_configurable c of
        None \<Rightarrow> Inr ()
      | Some d \<Rightarrow>
          bind_sum (validate_reserved d reserved_fields) (\<lambda>_.
            (let checkpoint_map = py_get d ''checkpoint_map'' in
             if checkpoint_map \<noteq> PNone \<and> \<not> is_dict checkpoint_map
             then Inl (ValueError ''configurable.checkpoint_map must be an object'') else Inr ())))"

definition config_model_ok :: "config_model \<Rightarrow> bool" where
  "config_model_ok c \<longleftrightarrow>
     optional (\<lambda>ts. length ts \<le> 100 \<and> list_all required_identifier ts) (cm_tags c) \<and>
     optional (\<lambda>n. 1 \<le> n \<and> n \<le> 1000) (cm_recursion_limit c) \<and>
     validate_checkpoint_config c = Inr ()"

text \<open>A value of the type \<open>dict[str, Any]\<close>.\<close>

definition str_keyed :: "pydict \<Rightarrow> bool" where
  "str_keyed d \<longleftrightarrow> list_all (\<lambda>(k, _). is_str k) d"

text \<open>\<open>Checkpoint\<close>: a reference to a checkpoint of a thread.\<close>

record checkpoint_ref =
  ref_thread_id :: string
  ref_checkpoint_ns :: string
  ref_checkpoint_id :: "string option"
  ref_checkpoint_map :: "pydict option"

definition checkpoint_ref_ok :: "checkpoint_ref \<Rightarrow> bool" where
  "checkpoint_ref_ok c \<longleftrightarrow>
     required_identifier (ref_thread_id c) \<and> namespace_identifier (ref_checkpoint_ns c) \<and>
     optional required_identifier (ref_checkpoint_id c)"

text \<open>\<open>ThreadState\<close>; its tasks are always empty in this server, so they are values.\<close>

record thread_state =
  state_values :: pyval
  state_next :: "string list"
  state_checkpoint :: checkpoint_ref
  state_metadata :: "pydict option"
  state_created_at :: "string option"
  state_parent_checkpoint :: "checkpoint_ref option"
  state_tasks :: "pyval list"
  state_interrupts :: "pyval list"

record state_request =
  sr_checkpoint :: "checkpoint_ref option"
  sr_subgraphs :: bool

definition reject_subgraphs :: "state_request \<Rightarrow> exc + unit" where
  "reject_subgraphs r = raise_sum_if (sr_subgraphs r) (ValueError ''subgraph state is not supported'')"

definition state_request_ok :: "state_request \<Rightarrow> bool" where
  "state_request_ok r \<longleftrightarrow> optional checkpoint_ref_ok (sr_checkpoint r) \<and> reject_subgraphs r = Inr ()"

text \<open>\<open>Thread\<close>. A point in time is a number of microseconds.\<close>

type_synonym datetime = int

record thread =
  th_thread_id :: string
  th_created_at :: datetime
  th_updated_at :: datetime
  th_metadata :: "pydict option"
  th_status :: string
  th_values :: "pydict option"
  th_interrupts :: pydict

record thread_create =
  tc_thread_id :: "string option"
  tc_metadata :: "pydict option"
  tc_if_exists :: "string option"

definition thread_create_ok :: "thread_create \<Rightarrow> bool" where
  "thread_create_ok r \<longleftrightarrow>
     optional required_identifier (tc_thread_id r) \<and>
     optional (\<lambda>s. s \<in> {''raise'', ''do_nothing''}) (tc_if_exists r)"

record assistant_model =
  am_assistant_id :: string
  am_graph_id :: string
  am_config :: config_model
  am_created_at :: datetime
  am_updated_at :: datetime
  am_metadata :: "pydict option"
  am_version :: int
  am_name :: string
  am_description :: "string option"

record assistant_search =
  as_graph_id :: "string option"
  as_metadata :: "pydict option"
  as_limit :: int
  as_offset :: int

definition assistant_search_ok :: "assistant_search \<Rightarrow> bool" where
  "assistant_search_ok r \<longleftrightarrow>
     optional required_identifier (as_graph_id r) \<and> 1 \<le> as_limit r \<and> as_limit r \<le> 1000 \<and> 0 \<le> as_offset r"

text \<open>\<open>RunCreate\<close>, with the options this server refuses.\<close>

record run_create =
  rc_assistant_id :: string
  rc_input :: "pydict option"
  rc_metadata :: "pydict option"
  rc_config :: "config_model option"
  rc_checkpoint_id :: "string option"
  rc_interrupt_before :: "string list option"
  rc_interrupt_after :: "string list option"
  rc_webhook :: "string option"
  rc_multitask_strategy :: "string option"
  rc_stream_mode :: "string list option"
  rc_stream_subgraphs :: bool
  rc_stream_resumable :: bool
  rc_on_disconnect :: "string option"
  rc_on_completion :: "string option"
  rc_after_seconds :: "int option"
  rc_if_not_exists :: "string option"
  rc_command :: "pydict option"
  rc_context :: "pydict option"
  rc_checkpoint :: "checkpoint_ref option"
  rc_checkpoint_during :: "bool option"
  rc_feedback_keys :: "string list option"
  rc_durability :: "string option"
  rc_langsmith_tracer :: "pydict option"

definition present :: "'a option \<Rightarrow> bool" where
  "present x \<longleftrightarrow> x \<noteq> None"

text \<open>The dictionary \<open>unsupported\<close>: for each option whether it has a value.\<close>

definition unsupported_options :: "run_create \<Rightarrow> (string \<times> bool) list" where
  "unsupported_options r =
     [(''interrupt_before'', present (rc_interrupt_before r)),
      (''interrupt_after'', present (rc_interrupt_after r)),
      (''webhook'', present (rc_webhook r)),
      (''command'', present (rc_command r)),
      (''context'', present (rc_context r)),
      (''checkpoint'', present (rc_checkpoint r)),
      (''checkpoint_during'', present (rc_checkpoint_during r)),
      (''feedback_keys'', present (rc_feedback_keys r)),
      (''durability'', present (rc_durability r)),
      (''langsmith_tracer'', present (rc_langsmith_tracer r)),
      (''after_seconds'', present (rc_after_seconds r))]"

definition requested_unsupported :: "run_create \<Rightarrow> string list" where
  "requested_unsupported r =
     map fst (filter snd (unsupported_options r)) @
     (if rc_stream_subgraphs r then [''stream_subgraphs''] else []) @
     (if rc_stream_resumable r then [''stream_resumable''] else []) @
     (if rc_on_disconnect r = Some ''continue'' then [''on_disconnect=continue''] else []) @
     (if rc_on_completion r = Some ''keep'' then [''on_completion=keep''] else []) @
     (case rc_multitask_strategy r of
        None \<Rightarrow> []
      | Some m \<Rightarrow> if m = ''reject'' then [] else [''multitask_strategy='' @ m])"

text \<open>Strings compare by code point.\<close>

fun str_le :: "string \<Rightarrow> string \<Rightarrow> bool" where
  "str_le [] _ = True"
| "str_le (_ # _) [] = False"
| "str_le (c # cs) (d # ds) =
     ((of_char c :: nat) < of_char d \<or> (c = d \<and> str_le cs ds))"

fun str_insert :: "string \<Rightarrow> string list \<Rightarrow> string list" where
  "str_insert x [] = [x]"
| "str_insert x (y # ys) = (if str_le x y then x # y # ys else y # str_insert x ys)"

definition sorted_strings :: "string list \<Rightarrow> string list" where
  "sorted_strings xs = foldr str_insert xs []"

definition reject_unsupported_options :: "run_create \<Rightarrow> exc + unit" where
  "reject_unsupported_options r =
     (let requested = requested_unsupported r in
      if requested \<noteq> []
      then Inl (ValueError (''unsupported run options: '' @ join_strings '', '' (sorted_strings requested)))
      else Inr ())"

definition run_create_ok :: "run_create \<Rightarrow> bool" where
  "run_create_ok r \<longleftrightarrow>
     required_identifier (rc_assistant_id r) \<and>
     optional config_model_ok (rc_config r) \<and>
     optional required_identifier (rc_checkpoint_id r) \<and>
     optional (\<lambda>s. s \<in> {''reject'', ''interrupt'', ''rollback'', ''enqueue''}) (rc_multitask_strategy r) \<and>
     optional (\<lambda>ms. length ms \<le> 6 \<and> list_all (\<lambda>m. m \<in> set stream_modes) ms) (rc_stream_mode r) \<and>
     optional (\<lambda>s. s \<in> {''cancel'', ''continue''}) (rc_on_disconnect r) \<and>
     optional (\<lambda>s. s \<in> {''delete'', ''keep''}) (rc_on_completion r) \<and>
     optional (\<lambda>n. 0 \<le> n) (rc_after_seconds r) \<and>
     optional (\<lambda>s. s \<in> {''create'', ''reject''}) (rc_if_not_exists r) \<and>
     optional checkpoint_ref_ok (rc_checkpoint r) \<and>
     optional (\<lambda>s. s \<in> {''sync'', ''async'', ''exit''}) (rc_durability r) \<and>
     reject_unsupported_options r = Inr ()"

text \<open>\<open>StateUpdate\<close>, \<open>HistoryRequest\<close>, \<open>GraphSchema\<close>.\<close>

record state_update =
  su_values :: pyval
  su_checkpoint_id :: "string option"
  su_checkpoint :: "checkpoint_ref option"
  su_as_node :: "string option"

definition validate_checkpoint_target :: "state_update \<Rightarrow> exc + unit" where
  "validate_checkpoint_target u =
     (case (su_checkpoint_id u, su_checkpoint u) of
        (Some i, Some c) \<Rightarrow>
          raise_sum_if (ref_checkpoint_id c \<noteq> Some i)
            (ValueError ''checkpoint and checkpoint_id must identify the same state'')
      | _ \<Rightarrow> Inr ())"

definition state_update_ok :: "state_update \<Rightarrow> bool" where
  "state_update_ok u \<longleftrightarrow>
     optional required_identifier (su_checkpoint_id u) \<and> optional checkpoint_ref_ok (su_checkpoint u) \<and>
     validate_checkpoint_target u = Inr ()"

datatype before_marker = BeforeId string | BeforeCheckpoint checkpoint_ref

record history_request =
  hr_limit :: int
  hr_before :: "before_marker option"
  hr_metadata :: "pydict option"
  hr_checkpoint :: "checkpoint_ref option"

definition history_request_ok :: "history_request \<Rightarrow> bool" where
  "history_request_ok r \<longleftrightarrow>
     1 \<le> hr_limit r \<and> hr_limit r \<le> 1000 \<and>
     optional (\<lambda>b. case b of BeforeId i \<Rightarrow> required_identifier i | BeforeCheckpoint c \<Rightarrow> checkpoint_ref_ok c)
       (hr_before r) \<and>
     optional checkpoint_ref_ok (hr_checkpoint r)"

record graph_schema =
  gs_graph_id :: string
  gs_input_schema :: "pydict option"
  gs_output_schema :: "pydict option"
  gs_state_schema :: "pydict option"
  gs_config_schema :: "pydict option"



section \<open>Properties\<close>

lemma required_identifier_valid: "required_identifier s \<longleftrightarrow> valid_identifier 256 False s"
  by (auto simp: required_identifier_def valid_identifier_def printable_check_def Suc_le_eq)

lemma namespace_identifier_valid: "namespace_identifier s \<longleftrightarrow> valid_identifier 256 True s"
  by (auto simp: namespace_identifier_def valid_identifier_def printable_check_def)

lemma validate_reserved_Inr:
  "validate_reserved d fs = Inr () \<longleftrightarrow>
     (\<forall>(name, allow_empty) \<in> set fs. case py_get d name of
        PNone \<Rightarrow> True | PStr s \<Rightarrow> valid_identifier 256 allow_empty s | _ \<Rightarrow> False)"
  by (induction d fs rule: validate_reserved.induct)
    (auto simp: valid_identifier_def printable_check_def bind_sum_def split: pyval.splits sum.splits if_splits)

lemma mset_str_insert: "mset (str_insert x xs) = add_mset x (mset xs)"
  by (induction xs) auto

lemma mset_sorted_strings: "mset (sorted_strings xs) = mset xs"
  unfolding sorted_strings_def by (induction xs) (auto simp: mset_str_insert)

lemma str_le_total: "str_le a b \<or> str_le b a"
proof (induction a b rule: str_le.induct)
  case (3 c cs d ds)
  have "(of_char c :: nat) = of_char d \<Longrightarrow> c = d" by (metis char_of_char)
  then show ?case using 3 by (auto simp: not_less)
qed simp_all

lemma str_le_trans: "str_le a b \<Longrightarrow> str_le b c \<Longrightarrow> str_le a c"
proof (induction a b arbitrary: c rule: str_le.induct)
  case (3 x xs y ys)
  then show ?case by (cases c) auto
qed auto

lemma sorted_str_insert: "sorted_wrt str_le xs \<Longrightarrow> sorted_wrt str_le (str_insert x xs)"
proof (induction xs)
  case (Cons y ys)
  have set: "set (str_insert x zs) = insert x (set zs)" for zs
    by (metis mset_str_insert set_mset_add_mset_insert set_mset_mset)
  show ?case using Cons str_le_total [of x y] by (auto simp: set intro: str_le_trans)
qed simp

lemma sorted_sorted_strings: "sorted_wrt str_le (sorted_strings xs)"
  unfolding sorted_strings_def by (induction xs) (auto simp: sorted_str_insert)

text \<open>
  C37: \<open>RunCreate\<close> accepts exactly the requests that ask for none of the options the server does
  not provide; otherwise the error names every option that was asked for, each once, in order.
\<close>

theorem run_options_exact:
  "(reject_unsupported_options r = Inr () \<longleftrightarrow>
      rc_interrupt_before r = None \<and> rc_interrupt_after r = None \<and> rc_webhook r = None \<and> rc_command r = None \<and>
      rc_context r = None \<and> rc_checkpoint r = None \<and> rc_checkpoint_during r = None \<and> rc_feedback_keys r = None \<and>
      rc_durability r = None \<and> rc_langsmith_tracer r = None \<and> rc_after_seconds r = None \<and>
      \<not> rc_stream_subgraphs r \<and> \<not> rc_stream_resumable r \<and> rc_on_disconnect r \<noteq> Some ''continue'' \<and>
      rc_on_completion r \<noteq> Some ''keep'' \<and> rc_multitask_strategy r \<in> {None, Some ''reject''}) \<and>
   (\<forall>e. reject_unsupported_options r = Inl e \<longrightarrow>
      (\<exists>names. e = ValueError (''unsupported run options: '' @ join_strings '', '' names) \<and> names \<noteq> [] \<and>
         sorted_wrt str_le names \<and> mset names = mset (requested_unsupported r)))"
proof (intro conjI allI impI)
  show "reject_unsupported_options r = Inr () \<longleftrightarrow>
      rc_interrupt_before r = None \<and> rc_interrupt_after r = None \<and> rc_webhook r = None \<and> rc_command r = None \<and>
      rc_context r = None \<and> rc_checkpoint r = None \<and> rc_checkpoint_during r = None \<and> rc_feedback_keys r = None \<and>
      rc_durability r = None \<and> rc_langsmith_tracer r = None \<and> rc_after_seconds r = None \<and>
      \<not> rc_stream_subgraphs r \<and> \<not> rc_stream_resumable r \<and> rc_on_disconnect r \<noteq> Some ''continue'' \<and>
      rc_on_completion r \<noteq> Some ''keep'' \<and> rc_multitask_strategy r \<in> {None, Some ''reject''}"
    by (auto simp: reject_unsupported_options_def requested_unsupported_def unsupported_options_def present_def Let_def
        split: option.splits if_splits)
  fix e assume "reject_unsupported_options r = Inl e"
  then have "requested_unsupported r \<noteq> []"
    and "e = ValueError (''unsupported run options: '' @ join_strings '', '' (sorted_strings (requested_unsupported r)))"
    by (auto simp: reject_unsupported_options_def Let_def split: if_splits)
  then show "\<exists>names. e = ValueError (''unsupported run options: '' @ join_strings '', '' names) \<and> names \<noteq> [] \<and>
      sorted_wrt str_le names \<and> mset names = mset (requested_unsupported r)"
    using mset_sorted_strings sorted_sorted_strings by (metis mset_zero_iff)
qed

text \<open>A request with two unsupported options.\<close>

definition plain_run :: run_create where
  "plain_run =
     \<lparr>rc_assistant_id = ''agent'', rc_input = None, rc_metadata = None, rc_config = None, rc_checkpoint_id = None,
      rc_interrupt_before = None, rc_interrupt_after = None, rc_webhook = None, rc_multitask_strategy = None,
      rc_stream_mode = None, rc_stream_subgraphs = False, rc_stream_resumable = False, rc_on_disconnect = None,
      rc_on_completion = None, rc_after_seconds = None, rc_if_not_exists = None, rc_command = None, rc_context = None,
      rc_checkpoint = None, rc_checkpoint_during = None, rc_feedback_keys = None, rc_durability = None,
      rc_langsmith_tracer = None\<rparr>"

theorem run_options_exact_witness:
  "run_create_ok plain_run \<and>
   reject_unsupported_options (plain_run\<lparr>rc_webhook := Some ''http'', rc_on_completion := Some ''keep''\<rparr>) =
     Inl (ValueError ''unsupported run options: on_completion=keep, webhook'') \<and>
   reject_unsupported_options (plain_run\<lparr>rc_webhook := Some ''http''\<rparr>) \<noteq> Inr ()"
proof (intro conjI)
  show "run_create_ok plain_run" by code_simp
  show "reject_unsupported_options (plain_run\<lparr>rc_webhook := Some ''http'', rc_on_completion := Some ''keep''\<rparr>) =
     Inl (ValueError ''unsupported run options: on_completion=keep, webhook'')" by code_simp
  show "reject_unsupported_options (plain_run\<lparr>rc_webhook := Some ''http''\<rparr>) \<noteq> Inr ()"
    using run_options_exact [of "plain_run\<lparr>rc_webhook := Some ''http''\<rparr>"] by simp
qed

end
