(* ===== verification/StateView.thy ===== *)
theory StateView
  imports SaverOps Models
begin

text \<open>
  \<open>state.py\<close>: lookup configurations, and the translation of stored checkpoints to the
  \<open>ThreadState\<close> of the HTTP protocol. The checkpoint saver behind it is any object with the
  three asynchronous methods the routes call (\<open>checkpointer_ops\<close>); \<open>str\<close> on values that are not
  strings, fresh UUIDs and the current time are arguments.
\<close>


section \<open>Lookups\<close>

definition assistant_id_metadata_key :: string where
  "assistant_id_metadata_key = ''fastapi_langgraph_server_assistant_id''"

text \<open>\<open>state.checkpoint_config\<close>.\<close>

definition lookup_config :: "string \<Rightarrow> string option \<Rightarrow> string \<Rightarrow> pydict" where
  "lookup_config t checkpoint_id checkpoint_ns =
     (let d = [(PStr ''thread_id'', PStr t), (PStr ''checkpoint_ns'', PStr checkpoint_ns)];
          d = (case checkpoint_id of None \<Rightarrow> d | Some c \<Rightarrow> sset d ''checkpoint_id'' (PStr c))
      in [(PStr ''configurable'', PDict d)])"

record 'sv checkpointer_ops =
  cp_aget_tuple :: "pydict \<Rightarrow> ('sv, exc, checkpoint_tuple option) op"
  cp_alist :: "pydict option \<Rightarrow> pydict option \<Rightarrow> pydict option \<Rightarrow> int option \<Rightarrow> ('sv, exc, checkpoint_tuple list) op"
  cp_adelete_thread :: "string \<Rightarrow> ('sv, exc, unit) op"


section \<open>Thread states\<close>

text \<open>The constructors of the pydantic models check the constraints of their fields.\<close>

definition make_checkpoint_ref ::
  "string \<Rightarrow> string \<Rightarrow> string option \<Rightarrow> pydict option \<Rightarrow> exc + checkpoint_ref" where
  "make_checkpoint_ref t ns c cmap =
     (let r = \<lparr>ref_thread_id = t, ref_checkpoint_ns = ns, ref_checkpoint_id = c, ref_checkpoint_map = cmap\<rparr>
      in if checkpoint_ref_ok r \<and> optional str_keyed cmap then Inr r else Inl (ValueError ''validation error for Checkpoint''))"

definition is_str_dict :: "pyval \<Rightarrow> bool" where
  "is_str_dict v = (case v of PDict d \<Rightarrow> str_keyed d | _ \<Rightarrow> False)"

definition make_thread_state :: "thread_state \<Rightarrow> exc + thread_state" where
  "make_thread_state st =
     (if (is_str_dict (state_values st) \<or>
          (case state_values st of PList vs \<Rightarrow> list_all is_str_dict vs | _ \<Rightarrow> False)) \<and>
         optional str_keyed (state_metadata st)
      then Inr st else Inl (ValueError ''validation error for ThreadState''))"

text \<open>\<open>config.get("configurable", {})\<close> as the code goes on to use it: its \<open>get\<close> is called next.\<close>

definition configurable_of :: "pydict \<Rightarrow> exc + pydict" where
  "configurable_of config =
     (case py_get_or config ''configurable'' (PDict []) of
        PDict d \<Rightarrow> Inr d
      | _ \<Rightarrow> Inl (OtherError ''AttributeError''))"

definition str_or :: "pyval \<Rightarrow> string \<Rightarrow> string" where
  "str_or v dflt = (case v of PStr s \<Rightarrow> s | _ \<Rightarrow> dflt)"

definition visible_metadata :: "pydict option \<Rightarrow> pydict" where
  "visible_metadata md = dict_pop (case md of None \<Rightarrow> [] | Some d \<Rightarrow> d) (PStr assistant_id_metadata_key)"

definition parent_of :: "string \<Rightarrow> pydict option \<Rightarrow> exc + string option \<times> string" where
  "parent_of checkpoint_ns parent_config =
     (case parent_config of
        None \<Rightarrow> Inr (None, checkpoint_ns)
      | Some pc \<Rightarrow>
          bind_sum (configurable_of pc) (\<lambda>d.
            Inr (case py_get d ''checkpoint_id'' of PStr p \<Rightarrow> Some p | _ \<Rightarrow> None,
                 str_or (py_get d ''checkpoint_ns'') checkpoint_ns)))"

definition checkpoint_tuple_to_state ::
  "(pyval \<Rightarrow> string) \<Rightarrow> string \<Rightarrow> string \<Rightarrow> string \<Rightarrow> checkpoint_tuple \<Rightarrow> exc + thread_state" where
  "checkpoint_tuple_to_state py_str fresh_uuid now_iso t item =
     (let checkpoint = tuple_checkpoint item in
      bind_sum (configurable_of (tuple_config item)) (\<lambda>d.
      let checkpoint_ns = str_or (py_get_or d ''checkpoint_ns'' (PStr [])) [] in
      bind_sum (parent_of checkpoint_ns (tuple_parent_config item)) (\<lambda>(parent_id, parent_ns).
      bind_sum (make_checkpoint_ref t checkpoint_ns (Some (str_or (py_get checkpoint ''id'') fresh_uuid)) None) (\<lambda>cref.
      bind_sum (case parent_id of
                  None \<Rightarrow> Inr None
                | Some p \<Rightarrow> bind_sum (make_checkpoint_ref t parent_ns (Some p) None) (\<lambda>r. Inr (Some r))) (\<lambda>parent.
        make_thread_state
          \<lparr>state_values = py_get_or checkpoint ''channel_values'' (PDict []), state_next = [],
           state_checkpoint = cref, state_metadata = Some (visible_metadata (tuple_metadata item)),
           state_created_at = Some (case sget checkpoint ''ts'' of
                                      None \<Rightarrow> now_iso | Some (PStr s) \<Rightarrow> s | Some v \<Rightarrow> py_str v),
           state_parent_checkpoint = parent, state_tasks = [], state_interrupts = []\<rparr>)))))"

definition checkpoint_assistant_id :: "checkpoint_tuple \<Rightarrow> string option" where
  "checkpoint_assistant_id item =
     (case py_get (case tuple_metadata item of None \<Rightarrow> [] | Some d \<Rightarrow> d) assistant_id_metadata_key of
        PStr s \<Rightarrow> if s \<noteq> [] then Some s else None
      | _ \<Rightarrow> None)"

definition empty_thread_state :: "string \<Rightarrow> string \<Rightarrow> string \<Rightarrow> exc + thread_state" where
  "empty_thread_state fresh_uuid now_iso t =
     bind_sum (make_checkpoint_ref t [] (Some fresh_uuid) None) (\<lambda>cref.
       make_thread_state
         \<lparr>state_values = PDict [], state_next = [], state_checkpoint = cref, state_metadata = Some [],
          state_created_at = Some now_iso, state_parent_checkpoint = None, state_tasks = [], state_interrupts = []\<rparr>)"

definition checkpoint_not_found :: "string \<Rightarrow> string \<Rightarrow> string" where
  "checkpoint_not_found c t = ''Checkpoint '' @ c @ '' was not found for thread '' @ t"

definition get_thread_state ::
  "(pyval \<Rightarrow> string) \<Rightarrow> string \<Rightarrow> string \<Rightarrow> string \<Rightarrow> 'sv checkpointer_ops \<Rightarrow> string option \<Rightarrow> string \<Rightarrow>
     ('sv, exc, thread_state) op" where
  "get_thread_state py_str fresh_uuid now_iso t C checkpoint_id checkpoint_ns =
     bind_op (cp_aget_tuple C (lookup_config t checkpoint_id checkpoint_ns)) (\<lambda>item.
       case item of
         Some x \<Rightarrow> pure_op (checkpoint_tuple_to_state py_str fresh_uuid now_iso t x)
       | None \<Rightarrow>
           (case checkpoint_id of
              Some c \<Rightarrow> raise (LookupError (checkpoint_not_found c t))
            | None \<Rightarrow> pure_op (empty_thread_state fresh_uuid now_iso t)))"


section \<open>Properties\<close>

lemma lookup_config_location: "config_location (lookup_config t c ns) = Some (t, ns)"
  by (cases c) (simp_all add: config_location_def lookup_config_def py_get_def py_get_or_def dict_get_or_def Let_def)

lemma bind_sum_InlD: "bind_sum r k = Inl e \<Longrightarrow> r = Inl e \<or> (\<exists>x. r = Inr x \<and> k x = Inl e)"
  by (cases r) auto

text \<open>
  C36: What a client sees of a stored checkpoint: its values, its own id and namespace under the
  thread it asked for, its time stamp, and its metadata without the marker of the owning
  assistant; every other metadata entry is there.
\<close>

theorem state_hides_ownership:
  assumes "checkpoint_tuple_to_state py_str fresh_uuid now_iso t item = Inr st"
  shows "state_values st = py_get_or (tuple_checkpoint item) ''channel_values'' (PDict []) \<and>
    ref_thread_id (state_checkpoint st) = t \<and>
    ref_checkpoint_id (state_checkpoint st) = Some (str_or (py_get (tuple_checkpoint item) ''id'') fresh_uuid) \<and>
    checkpoint_ref_ok (state_checkpoint st) \<and>
    (\<exists>d. state_metadata st = Some d \<and> sget d assistant_id_metadata_key = None \<and>
       (\<forall>k. k \<noteq> PStr assistant_id_metadata_key \<longrightarrow>
          dict_get d k = (case tuple_metadata item of None \<Rightarrow> None | Some md \<Rightarrow> dict_get md k))) \<and>
    (\<forall>p. state_parent_checkpoint st = Some p \<longrightarrow> ref_thread_id p = t \<and> checkpoint_ref_ok p)"
proof -
  let ?md = "visible_metadata (tuple_metadata item)"
  obtain d where d: "configurable_of (tuple_config item) = Inr d"
    using assms by (auto simp: checkpoint_tuple_to_state_def bind_sum_eq_Inr Let_def)
  let ?ns = "str_or (py_get_or d ''checkpoint_ns'' (PStr [])) []"
  let ?id = "str_or (py_get (tuple_checkpoint item) ''id'') fresh_uuid"
  obtain parent_id parent_ns where p: "parent_of ?ns (tuple_parent_config item) = Inr (parent_id, parent_ns)"
    using assms d by (auto simp: checkpoint_tuple_to_state_def bind_sum_eq_Inr Let_def)
  obtain cref where cref: "make_checkpoint_ref t ?ns (Some ?id) None = Inr cref"
    using assms d p by (auto simp: checkpoint_tuple_to_state_def bind_sum_eq_Inr Let_def)
  obtain parent where parent: "(case parent_id of
      None \<Rightarrow> Inr None
    | Some p \<Rightarrow> bind_sum (make_checkpoint_ref t parent_ns (Some p) None) (\<lambda>r. Inr (Some r))) = Inr parent"
    using assms d p cref by (auto simp: checkpoint_tuple_to_state_def bind_sum_eq_Inr Let_def)
  have st: "state_values st = py_get_or (tuple_checkpoint item) ''channel_values'' (PDict [])"
    "state_checkpoint st = cref" "state_metadata st = Some ?md" "state_parent_checkpoint st = parent"
    using assms d p cref parent
    by (auto simp: checkpoint_tuple_to_state_def Let_def make_thread_state_def split: if_splits)
  have c: "ref_thread_id cref = t \<and> ref_checkpoint_id cref = Some ?id \<and> checkpoint_ref_ok cref"
    using cref by (auto simp: make_checkpoint_ref_def Let_def split: if_splits)
  have q: "ref_thread_id x = t \<and> checkpoint_ref_ok x" if "parent = Some x" for x
    using parent that by (auto simp: make_checkpoint_ref_def bind_sum_eq_Inr Let_def split: option.splits if_splits)
  have m: "dict_get ?md k = (if k = PStr assistant_id_metadata_key then None
      else case tuple_metadata item of None \<Rightarrow> None | Some md \<Rightarrow> dict_get md k)" for k
    by (simp add: visible_metadata_def dict_get_pop split: option.split)
  show ?thesis unfolding st using c q m by simp
qed

definition demo_tuple :: checkpoint_tuple where
  "demo_tuple =
     \<lparr>tuple_config = lookup_config ''t'' (Some ''c1'') [],
      tuple_checkpoint = [(PStr ''id'', PStr ''c1''), (PStr ''ts'', PStr ''now''),
        (PStr ''channel_values'', PDict [(PStr ''x'', PInt 7)])],
      tuple_metadata = Some [(PStr assistant_id_metadata_key, PStr ''agent''), (PStr ''step'', PInt 1)],
      tuple_parent_config = Some (lookup_config ''t'' (Some ''c0'') [])\<rparr>"

theorem state_hides_ownership_witness:
  "\<exists>st. checkpoint_tuple_to_state (\<lambda>_. []) ''u'' ''now'' ''t'' demo_tuple = Inr st \<and>
     state_values st = PDict [(PStr ''x'', PInt 7)] \<and> state_metadata st = Some [(PStr ''step'', PInt 1)] \<and>
     (\<forall>p. state_parent_checkpoint st = Some p \<longrightarrow> ref_thread_id p = ''t'') \<and> checkpoint_assistant_id demo_tuple = Some ''agent''"
proof -
  have "\<not> isl (checkpoint_tuple_to_state (\<lambda>_. []) ''u'' ''now'' ''t'' demo_tuple)"
    and m: "state_metadata (projr (checkpoint_tuple_to_state (\<lambda>_. []) ''u'' ''now'' ''t'' demo_tuple)) = Some [(PStr ''step'', PInt 1)]"
    and a: "checkpoint_assistant_id demo_tuple = Some ''agent''" by code_simp+
  then obtain st where st: "checkpoint_tuple_to_state (\<lambda>_. []) ''u'' ''now'' ''t'' demo_tuple = Inr st"
    by (cases "checkpoint_tuple_to_state (\<lambda>_. []) ''u'' ''now'' ''t'' demo_tuple") auto
  have "py_get_or (tuple_checkpoint demo_tuple) ''channel_values'' (PDict []) = PDict [(PStr ''x'', PInt 7)]" by code_simp
  then show ?thesis using state_hides_ownership [OF st] st m a by simp
qed

text \<open>
  \<open>get_thread_state\<close> answers from the saver: the translated checkpoint when there is one;
  \<open>LookupError\<close>, with the id, for a checkpoint that was asked for by id and is not there; the
  empty initial state otherwise; and the state of the saver changes only as its lookup does.
\<close>

lemma get_thread_state_branches:
  assumes "cp_aget_tuple C (lookup_config t checkpoint_id checkpoint_ns) s = (found, s')"
  shows "get_thread_state py_str fresh_uuid now_iso t C checkpoint_id checkpoint_ns s =
    ((case found of
        Inl e \<Rightarrow> Inl e
      | Inr (Some x) \<Rightarrow> checkpoint_tuple_to_state py_str fresh_uuid now_iso t x
      | Inr None \<Rightarrow> (case checkpoint_id of
            Some c \<Rightarrow> Inl (LookupError (checkpoint_not_found c t))
          | None \<Rightarrow> empty_thread_state fresh_uuid now_iso t)), s')"
  using assms by (auto simp: get_thread_state_def bind_op_def raise_def pure_op_def split: sum.split option.split)

end
