(* ===== verification/Execution.thy ===== *)
theory Execution
  imports StateView
begin

text \<open>
  \<open>execution.py\<close>: the input of a run, its LangGraph configuration, and the invocation of the
  graph. A graph is an object supplied by the application: its methods are a parameter
  (\<open>graph_ops\<close>), present or not, that work on a state of any type. So are pydantic's
  \<open>model_dump\<close> of a run configuration and the payload transformers.
\<close>


section \<open>Graphs and assistants\<close>

text \<open>
  \<open>aupdate_state\<close> has the values and the node as arguments; \<open>astream\<close> yields items, each with the
  state in which it leaves the consumer, and ends in a state, normally or with an exception.
\<close>

record 'w graph_ops =
  g_ainvoke :: "(pydict \<Rightarrow> pydict \<Rightarrow> ('w, exc, pyval) op) option"
  g_astream :: "(pydict \<Rightarrow> pydict \<Rightarrow> string list \<Rightarrow> 'w \<Rightarrow> (pyval \<times> 'w) list \<times> exc option \<times> 'w) option"
  g_aupdate_state :: "(pydict \<Rightarrow> pyval \<Rightarrow> string option \<Rightarrow> ('w, exc, pydict) op) option"
  g_topology :: "(pydict option) option"
  g_input_schema :: "pyval option"
  g_output_schema :: "pyval option"

text \<open>\<open>AssistantConfig\<close>; a factory returns the graph built for it.\<close>

record 'w assistant_config =
  ac_assistant_id :: string
  ac_graph_id :: string
  ac_name :: string
  ac_factory :: "bool \<Rightarrow> exc + 'w graph_ops"
  ac_description :: string
  ac_metadata :: pydict
  ac_created_at :: datetime
  ac_input_transformer :: "(pydict \<Rightarrow> exc + pydict) option"
  ac_output_transformer :: "(pydict \<Rightarrow> exc + pydict) option"
  ac_default_stream_mode :: "string list option"
  ac_input_schema :: "pydict option"
  ac_output_schema :: "pydict option"
  ac_state_schema :: "pydict option"
  ac_config_schema :: "pydict option"
  ac_graph :: "pydict option"


section \<open>Run inputs and configurations\<close>

definition prepare_input :: "'w assistant_config \<Rightarrow> pydict \<Rightarrow> exc + pydict" where
  "prepare_input assistant input_data =
     (case ac_input_transformer assistant of
        None \<Rightarrow> Inr input_data
      | Some f \<Rightarrow> f input_data)"

definition build_runnable_config ::
  "(config_model \<Rightarrow> pydict) \<Rightarrow> string \<Rightarrow> string \<Rightarrow> config_model option \<Rightarrow> string option \<Rightarrow> exc + pydict" where
  "build_runnable_config dump t assistant_id request_config checkpoint_id =
     (let raw_config = (case request_config of None \<Rightarrow> [] | Some c \<Rightarrow> dump c) in
      case py_get_or raw_config ''configurable'' (PDict []) of
        PDict d \<Rightarrow>
          (let raw_config = dict_pop raw_config (PStr ''configurable'');
               d = sset d ''thread_id'' (PStr t);
               d = dict_setdefault d (PStr ''checkpoint_ns'') (PStr []);
               d = (case checkpoint_id of None \<Rightarrow> d | Some c \<Rightarrow> sset d ''checkpoint_id'' (PStr c));
               raw_config = sset raw_config ''configurable'' (PDict d)
           in Inr (sset raw_config ''metadata'' (PDict [(PStr assistant_id_metadata_key, PStr assistant_id)])))
      | _ \<Rightarrow> Inl (TypeError ''not a mapping''))"

text \<open>\<open>{str(key): item ...}\<close>: later items win when two keys have the same string.\<close>

definition as_payload :: "(pyval \<Rightarrow> string) \<Rightarrow> pyval \<Rightarrow> exc + pydict" where
  "as_payload py_str v =
     (case v of
        PDict d \<Rightarrow> Inr (fold (\<lambda>(k, x) acc. sset acc (case k of PStr s \<Rightarrow> s | _ \<Rightarrow> py_str k) x) d [])
      | _ \<Rightarrow> Inl (TypeError ''graph invocation must return a mapping''))"

definition invoke_graph ::
  "(pyval \<Rightarrow> string) \<Rightarrow> 'w graph_ops \<Rightarrow> pydict \<Rightarrow> pydict \<Rightarrow> ('w, exc, pydict) op" where
  "invoke_graph py_str graph payload runnable_config =
     (case g_ainvoke graph of
        Some async_invoke \<Rightarrow>
          bind_op (async_invoke payload runnable_config) (\<lambda>resolved. pure_op (as_payload py_str resolved))
      | None \<Rightarrow> raise (TypeError ''checkpointed_graph_factory must return an async graph''))"


section \<open>Properties\<close>

text \<open>
  What is relied on of \<open>model_dump(exclude_none=True)\<close>: the field \<open>configurable\<close> comes out, where
  it has a value, as a dictionary whose entries are those of the field; entries that are
  \<open>None\<close> may be left out.
\<close>

definition dump_laws :: "(config_model \<Rightarrow> pydict) \<Rightarrow> bool" where
  "dump_laws dump \<longleftrightarrow>
     (\<forall>c. case cm_configurable c of
            None \<Rightarrow> sget (dump c) ''configurable'' = None
          | Some d \<Rightarrow> (\<exists>d'. sget (dump c) ''configurable'' = Some (PDict d') \<and>
              (\<forall>k. dict_get d' k = dict_get d k \<or> (dict_get d' k = None \<and> dict_get d k = Some PNone))))"

definition client_configurable :: "config_model option \<Rightarrow> pydict" where
  "client_configurable rc = (case rc of None \<Rightarrow> [] | Some c \<Rightarrow> (case cm_configurable c of None \<Rightarrow> [] | Some d \<Rightarrow> d))"

lemma build_config_cases:
  assumes "dump_laws dump"
  obtains rc d where "build_runnable_config dump t a request_config checkpoint_id = Inr rc"
    and "sget rc ''configurable'' = Some (PDict d)"
    and "sget rc ''metadata'' = Some (PDict [(PStr assistant_id_metadata_key, PStr a)])"
    and "sget d ''thread_id'' = Some (PStr t)"
    and "\<And>c. checkpoint_id = Some c \<Longrightarrow> sget d ''checkpoint_id'' = Some (PStr c)"
    and "sget d ''checkpoint_ns'' = Some (PStr []) \<or> sget d ''checkpoint_ns'' = sget (client_configurable request_config) ''checkpoint_ns''"
    and "\<And>k. k \<noteq> PStr ''thread_id'' \<Longrightarrow> k \<noteq> PStr ''checkpoint_ns'' \<Longrightarrow> (k = PStr ''checkpoint_id'' \<longrightarrow> checkpoint_id = None) \<Longrightarrow>
      dict_get d k = dict_get (client_configurable request_config) k \<or>
      (dict_get d k = None \<and> dict_get (client_configurable request_config) k = Some PNone)"
proof -
  let ?raw = "case request_config of None \<Rightarrow> [] | Some c \<Rightarrow> dump c"
  have "\<exists>d0. py_get_or ?raw ''configurable'' (PDict []) = PDict d0 \<and>
      (\<forall>k. dict_get d0 k = dict_get (client_configurable request_config) k \<or>
        (dict_get d0 k = None \<and> dict_get (client_configurable request_config) k = Some PNone))"
  proof (cases request_config)
    case None
    then show ?thesis by (simp add: py_get_or_def dict_get_or_def client_configurable_def)
  next
    case (Some c)
    then show ?thesis using assms [unfolded dump_laws_def, rule_format, of c]
      by (cases "cm_configurable c") (auto simp: py_get_or_def dict_get_or_def client_configurable_def)
  qed
  then obtain d0 where d0: "py_get_or ?raw ''configurable'' (PDict []) = PDict d0"
    and same: "\<And>k. dict_get d0 k = dict_get (client_configurable request_config) k \<or>
        (dict_get d0 k = None \<and> dict_get (client_configurable request_config) k = Some PNone)" by blast
  let ?d1 = "dict_setdefault (sset d0 ''thread_id'' (PStr t)) (PStr ''checkpoint_ns'') (PStr [])"
  let ?d = "case checkpoint_id of None \<Rightarrow> ?d1 | Some c \<Rightarrow> sset ?d1 ''checkpoint_id'' (PStr c)"
  let ?rc = "sset (sset (dict_pop ?raw (PStr ''configurable'')) ''configurable'' (PDict ?d)) ''metadata''
      (PDict [(PStr assistant_id_metadata_key, PStr a)])"
  show ?thesis
  proof (rule that [of ?rc ?d])
    show "build_runnable_config dump t a request_config checkpoint_id = Inr ?rc"
      by (simp add: build_runnable_config_def d0 Let_def)
    show "sget ?d ''checkpoint_ns'' = Some (PStr []) \<or>
        sget ?d ''checkpoint_ns'' = sget (client_configurable request_config) ''checkpoint_ns''"
      using same [of "PStr ''checkpoint_ns''"]
      by (auto simp: dict_get_set dict_get_setdefault dict_get_or_def split: option.splits)
  qed (use same in \<open>auto simp: dict_get_set dict_get_setdefault split: option.split\<close>)
qed

text \<open>
  C11: The server decides where a run goes and whose it is: whatever configuration the client
  sends, the run's \<open>thread_id\<close> is that of the route, its checkpoint id that of the request where
  one is given, and its metadata is the marker of the assistant alone; every other entry of the
  client's \<open>configurable\<close> is passed on, but for entries that are \<open>None\<close>.
\<close>

theorem run_config_authoritative:
  assumes "dump_laws dump"
  shows "\<exists>rc d. build_runnable_config dump t a request_config checkpoint_id = Inr rc \<and>
    sget rc ''configurable'' = Some (PDict d) \<and> sget d ''thread_id'' = Some (PStr t) \<and>
    sget rc ''metadata'' = Some (PDict [(PStr assistant_id_metadata_key, PStr a)]) \<and>
    (\<forall>c. checkpoint_id = Some c \<longrightarrow> sget d ''checkpoint_id'' = Some (PStr c)) \<and>
    (\<forall>k. k \<notin> {PStr ''thread_id'', PStr ''checkpoint_ns'', PStr ''checkpoint_id''} \<longrightarrow>
       dict_get d k = dict_get (client_configurable request_config) k \<or>
       (dict_get d k = None \<and> dict_get (client_configurable request_config) k = Some PNone))"
proof (rule build_config_cases [OF assms, of t a request_config checkpoint_id])
  fix rc d
  assume "build_runnable_config dump t a request_config checkpoint_id = Inr rc"
    "sget rc ''configurable'' = Some (PDict d)"
    "sget rc ''metadata'' = Some (PDict [(PStr assistant_id_metadata_key, PStr a)])"
    "sget d ''thread_id'' = Some (PStr t)"
    "\<And>c. checkpoint_id = Some c \<Longrightarrow> sget d ''checkpoint_id'' = Some (PStr c)"
    "\<And>k. k \<noteq> PStr ''thread_id'' \<Longrightarrow> k \<noteq> PStr ''checkpoint_ns'' \<Longrightarrow> (k = PStr ''checkpoint_id'' \<longrightarrow> checkpoint_id = None) \<Longrightarrow>
      dict_get d k = dict_get (client_configurable request_config) k \<or>
      (dict_get d k = None \<and> dict_get (client_configurable request_config) k = Some PNone)"
  then show ?thesis by (intro exI [of _ rc] exI [of _ d]) auto
qed

definition demo_dump :: "config_model \<Rightarrow> pydict" where
  "demo_dump c = (case cm_configurable c of None \<Rightarrow> [] | Some d \<Rightarrow> [(PStr ''configurable'', PDict d)])"

lemma demo_dump_laws: "dump_laws demo_dump"
  by (auto simp: dump_laws_def demo_dump_def split: option.split)

definition spoofed_config :: config_model where
  "spoofed_config =
     \<lparr>cm_tags = None, cm_recursion_limit = None,
      cm_configurable = Some [(PStr ''thread_id'', PStr ''victim''), (PStr ''user'', PStr ''u1'')]\<rparr>"

theorem run_config_authoritative_witness:
  "\<exists>rc d. build_runnable_config demo_dump ''mine'' ''agent'' (Some spoofed_config) None = Inr rc \<and>
     sget rc ''configurable'' = Some (PDict d) \<and> sget d ''thread_id'' = Some (PStr ''mine'') \<and>
     sget d ''user'' = Some (PStr ''u1'')"
proof -
  obtain rc d where r: "build_runnable_config demo_dump ''mine'' ''agent'' (Some spoofed_config) None = Inr rc"
      "sget rc ''configurable'' = Some (PDict d)" "sget d ''thread_id'' = Some (PStr ''mine'')"
    and k: "\<forall>k. k \<notin> {PStr ''thread_id'', PStr ''checkpoint_ns'', PStr ''checkpoint_id''} \<longrightarrow>
       dict_get d k = dict_get (client_configurable (Some spoofed_config)) k \<or>
       (dict_get d k = None \<and> dict_get (client_configurable (Some spoofed_config)) k = Some PNone)"
    using run_config_authoritative [OF demo_dump_laws, of "''mine''" "''agent''" "Some spoofed_config" None] by blast
  have "sget (client_configurable (Some spoofed_config)) ''user'' = Some (PStr ''u1'')"
    by (simp add: client_configurable_def spoofed_config_def)
  then have "sget d ''user'' = Some (PStr ''u1'')" using k [rule_format, of "PStr ''user''"] by simp
  then show ?thesis using r by blast
qed

lemma client_reserved:
  assumes "optional config_model_ok rc" "(name, allow_empty) \<in> set reserved_fields"
  shows "case py_get (client_configurable rc) name of
    PNone \<Rightarrow> True | PStr s \<Rightarrow> valid_identifier 256 allow_empty s | _ \<Rightarrow> False"
proof (cases "client_configurable rc = []")
  case True
  then show ?thesis by (simp add: py_get_def dict_get_or_def)
next
  case False
  then obtain c d where c: "rc = Some c" "cm_configurable c = Some d"
    by (auto simp: client_configurable_def split: option.splits)
  then have "validate_reserved d reserved_fields = Inr ()"
    using assms(1) by (auto simp: optional_def config_model_ok_def validate_checkpoint_config_def bind_sum_eq_Inr)
  then show ?thesis using assms(2) unfolding validate_reserved_Inr by (auto simp: c client_configurable_def)
qed

lemma identifier_accepted:
  "valid_identifier 256 e s \<Longrightarrow> 256 \<le> n \<Longrightarrow> validated_identifier (PStr s) name n e = Inr s"
  by (auto simp: validated_identifier_Inr valid_identifier_def)



text \<open>
  The exception is real: where \<open>model_dump\<close> keeps a \<open>null\<close> entry of the dictionary, the default
  for the namespace does not apply, and the saver refuses a request the models have accepted.
\<close>

lemma null_namespace_refused:
  fixes cfg :: checkpoint_config
  defines "rq \<equiv> spoofed_config\<lparr>cm_configurable := Some [(PStr ''checkpoint_ns'', PNone)]\<rparr>"
  assumes "256 \<le> max_thread_id_length cfg"
  shows "config_model_ok rq \<and> dump_laws demo_dump \<and>
    (\<exists>rc. build_runnable_config demo_dump ''mine'' ''agent'' (Some rq) None = Inr rc \<and>
       validated_location cfg rc = Inl (ValueError ''checkpoint_ns must be a string''))"
proof (intro conjI demo_dump_laws)
  show "config_model_ok rq" unfolding rq_def by code_simp
  have v: "validated_identifier (PStr ''mine'') ''thread_id'' (max_thread_id_length cfg) False = Inr ''mine''"
    by (rule identifier_accepted [OF _ assms(2)]) code_simp
  show "\<exists>rc. build_runnable_config demo_dump ''mine'' ''agent'' (Some rq) None = Inr rc \<and>
      validated_location cfg rc = Inl (ValueError ''checkpoint_ns must be a string'')"
    using v unfolding rq_def
    by (simp add: build_runnable_config_def demo_dump_def py_get_or_def dict_get_or_def Let_def dict_setdefault_def
        dict_has_def validated_location_def py_get_def spoofed_config_def) (simp add: validated_identifier_def)
qed

end
