(* ===== verification/ThreadStorage.thy ===== *)
theory ThreadStorage
  imports Models
begin

text \<open>
  \<open>storage.py\<close>: thread metadata and the ownership of threads by assistants. \<open>TTLCache\<close> of the
  package \<open>cachetools\<close> and pydantic's JSON encoder are parameters (\<open>storage_libs\<close>); what is
  relied on of the cache is its documented behaviour, \<open>cache_laws\<close>. Every access of the cache
  reads the clock: the readings are a sequence, part of the state with the index of the next.
\<close>


section \<open>State\<close>

record stored_thread =
  st_thread :: thread
  st_assistant_id :: "string option"

record 'c storage_libs =
  cache_new :: "int \<Rightarrow> rat \<Rightarrow> 'c"
  cache_get :: "rat \<Rightarrow> 'c \<Rightarrow> string \<Rightarrow> stored_thread option"
  cache_set :: "rat \<Rightarrow> string \<Rightarrow> stored_thread \<Rightarrow> 'c \<Rightarrow> 'c"
  cache_pop :: "rat \<Rightarrow> string \<Rightarrow> 'c \<Rightarrow> 'c"
  json_size :: "thread \<Rightarrow> int"

record 'c memory_store =
  max_thread_bytes :: int
  threads :: 'c
  readings :: "nat \<Rightarrow> rat"
  next_reading :: nat

text \<open>\<open>InMemoryThreadStore.__post_init__\<close>, on finite numbers.\<close>

definition make_thread_store ::
  "'c storage_libs \<Rightarrow> (nat \<Rightarrow> rat) \<Rightarrow> rat \<Rightarrow> int \<Rightarrow> int \<Rightarrow> exc + 'c memory_store" where
  "make_thread_store L clock ttl_seconds max_threads thread_bytes =
     (if ttl_seconds \<le> 0 then Inl (ValueError ''ttl_seconds must be greater than zero'')
      else if max_threads \<le> 0 then Inl (ValueError ''max_threads must be greater than zero'')
      else if thread_bytes \<le> 0 then Inl (ValueError ''max_thread_bytes must be greater than zero'')
      else Inr \<lparr>max_thread_bytes = thread_bytes, threads = cache_new L max_threads ttl_seconds,
                readings = clock, next_reading = 0\<rparr>)"

definition read_clock :: "('c memory_store, exc, rat) op" where
  "read_clock s = (Inr (readings s (next_reading s)), s\<lparr>next_reading := Suc (next_reading s)\<rparr>)"


section \<open>Operations\<close>

definition lookup_record :: "'c storage_libs \<Rightarrow> string \<Rightarrow> ('c memory_store, exc, stored_thread option) op" where
  "lookup_record L k = bind_op read_clock (\<lambda>now. read_op (\<lambda>s. cache_get L now (threads s) k))"

definition write_record :: "'c storage_libs \<Rightarrow> string \<Rightarrow> stored_thread \<Rightarrow> ('c memory_store, exc, unit) op" where
  "write_record L k r = bind_op read_clock (\<lambda>now. modify_op (\<lambda>s. s\<lparr>threads := cache_set L now k r (threads s)\<rparr>))"

definition store_get_thread :: "'c storage_libs \<Rightarrow> string \<Rightarrow> ('c memory_store, exc, thread option) op" where
  "store_get_thread L k = bind_op (lookup_record L k) (\<lambda>r. ret (map_option st_thread r))"

definition store_put_thread :: "'c storage_libs \<Rightarrow> thread \<Rightarrow> ('c memory_store, exc, unit) op" where
  "store_put_thread L th =
     bind_op (read_op max_thread_bytes) (\<lambda>limit.
     bind_op (raise_if (json_size L th > limit)
        (ThreadStoreCapacityError ''thread metadata exceeds max_thread_bytes'')) (\<lambda>_.
     bind_op (lookup_record L (th_thread_id th)) (\<lambda>existing.
       write_record L (th_thread_id th)
         \<lparr>st_thread = th,
          st_assistant_id = (case existing of None \<Rightarrow> None | Some r \<Rightarrow> st_assistant_id r)\<rparr>)))"

definition store_get_assistant_id :: "'c storage_libs \<Rightarrow> string \<Rightarrow> ('c memory_store, exc, string option) op" where
  "store_get_assistant_id L k =
     bind_op (lookup_record L k) (\<lambda>r. ret (case r of None \<Rightarrow> None | Some r \<Rightarrow> st_assistant_id r))"

definition not_found :: "string \<Rightarrow> string" where
  "not_found k = ''Thread '' @ k @ '' not found''"

definition belongs_to :: "string \<Rightarrow> string \<Rightarrow> string" where
  "belongs_to k a = ''Thread '' @ k @ '' belongs to assistant '' @ a"

definition store_claim_assistant :: "'c storage_libs \<Rightarrow> string \<Rightarrow> string \<Rightarrow> ('c memory_store, exc, unit) op" where
  "store_claim_assistant L k a =
     bind_op (lookup_record L k) (\<lambda>r.
       case r of
         None \<Rightarrow> raise (LookupError (not_found k))
       | Some r \<Rightarrow>
           (case st_assistant_id r of
              Some b \<Rightarrow>
                if b \<noteq> a then raise (ThreadAssistantConflictError (belongs_to k b))
                else write_record L k (r\<lparr>st_assistant_id := Some a\<rparr>)
            | None \<Rightarrow> write_record L k (r\<lparr>st_assistant_id := Some a\<rparr>)))"

definition store_delete_thread :: "'c storage_libs \<Rightarrow> string \<Rightarrow> ('c memory_store, exc, unit) op" where
  "store_delete_thread L k =
     bind_op read_clock (\<lambda>now. modify_op (\<lambda>s. s\<lparr>threads := cache_pop L now k (threads s)\<rparr>))"


section \<open>The cache\<close>

text \<open>
  What the documentation of \<open>TTLCache\<close> says: a stored item is found until its time to live has
  passed or another item has displaced it, then no more; deleting removes one item; time only
  makes items disappear.
\<close>

definition cache_laws :: "'c storage_libs \<Rightarrow> bool" where
  "cache_laws L \<longleftrightarrow>
     (\<forall>m ttl now k. 0 < m \<longrightarrow> 0 < ttl \<longrightarrow> cache_get L now (cache_new L m ttl) k = None) \<and>
     (\<forall>c k v now. cache_get L now (cache_set L now k v c) k = Some v) \<and>
     (\<forall>c k v now later. now \<le> later \<longrightarrow> cache_get L later (cache_set L now k v c) k \<in> {None, Some v}) \<and>
     (\<forall>c k k' v now later. now \<le> later \<longrightarrow> k' \<noteq> k \<longrightarrow>
        cache_get L later (cache_set L now k v c) k' \<in> {None, cache_get L later c k'}) \<and>
     (\<forall>c k now later. cache_get L later (cache_pop L now k c) k = None) \<and>
     (\<forall>c k k' now later. now \<le> later \<longrightarrow> k' \<noteq> k \<longrightarrow>
        cache_get L later (cache_pop L now k c) k' = cache_get L later c k') \<and>
     (\<forall>c k now later. now \<le> later \<longrightarrow> cache_get L later c k \<in> {None, cache_get L now c k})"

lemma cache_lawsD:
  assumes "cache_laws L"
  shows "0 < m \<Longrightarrow> 0 < ttl \<Longrightarrow> cache_get L now (cache_new L m ttl) k = None"
    and "cache_get L now (cache_set L now k v c) k = Some v"
    and "now \<le> later \<Longrightarrow> cache_get L later (cache_set L now k v c) k \<in> {None, Some v}"
    and "now \<le> later \<Longrightarrow> k' \<noteq> k \<Longrightarrow> cache_get L later (cache_set L now k v c) k' \<in> {None, cache_get L later c k'}"
    and "cache_get L later (cache_pop L now k c) k = None"
    and "now \<le> later \<Longrightarrow> k' \<noteq> k \<Longrightarrow> cache_get L later (cache_pop L now k c) k' = cache_get L later c k'"
    and "now \<le> later \<Longrightarrow> cache_get L later c k \<in> {None, cache_get L now c k}"
  using assms by (simp_all add: cache_laws_def)

text \<open>What the next access will see, and what of it another operation may leave.\<close>

definition view :: "'c storage_libs \<Rightarrow> 'c memory_store \<Rightarrow> string \<Rightarrow> stored_thread option" where
  "view L s k = cache_get L (readings s (next_reading s)) (threads s) k"

definition store_ok :: "'c storage_libs \<Rightarrow> 'c memory_store \<Rightarrow> bool" where
  "store_ok L s \<longleftrightarrow> cache_laws L \<and> mono (readings s)"

definition fades :: "('k \<Rightarrow> 'v option) \<Rightarrow> ('k \<Rightarrow> 'v option) \<Rightarrow> bool" where
  "fades f g \<longleftrightarrow> (\<forall>k. g k = None \<or> g k = f k)"

lemma fades_refl [simp]: "fades f f" by (simp add: fades_def)

lemma fades_trans: "fades f g \<Longrightarrow> fades g h \<Longrightarrow> fades f h" unfolding fades_def by metis

lemma fadesD: "fades f g \<Longrightarrow> g k = Some v \<Longrightarrow> f k = Some v" by (metis fades_def option.distinct(1))

text \<open>Reading the clock, looking up, writing and popping, as specifications over the view.\<close>

lemma tick_fades:
  assumes "store_ok L s"
  shows "store_ok L (s\<lparr>next_reading := Suc (next_reading s)\<rparr>)"
    and "fades (view L s) (view L (s\<lparr>next_reading := Suc (next_reading s)\<rparr>))"
proof -
  have laws: "cache_laws L" and "readings s (next_reading s) \<le> readings s (Suc (next_reading s))"
    using assms by (auto simp: store_ok_def mono_def)
  then show "fades (view L s) (view L (s\<lparr>next_reading := Suc (next_reading s)\<rparr>))"
    using cache_lawsD(7) [OF laws] by (auto simp: fades_def view_def)
qed (use assms in \<open>simp add: store_ok_def\<close>)

lemma wp_lookup:
  assumes "store_ok L s"
    and "\<And>s'. store_ok L s' \<Longrightarrow> fades (view L s) (view L s') \<Longrightarrow> max_thread_bytes s' = max_thread_bytes s \<Longrightarrow>
      Q (Inr (view L s k)) s'"
  shows "wp (lookup_record L k) Q s"
  using assms(2) [OF tick_fades [OF assms(1)]]
  by (simp add: lookup_record_def wp_iff bind_op_def read_clock_def read_op_def view_def)

lemma wp_write:
  assumes s: "store_ok L s"
    and Q: "\<And>s'. store_ok L s' \<Longrightarrow> view L s' k \<in> {None, Some r} \<Longrightarrow>
      (\<And>k'. k' \<noteq> k \<Longrightarrow> view L s' k' \<in> {None, view L s k'}) \<Longrightarrow> max_thread_bytes s' = max_thread_bytes s \<Longrightarrow> Q (Inr ()) s'"
  shows "wp (write_record L k r) Q s"
proof -
  let ?now = "readings s (next_reading s)" and ?later = "readings s (Suc (next_reading s))"
  let ?s = "s\<lparr>next_reading := Suc (next_reading s), threads := cache_set L ?now k r (threads s)\<rparr>"
  have laws: "cache_laws L" and le: "?now \<le> ?later" using s by (auto simp: store_ok_def mono_def)
  have "Q (Inr ()) ?s"
  proof (rule Q)
    show "store_ok L ?s" using s by (simp add: store_ok_def)
    show "view L ?s k \<in> {None, Some r}" using cache_lawsD(3) [OF laws le] by (simp add: view_def)
    show "view L ?s k' \<in> {None, view L s k'}" if "k' \<noteq> k" for k'
      using cache_lawsD(4) [OF laws le that, of r "threads s"] cache_lawsD(7) [OF laws le, of "threads s" k']
      by (auto simp: view_def)
  qed simp
  then show ?thesis by (simp add: write_record_def wp_iff bind_op_def read_clock_def modify_op_def)
qed

lemma wp_pop:
  assumes s: "store_ok L s"
    and Q: "\<And>s'. store_ok L s' \<Longrightarrow> view L s' k = None \<Longrightarrow> fades (view L s) (view L s') \<Longrightarrow> Q (Inr ()) s'"
  shows "wp (store_delete_thread L k) Q s"
proof -
  let ?now = "readings s (next_reading s)" and ?later = "readings s (Suc (next_reading s))"
  let ?s = "s\<lparr>next_reading := Suc (next_reading s), threads := cache_pop L ?now k (threads s)\<rparr>"
  have laws: "cache_laws L" and le: "?now \<le> ?later" using s by (auto simp: store_ok_def mono_def)
  have gone: "view L ?s k = None" using cache_lawsD(5) [OF laws] by (simp add: view_def)
  have "view L ?s k' \<in> {None, view L s k'}" if "k' \<noteq> k" for k'
    using cache_lawsD(6) [OF laws le that, of "threads s"] cache_lawsD(7) [OF laws le, of "threads s" k']
    by (simp add: view_def)
  then have "view L ?s k' = None \<or> view L ?s k' = view L s k'" for k' using gone by (cases "k' = k") auto
  then have "fades (view L s) (view L ?s)" by (simp add: fades_def)
  then have "Q (Inr ()) ?s" using s gone by (intro Q) (simp_all add: store_ok_def)
  then show ?thesis by (simp add: store_delete_thread_def wp_iff bind_op_def read_clock_def modify_op_def)
qed


section \<open>The interface of a thread store\<close>

definition owner_in :: "stored_thread option \<Rightarrow> string option" where
  "owner_in r = (case r of None \<Rightarrow> None | Some x \<Rightarrow> st_assistant_id x)"

text \<open>
  The results of a put and of a claim: \<open>f\<close> and \<open>g\<close> are the entries before and after. Entries may
  disappear between two calls; a put keeps the owner, a claim succeeds for a thread without one
  or for its owner.
\<close>

definition put_result ::
  "thread \<Rightarrow> (string \<Rightarrow> stored_thread option) \<Rightarrow> exc + unit \<Rightarrow> (string \<Rightarrow> stored_thread option) \<Rightarrow> bool" where
  "put_result th f r g \<longleftrightarrow>
     (case r of
        Inl e \<Rightarrow> (\<exists>m. e = ThreadStoreCapacityError m) \<and> fades f g
      | Inr _ \<Rightarrow> fades (f(th_thread_id th \<mapsto> \<lparr>st_thread = th, st_assistant_id = owner_in (f (th_thread_id th))\<rparr>)) g)"

definition claim_result ::
  "string \<Rightarrow> string \<Rightarrow> (string \<Rightarrow> stored_thread option) \<Rightarrow> exc + unit \<Rightarrow> (string \<Rightarrow> stored_thread option) \<Rightarrow> bool" where
  "claim_result k a f r g \<longleftrightarrow>
     (case f k of
        None \<Rightarrow> r = Inl (LookupError (not_found k)) \<and> fades f g
      | Some x \<Rightarrow>
          (case st_assistant_id x of
             Some b \<Rightarrow>
               if b \<noteq> a then r = Inl (ThreadAssistantConflictError (belongs_to k b)) \<and> fades f g
               else r = Inr () \<and> fades f g
           | None \<Rightarrow> r = Inr () \<and> fades (f(k \<mapsto> x\<lparr>st_assistant_id := Some a\<rparr>)) g))"

text \<open>\<open>ThreadStore\<close>: what the route handlers rely on.\<close>

locale thread_store =
  fixes get_op :: "string \<Rightarrow> ('s, exc, thread option) op"
    and put_op :: "thread \<Rightarrow> ('s, exc, unit) op"
    and owner_op :: "string \<Rightarrow> ('s, exc, string option) op"
    and claim_op :: "string \<Rightarrow> string \<Rightarrow> ('s, exc, unit) op"
    and delete_op :: "string \<Rightarrow> ('s, exc, unit) op"
    and entry :: "'s \<Rightarrow> string \<Rightarrow> stored_thread option"
    and ok :: "'s \<Rightarrow> bool"
  assumes get_law: "ok s \<Longrightarrow> wp (get_op k) (\<lambda>r s'. r = Inr (map_option st_thread (entry s k)) \<and> ok s' \<and>
        fades (entry s) (entry s')) s"
    and owner_law: "ok s \<Longrightarrow> wp (owner_op k) (\<lambda>r s'. r = Inr (owner_in (entry s k)) \<and> ok s' \<and>
        fades (entry s) (entry s')) s"
    and put_law: "ok s \<Longrightarrow> wp (put_op th) (\<lambda>r s'. ok s' \<and> put_result th (entry s) r (entry s')) s"
    and claim_law: "ok s \<Longrightarrow> wp (claim_op k a) (\<lambda>r s'. ok s' \<and> claim_result k a (entry s) r (entry s')) s"
    and delete_law: "ok s \<Longrightarrow> wp (delete_op k) (\<lambda>r s'. r = Inr () \<and> ok s' \<and> entry s' k = None \<and>
        fades (entry s) (entry s')) s"
begin

text \<open>An entry that has an owner keeps it as long as it lives.\<close>

definition keeps_owner :: "'s \<Rightarrow> 's \<Rightarrow> bool" where
  "keeps_owner s s' \<longleftrightarrow> ok s' \<and>
     (\<forall>k x y a. entry s k = Some x \<longrightarrow> st_assistant_id x = Some a \<longrightarrow> entry s' k = Some y \<longrightarrow> st_assistant_id y = Some a)"

lemma fades_keeps_owner: "ok s' \<Longrightarrow> fades (entry s) (entry s') \<Longrightarrow> keeps_owner s s'"
  unfolding keeps_owner_def by (metis fadesD option.inject)

lemma updated_keeps_owner:
  assumes "ok s'" "fades ((entry s)(k \<mapsto> x)) (entry s')" "owner_in (entry s k) \<in> {None, st_assistant_id x}"
  shows "keeps_owner s s'"
  unfolding keeps_owner_def
proof (intro conjI allI impI assms(1))
  fix j y z a
  assume y: "entry s j = Some y" "st_assistant_id y = Some a" and z: "entry s' j = Some z"
  have "((entry s)(k \<mapsto> x)) j = Some z" by (rule fadesD [OF assms(2) z])
  then show "st_assistant_id z = Some a" using y assms(3) by (cases "j = k") (simp_all add: owner_in_def)
qed

lemma get_keeps_owner: "ok s \<Longrightarrow> wp (get_op k) (\<lambda>_. keeps_owner s) s"
  by (rule wp_mono [OF get_law]) (simp_all add: fades_keeps_owner)

lemma owner_keeps_owner: "ok s \<Longrightarrow> wp (owner_op k) (\<lambda>_. keeps_owner s) s"
  by (rule wp_mono [OF owner_law]) (simp_all add: fades_keeps_owner)

lemma delete_keeps_owner: "ok s \<Longrightarrow> wp (delete_op k) (\<lambda>_. keeps_owner s) s"
  by (rule wp_mono [OF delete_law]) (simp_all add: fades_keeps_owner)

lemma put_keeps_owner: "ok s \<Longrightarrow> wp (put_op th) (\<lambda>_. keeps_owner s) s"
proof (rule wp_mono [OF put_law])
  fix r :: "exc + unit" and s'
  assume r: "ok s' \<and> put_result th (entry s) r (entry s')"
  show "keeps_owner s s'"
  proof (cases r)
    case (Inl e)
    then show ?thesis using r by (simp add: fades_keeps_owner put_result_def)
  next
    case (Inr u)
    then show ?thesis
      using r by (intro updated_keeps_owner [of s' s "th_thread_id th"
            "\<lparr>st_thread = th, st_assistant_id = owner_in (entry s (th_thread_id th))\<rparr>"]) (simp_all add: put_result_def)
  qed
qed

lemma claim_keeps_owner: "ok s \<Longrightarrow> wp (claim_op k a) (\<lambda>_. keeps_owner s) s"
proof (rule wp_mono [OF claim_law])
  fix r :: "exc + unit" and s'
  assume r: "ok s' \<and> claim_result k a (entry s) r (entry s')"
  show "keeps_owner s s'"
  proof (cases "fades (entry s) (entry s')")
    case True
    then show ?thesis using r by (simp add: fades_keeps_owner)
  next
    case False
    then obtain x where "entry s k = Some x" "st_assistant_id x = None"
        "fades ((entry s)(k \<mapsto> x\<lparr>st_assistant_id := Some a\<rparr>)) (entry s')"
      using r by (auto simp: claim_result_def split: option.splits if_splits)
    then show ?thesis using r updated_keeps_owner [of s' s k] by (simp add: owner_in_def)
  qed
qed

end

lemma lookup_law:
  "store_ok L s \<Longrightarrow> wp (lookup_record L k) (\<lambda>r s'. r = Inr (view L s k) \<and> store_ok L s' \<and>
     fades (view L s) (view L s') \<and> max_thread_bytes s' = max_thread_bytes s) s"
  by (rule wp_lookup) simp_all

lemma write_law:
  assumes "store_ok L s"
  shows "wp (write_record L k r) (\<lambda>x s'. x = Inr () \<and> store_ok L s' \<and> fades ((view L s)(k \<mapsto> r)) (view L s')) s"
proof (rule wp_write [OF assms])
  fix s' assume "store_ok L s'" and k: "view L s' k \<in> {None, Some r}"
    and other: "\<And>k'. k' \<noteq> k \<Longrightarrow> view L s' k' \<in> {None, view L s k'}"
  have "view L s' j = None \<or> view L s' j = ((view L s)(k \<mapsto> r)) j" for j
    using k other [of j] by (cases "j = k") simp_all
  then show "Inr () = Inr () \<and> store_ok L s' \<and> fades ((view L s)(k \<mapsto> r)) (view L s')"
    using \<open>store_ok L s'\<close> by (simp add: fades_def)
qed

lemma fades_upd: "fades f g \<Longrightarrow> fades (f(k \<mapsto> x)) (g(k \<mapsto> x))"
  by (auto simp: fades_def)

lemma fades_upd_at: "fades (f(k \<mapsto> x)) g \<Longrightarrow> g k = Some y \<Longrightarrow> y = x"
  by (drule (1) fadesD) simp

lemma fades_same: "f k = Some x \<Longrightarrow> fades (f(k \<mapsto> x)) g \<Longrightarrow> fades f g"
  by (metis fun_upd_triv)

lemma store_put_law:
  assumes s: "store_ok L s"
  shows "wp (store_put_thread L th) (\<lambda>r s'. store_ok L s' \<and> put_result th (view L s) r (view L s')) s"
proof (cases "json_size L th > max_thread_bytes s")
  case True
  then show ?thesis using s by (simp add: store_put_thread_def wp_bind wp_simps put_result_def)
next
  case False
  let ?r = "\<lparr>st_thread = th, st_assistant_id = owner_in (view L s (th_thread_id th))\<rparr>"
  have "wp (bind_op (lookup_record L (th_thread_id th)) (\<lambda>existing. write_record L (th_thread_id th)
       \<lparr>st_thread = th, st_assistant_id = (case existing of None \<Rightarrow> None | Some r \<Rightarrow> st_assistant_id r)\<rparr>))
      (\<lambda>r s'. store_ok L s' \<and> put_result th (view L s) r (view L s')) s"
  proof (rule wp_bindI [OF lookup_law [OF s]])
    fix x s1
    assume x: "Inr x = Inr (view L s (th_thread_id th)) \<and> store_ok L s1 \<and> fades (view L s) (view L s1) \<and>
      max_thread_bytes s1 = max_thread_bytes s"
    then have "wp (write_record L (th_thread_id th) ?r) (\<lambda>y s'. y = Inr () \<and> store_ok L s' \<and>
        fades ((view L s1)(th_thread_id th \<mapsto> ?r)) (view L s')) s1" by (intro write_law) simp
    then show "wp (write_record L (th_thread_id th)
        \<lparr>st_thread = th, st_assistant_id = (case x of None \<Rightarrow> None | Some r \<Rightarrow> st_assistant_id r)\<rparr>)
        (\<lambda>r s'. store_ok L s' \<and> put_result th (view L s) r (view L s')) s1"
      using x by (simp add: owner_in_def [symmetric])
        (rule wp_mono, assumption, auto simp: put_result_def intro: fades_trans [OF fades_upd])
  qed simp
  then show ?thesis using False by (simp add: store_put_thread_def wp_bind [of "raise_if c e" for c e] wp_bind [of "read_op f" for f] wp_simps)
qed

lemma store_claim_law:
  assumes s: "store_ok L s"
  shows "wp (store_claim_assistant L k a) (\<lambda>r s'. store_ok L s' \<and> claim_result k a (view L s) r (view L s')) s"
  unfolding store_claim_assistant_def
proof (rule wp_bindI [OF lookup_law [OF s]])
  fix v s1
  assume "Inr v = Inr (view L s k) \<and> store_ok L s1 \<and> fades (view L s) (view L s1) \<and> max_thread_bytes s1 = max_thread_bytes s"
  then have v: "v = view L s k" and s1: "store_ok L s1" and f: "fades (view L s) (view L s1)" by auto
  have writing: "wp (write_record L k r) (\<lambda>y s'. y = Inr () \<and> store_ok L s' \<and> fades ((view L s)(k \<mapsto> r)) (view L s')) s1" for r
    by (rule wp_mono [OF write_law [OF s1]]) (auto intro: fades_trans [OF fades_upd [OF f]])
  show "wp (case v of
          None \<Rightarrow> raise (LookupError (not_found k))
        | Some r \<Rightarrow>
            (case st_assistant_id r of
               Some b \<Rightarrow>
                 if b \<noteq> a then raise (ThreadAssistantConflictError (belongs_to k b))
                 else write_record L k (r\<lparr>st_assistant_id := Some a\<rparr>)
             | None \<Rightarrow> write_record L k (r\<lparr>st_assistant_id := Some a\<rparr>)))
      (\<lambda>r s'. store_ok L s' \<and> claim_result k a (view L s) r (view L s')) s1"
  proof (cases v)
    case None
    then show ?thesis using s1 f v by (simp add: wp_simps claim_result_def)
  next
    case (Some x)
    show ?thesis
    proof (cases "st_assistant_id x")
      case None
      then show ?thesis using wp_mono [OF writing [of "x\<lparr>st_assistant_id := Some a\<rparr>"]] Some v
        by (simp add: claim_result_def)
    next
      case own: (Some b)
      show ?thesis
      proof (cases "b = a")
        case True
        then have same: "x\<lparr>st_assistant_id := Some a\<rparr> = x" using own by (cases x) simp
        have "wp (write_record L k (x\<lparr>st_assistant_id := Some a\<rparr>)) (\<lambda>y s'. y = Inr () \<and> store_ok L s' \<and> fades (view L s) (view L s')) s1"
          unfolding same by (rule wp_mono [OF writing [of x]]) (use Some v fades_same [of "view L s" k x] in auto)
        then show ?thesis using Some v own True by (simp add: claim_result_def conj_ac)
      next
        case False
        then show ?thesis using Some v own s1 f by (simp add: claim_result_def wp_simps)
      qed
    qed
  qed
qed simp

interpretation memory: thread_store "store_get_thread L" "store_put_thread L" "store_get_assistant_id L"
  "store_claim_assistant L" "store_delete_thread L" "view L" "store_ok L" for L
proof unfold_locales
  show "wp (store_get_thread L k) (\<lambda>r s'. r = Inr (map_option st_thread (view L s k)) \<and> store_ok L s' \<and>
      fades (view L s) (view L s')) s" if "store_ok L s" for s k
    unfolding store_get_thread_def wp_bind by (rule wp_lookup [OF that]) (simp add: wp_simps)
  show "wp (store_get_assistant_id L k) (\<lambda>r s'. r = Inr (owner_in (view L s k)) \<and> store_ok L s' \<and>
      fades (view L s) (view L s')) s" if "store_ok L s" for s k
    unfolding store_get_assistant_id_def wp_bind by (rule wp_lookup [OF that]) (simp add: wp_simps owner_in_def)
  show "wp (store_delete_thread L k) (\<lambda>r s'. r = Inr () \<and> store_ok L s' \<and> view L s' k = None \<and>
      fades (view L s) (view L s')) s" if "store_ok L s" for s k
    by (rule wp_pop [OF that]) simp
qed (rule store_put_law store_claim_law, assumption)+


section \<open>Sequences of calls\<close>

datatype store_call =
    CallGet string
  | CallPut thread
  | CallOwner string
  | CallClaim string string
  | CallDelete string

fun store_exec :: "'c storage_libs \<Rightarrow> store_call \<Rightarrow> 'c memory_store \<Rightarrow> 'c memory_store" where
  "store_exec L (CallGet k) s = snd (store_get_thread L k s)"
| "store_exec L (CallPut th) s = snd (store_put_thread L th s)"
| "store_exec L (CallOwner k) s = snd (store_get_assistant_id L k s)"
| "store_exec L (CallClaim k a) s = snd (store_claim_assistant L k a s)"
| "store_exec L (CallDelete k) s = snd (store_delete_thread L k s)"

definition store_run :: "'c storage_libs \<Rightarrow> store_call list \<Rightarrow> 'c memory_store \<Rightarrow> 'c memory_store" where
  "store_run L calls s = fold (store_exec L) calls s"

lemma exec_keeps_owner: "store_ok L s \<Longrightarrow> memory.keeps_owner L s (store_exec L c s)"
  using memory.get_keeps_owner [of L s] memory.put_keeps_owner [of L s] memory.owner_keeps_owner [of L s]
    memory.claim_keeps_owner [of L s] memory.delete_keeps_owner [of L s]
  by (cases c) (simp_all add: wp_iff)

lemma owner_in_Some: "owner_in v = Some a \<longleftrightarrow> (\<exists>x. v = Some x \<and> st_assistant_id x = Some a)"
  by (simp add: owner_in_def split: option.split)

lemma run_keeps_owner:
  assumes "store_ok L s" "owner_in (view L s k) = Some a"
    and "\<forall>n \<le> length calls. view L (store_run L (take n calls) s) k \<noteq> None"
  shows "store_ok L (store_run L calls s) \<and> owner_in (view L (store_run L calls s) k) = Some a"
  using assms
proof (induction calls arbitrary: s)
  case (Cons c calls)
  let ?s = "store_exec L c s"
  have kept: "memory.keeps_owner L s ?s" by (rule exec_keeps_owner [OF Cons.prems(1)])
  have live: "view L (store_run L (take n calls) ?s) k \<noteq> None" if "n \<le> length calls" for n
    using Cons.prems(3) [rule_format, of "Suc n"] that by (simp add: store_run_def)
  obtain y where y: "view L ?s k = Some y" using live [of 0] by (auto simp: store_run_def)
  have "owner_in (view L ?s k) = Some a"
    using kept Cons.prems(2) y unfolding memory.keeps_owner_def owner_in_Some by blast
  then have "store_ok L (store_run L calls ?s) \<and> owner_in (view L (store_run L calls ?s) k) = Some a"
    using kept live by (intro Cons.IH) (simp_all add: memory.keeps_owner_def)
  then show ?case by (simp add: store_run_def)
qed (simp add: store_run_def)


section \<open>A cache that keeps the laws\<close>

text \<open>A list of items with the time they were stored, oldest first; for the examples.\<close>

record list_cache =
  lc_max :: nat
  lc_ttl :: rat
  lc_items :: "(string, rat \<times> stored_thread) dict"

definition lc_get :: "rat \<Rightarrow> list_cache \<Rightarrow> string \<Rightarrow> stored_thread option" where
  "lc_get now c k =
     (case dict_get (lc_items c) k of
        None \<Rightarrow> None
      | Some (stored_at, v) \<Rightarrow> if now \<le> stored_at \<or> now < stored_at + lc_ttl c then Some v else None)"

definition lc_set :: "rat \<Rightarrow> string \<Rightarrow> stored_thread \<Rightarrow> list_cache \<Rightarrow> list_cache" where
  "lc_set now k v c =
     (let items = dict_set (dict_pop (lc_items c) k) k (now, v)
      in c\<lparr>lc_items :=
             if length items > lc_max c \<and> fst (hd items) \<noteq> k then dict_pop items (fst (hd items)) else items\<rparr>)"

definition list_libs :: "list_cache storage_libs" where
  "list_libs =
     \<lparr>cache_new = (\<lambda>m ttl. \<lparr>lc_max = nat m, lc_ttl = ttl, lc_items = []\<rparr>), cache_get = lc_get, cache_set = lc_set,
      cache_pop = (\<lambda>now k c. c\<lparr>lc_items := dict_pop (lc_items c) k\<rparr>), json_size = (\<lambda>_. 100)\<rparr>"

lemma lc_set_get: "dict_get (lc_items (lc_set now k v c)) k' =
    (if k' = k then Some (now, v)
     else if dict_get (lc_items (lc_set now k v c)) k' = None then None else dict_get (lc_items c) k')"
  by (auto simp: lc_set_def Let_def dict_get_set dict_get_pop)

lemma lc_set_ttl [simp]: "lc_ttl (lc_set now k v c) = lc_ttl c"
  by (simp add: lc_set_def Let_def)

lemma list_cache_laws: "cache_laws list_libs"
  unfolding cache_laws_def
proof (intro conjI allI impI)
  fix c k v now later k' m ttl
  show "cache_get list_libs now (cache_new list_libs m ttl) k = None" by (simp add: list_libs_def lc_get_def)
  show "cache_get list_libs now (cache_set list_libs now k v c) k = Some v"
    by (simp add: list_libs_def lc_get_def lc_set_get [of now k v c k])
  show "cache_get list_libs later (cache_set list_libs now k v c) k \<in> {None, Some v}"
    by (simp add: list_libs_def lc_get_def lc_set_get [of now k v c k])
  show "cache_get list_libs later (cache_pop list_libs now k c) k = None"
    by (simp add: list_libs_def lc_get_def dict_get_pop)
  assume "now \<le> later"
  then show "cache_get list_libs later c k \<in> {None, cache_get list_libs now c k}"
    by (auto simp: list_libs_def lc_get_def split: option.split)
  assume "k' \<noteq> k"
  then show "cache_get list_libs later (cache_pop list_libs now k c) k' = cache_get list_libs later c k'"
    by (simp add: list_libs_def lc_get_def dict_get_pop split: option.split)
  show "cache_get list_libs later (cache_set list_libs now k v c) k' \<in> {None, cache_get list_libs later c k'}"
    using lc_set_get [of now k v c k'] \<open>k' \<noteq> k\<close>
    by (cases "dict_get (lc_items (lc_set now k v c)) k'") (auto simp: list_libs_def lc_get_def split: option.split)
qed

definition demo_store :: "list_cache memory_store" where
  "demo_store =
     \<lparr>max_thread_bytes = 200, threads = \<lparr>lc_max = 2, lc_ttl = 100, lc_items = []\<rparr>,
      readings = (\<lambda>n. of_nat n), next_reading = 0\<rparr>"

definition demo_thread :: thread where
  "demo_thread =
     \<lparr>th_thread_id = ''t'', th_created_at = 0, th_updated_at = 0, th_metadata = None, th_status = ''idle'',
      th_values = None, th_interrupts = []\<rparr>"

lemma demo_store_ok: "store_ok list_libs demo_store"
  by (simp add: store_ok_def list_cache_laws demo_store_def mono_def)

lemma store_run_ok: "store_ok L s \<Longrightarrow> store_ok L (store_run L calls s)"
  by (induction calls arbitrary: s) (use exec_keeps_owner in \<open>auto simp: store_run_def memory.keeps_owner_def\<close>)

definition claimed_store :: "list_cache memory_store" where
  "claimed_store = store_run list_libs [CallPut demo_thread, CallClaim ''t'' ''agent''] demo_store"


section \<open>Properties\<close>

text \<open>
  C7: \<open>claim_assistant\<close> decides ownership: it fails with \<open>LookupError\<close> for a thread that is not
  stored, with a conflict naming the owner for a thread of another assistant, and otherwise
  succeeds; and after a claim that succeeded, the claim of any other assistant fails.
\<close>

theorem claim_exclusive:
  assumes "store_ok L s" "store_claim_assistant L k a s = (r, s')" "store_claim_assistant L k b s' = (r', s'')" "b \<noteq> a"
  shows "claim_result k a (view L s) r (view L s') \<and>
    (r = Inr () \<longrightarrow> r' = Inl (LookupError (not_found k)) \<or> r' = Inl (ThreadAssistantConflictError (belongs_to k a)))"
proof -
  have c: "store_ok L s'" "claim_result k a (view L s) r (view L s')"
    using store_claim_law [OF assms(1), of k a] by (simp_all add: wp_iff assms(2))
  have d: "claim_result k b (view L s') r' (view L s'')"
    using store_claim_law [OF c(1), of k b] by (simp add: wp_iff assms(3))
  have "owner_in (view L s' k) = Some a" if "r = Inr ()" "view L s' k = Some y" for y
    using c(2) that by (auto simp: claim_result_def owner_in_Some dest: fadesD fades_upd_at split: option.splits if_splits)
  then have "r' = Inl (LookupError (not_found k)) \<or> r' = Inl (ThreadAssistantConflictError (belongs_to k a))"
    if "r = Inr ()"
    using d that assms(4) by (cases "view L s' k") (auto simp: claim_result_def owner_in_def)
  then show ?thesis using c(2) by blast
qed

theorem claim_exclusive_witness:
  "fst (store_claim_assistant list_libs ''t'' ''agent'' (store_run list_libs [CallPut demo_thread] demo_store)) = Inr () \<and>
   fst (store_claim_assistant list_libs ''t'' ''other'' claimed_store) =
     Inl (ThreadAssistantConflictError ''Thread t belongs to assistant agent'')"
proof -
  let ?s = "store_run list_libs [CallPut demo_thread] demo_store"
  have a: "fst (store_claim_assistant list_libs ''t'' ''agent'' ?s) = Inr ()" by code_simp
  have s': "snd (store_claim_assistant list_libs ''t'' ''agent'' ?s) = claimed_store"
    by (simp add: claimed_store_def store_run_def)
  have "fst (store_claim_assistant list_libs ''t'' ''other'' claimed_store) \<noteq> Inl (LookupError (not_found ''t''))" by code_simp
  then have "fst (store_claim_assistant list_libs ''t'' ''other'' claimed_store) =
      Inl (ThreadAssistantConflictError (belongs_to ''t'' ''agent''))"
    using claim_exclusive [OF store_run_ok [OF demo_store_ok, of "[CallPut demo_thread]"] prod.collapse [symmetric] prod.collapse [symmetric],
        where k = "''t''" and a = "''agent''" and b = "''other''"] a
    unfolding s' by simp
  then show ?thesis using a by (simp add: belongs_to_def)
qed

text \<open>
  \<open>put_thread\<close> refuses exactly the threads whose JSON is larger than \<open>max_thread_bytes\<close>, and
  then the store is as it was but for entries that time has removed; otherwise the entry is
  replaced, and its owner is kept.
\<close>

theorem put_thread_keeps_owner:
  assumes "store_ok L s" "store_put_thread L th s = (r, s')"
  shows "(isl r \<longleftrightarrow> json_size L th > max_thread_bytes s) \<and> put_result th (view L s) r (view L s') \<and>
    (view L s' (th_thread_id th) \<noteq> None \<longrightarrow> owner_in (view L s' (th_thread_id th)) = owner_in (view L s (th_thread_id th)))"
proof -
  have p: "put_result th (view L s) r (view L s')"
    using store_put_law [OF assms(1), of th] by (simp add: wp_iff assms(2))
  have "isl r \<longleftrightarrow> json_size L th > max_thread_bytes s"
  proof (cases "json_size L th > max_thread_bytes s")
    case True
    then show ?thesis using assms(2) by (auto simp: store_put_thread_def bind_op_def read_op_def raise_if_def raise_def)
  next
    case False
    then have "r = Inr ()" using assms(2)
      by (simp add: store_put_thread_def bind_op_def read_op_def raise_if_def ret_def lookup_record_def
          write_record_def read_clock_def modify_op_def)
    then show ?thesis using False by simp
  qed
  moreover have "owner_in (view L s' (th_thread_id th)) = owner_in (view L s (th_thread_id th))"
    if "view L s' (th_thread_id th) = Some y" for y
    using p that by (cases r) (auto simp: put_result_def owner_in_def dest: fades_upd_at fadesD)
  ultimately show ?thesis using p by auto
qed

theorem put_thread_keeps_owner_witness:
  "owner_in (view list_libs (snd (store_put_thread list_libs (demo_thread\<lparr>th_status := ''busy''\<rparr>) claimed_store)) ''t'') =
     Some ''agent''"
proof -
  let ?th = "demo_thread\<lparr>th_status := ''busy''\<rparr>"
  have "view list_libs (snd (store_put_thread list_libs ?th claimed_store)) ''t'' \<noteq> None"
    "owner_in (view list_libs claimed_store ''t'') = Some ''agent''" by code_simp+
  moreover have "store_ok list_libs claimed_store" unfolding claimed_store_def by (rule store_run_ok [OF demo_store_ok])
  moreover have "th_thread_id ?th = ''t''" by (simp add: demo_thread_def)
  ultimately show ?thesis
    using put_thread_keeps_owner [OF _ prod.collapse [symmetric], of list_libs claimed_store ?th] by simp
qed

text \<open>
  C19: Ownership is stable: through any sequence of calls, by any assistants, a thread that has
  an owner and stays in the store keeps that owner.
\<close>

theorem ownership_stable:
  assumes "store_ok L s" "owner_in (view L s k) = Some a"
    and "\<forall>n \<le> length calls. view L (store_run L (take n calls) s) k \<noteq> None"
  shows "owner_in (view L (store_run L calls s) k) = Some a"
  using run_keeps_owner [OF assms] by blast

theorem ownership_stable_witness:
  "owner_in (view list_libs (store_run list_libs [CallClaim ''t'' ''other'', CallPut demo_thread] claimed_store) ''t'') =
     Some ''agent''"
proof (rule ownership_stable)
  show "store_ok list_libs claimed_store" unfolding claimed_store_def by (rule store_run_ok [OF demo_store_ok])
  show "owner_in (view list_libs claimed_store ''t'') = Some ''agent''" by code_simp
  let ?live = "\<lambda>n. view list_libs (store_run list_libs (take n [CallClaim ''t'' ''other'', CallPut demo_thread]) claimed_store) ''t'' \<noteq> None"
  have "?live 0" "?live 1" "?live 2" by code_simp+
  then show "\<forall>n \<le> length [CallClaim ''t'' ''other'', CallPut demo_thread]. ?live n"
    by (simp add: le_Suc_eq numeral_2_eq_2)
qed

end
