(* ===== verification/Coordination.thy ===== *)
theory Coordination
  imports PyValues
begin

text \<open>
  \<open>coordination.py\<close>: the process-local gate that lets one run or state mutation per thread in
  and bounds the number of active ones. First the coordinator and the lease as the code has
  them, with the behaviour of each operation; then the interface the route handlers rely on,
  interpreted on the coordinator; then many leases whose releases interleave, with the tasks
  that are between the check of \<open>_released\<close> and its update.
\<close>


section \<open>Coordinator and lease\<close>

text \<open>
  \<open>object()\<close> yields a value that is identical to itself only; the coordinator's tokens are
  numbered in the order of their creation, and \<open>next_token\<close> is the number of the next one.
\<close>

record coordinator =
  max_concurrent_runs :: int
  active :: "(string, nat) dict"
  next_token :: nat

record run_lease =
  lease_thread :: string
  lease_token :: nat
  lease_released :: bool

text \<open>
  \<open>RunCoordinator.__init__\<close> on the type it is annotated with: an \<open>int\<close>, of which Python's
  \<open>bool\<close> (here the left summand) is a subtype.
\<close>

definition make_coordinator :: "bool + int \<Rightarrow> exc + coordinator" where
  "make_coordinator v =
     (case v of
        Inl _ \<Rightarrow> Inl (ValueError ''max_concurrent_runs must be greater than zero'')
      | Inr n \<Rightarrow>
          (if n \<le> 0 then Inl (ValueError ''max_concurrent_runs must be greater than zero'')
           else Inr \<lparr>max_concurrent_runs = n, active = [], next_token = 0\<rparr>))"

definition conflict_message :: "string \<Rightarrow> string" where
  "conflict_message thread_id = ''Thread '' @ thread_id @ '' already has an active run''"

definition acquire :: "string \<Rightarrow> (coordinator, exc, run_lease) op" where
  "acquire thread_id c =
     (if dict_has (active c) thread_id
      then (Inl (ThreadRunConflictError (conflict_message thread_id)), c)
      else if int (length (active c)) \<ge> max_concurrent_runs c
      then (Inl (RunCapacityError ''Concurrent run capacity is full''), c)
      else (let token = next_token c in
        (Inr \<lparr>lease_thread = thread_id, lease_token = token, lease_released = False\<rparr>,
         c\<lparr>active := dict_set (active c) thread_id token, next_token := Suc token\<rparr>)))"

text \<open>\<open>RunCoordinator._release\<close>: only the token that holds the slot frees it.\<close>

definition release_token :: "string \<Rightarrow> nat \<Rightarrow> coordinator \<Rightarrow> coordinator" where
  "release_token thread_id token c =
     (if dict_get (active c) thread_id = Some token
      then c\<lparr>active := dict_pop (active c) thread_id\<rparr> else c)"

text \<open>\<open>RunLease.release\<close>, run to its end; the lease is an object, so it is part of the state.\<close>

definition lease_release :: "run_lease \<Rightarrow> coordinator \<Rightarrow> run_lease \<times> coordinator" where
  "lease_release l c =
     (if lease_released l then (l, c)
      else (l\<lparr>lease_released := True\<rparr>, release_token (lease_thread l) (lease_token l) c))"

definition active_runs :: "coordinator \<Rightarrow> int" where
  "active_runs c = int (length (active c))"


section \<open>Invariant and behaviour\<close>

definition coordinator_ok :: "coordinator \<Rightarrow> bool" where
  "coordinator_ok c \<longleftrightarrow>
     dict_wf (active c) \<and>
     int (length (active c)) \<le> max_concurrent_runs c \<and>
     (\<forall>t k. dict_get (active c) t = Some k \<longrightarrow> k < next_token c)"

definition holds :: "coordinator \<Rightarrow> run_lease \<Rightarrow> bool" where
  "holds c l \<longleftrightarrow> dict_get (active c) (lease_thread l) = Some (lease_token l)"

definition busy :: "coordinator \<Rightarrow> string \<Rightarrow> bool" where
  "busy c t \<longleftrightarrow> dict_has (active c) t"

lemma make_coordinator_ok: "make_coordinator v = Inr c \<Longrightarrow> coordinator_ok c \<and> active c = [] \<and> 0 < max_concurrent_runs c"
  by (auto simp: make_coordinator_def coordinator_ok_def split: sum.splits if_splits)

lemma acquire_cases:
  obtains (conflict) "busy c t" "acquire t c = (Inl (ThreadRunConflictError (conflict_message t)), c)"
  | (full) "\<not> busy c t" "int (length (active c)) \<ge> max_concurrent_runs c"
      "acquire t c = (Inl (RunCapacityError ''Concurrent run capacity is full''), c)"
  | (ok) "\<not> busy c t" "int (length (active c)) < max_concurrent_runs c"
      "acquire t c = (Inr \<lparr>lease_thread = t, lease_token = next_token c, lease_released = False\<rparr>,
         c\<lparr>active := dict_set (active c) t (next_token c), next_token := Suc (next_token c)\<rparr>)"
  by (cases "busy c t"; cases "int (length (active c)) \<ge> max_concurrent_runs c")
    (auto simp: acquire_def busy_def Let_def)

lemma acquire_Inl: "acquire t c = (Inl e, c') \<Longrightarrow> c' = c"
  by (auto simp: acquire_def Let_def split: if_splits)

lemma acquire_Inr:
  assumes "acquire t c = (Inr l, c')"
  shows "\<not> busy c t" "int (length (active c)) < max_concurrent_runs c"
    "l = \<lparr>lease_thread = t, lease_token = next_token c, lease_released = False\<rparr>"
    "c' = c\<lparr>active := dict_set (active c) t (next_token c), next_token := Suc (next_token c)\<rparr>"
  using assms by (cases rule: acquire_cases [of c t]; simp)+

lemma acquire_ok:
  assumes "coordinator_ok c" "acquire t c = (r, c')"
  shows "coordinator_ok c'"
proof (cases rule: acquire_cases [of c t])
  case ok
  then show ?thesis using assms
    by (auto simp: coordinator_ok_def busy_def length_dict_set_fresh dict_get_set less_SucI split: if_splits)
qed (use assms in auto)

lemma release_token_ok: "coordinator_ok c \<Longrightarrow> coordinator_ok (release_token t k c)"
  using length_dict_pop_le [of t "active c"]
  by (auto simp: coordinator_ok_def release_token_def dict_get_pop split: if_splits)

lemma lease_release_ok: "coordinator_ok c \<Longrightarrow> coordinator_ok (snd (lease_release l c))"
  by (simp add: lease_release_def release_token_ok)

lemma release_token_active:
  "dict_get (active (release_token t k c)) u =
     (if u = t \<and> dict_get (active c) t = Some k then None else dict_get (active c) u)"
  by (simp add: release_token_def dict_get_pop)

lemma busy_iff: "busy c t \<longleftrightarrow> (\<exists>k. dict_get (active c) t = Some k)"
  by (simp add: busy_def dict_has_iff)

lemma busy_release_token:
  "busy (release_token t k c) u \<longleftrightarrow> busy c u \<and> \<not> (u = t \<and> dict_get (active c) t = Some k)"
  by (auto simp: busy_iff release_token_active split: if_splits)

lemma max_release_token [simp]: "max_concurrent_runs (release_token t k c) = max_concurrent_runs c"
  by (simp add: release_token_def)

lemma next_token_release_token [simp]: "next_token (release_token t k c) = next_token c"
  by (simp add: release_token_def)

text \<open>A lease that no longer holds the slot of its thread cannot free it.\<close>

lemma stale_release: "\<not> holds c l \<Longrightarrow> snd (lease_release l c) = c"
  by (simp add: lease_release_def release_token_def holds_def)

lemma acquire_release_inverse:
  assumes "coordinator_ok c" "acquire t c = (Inr l, c')"
  shows "active (snd (lease_release l c')) = active c"
proof -
  have "\<not> dict_has (active c) t" using acquire_Inr(1) [OF assms(2)] by (simp add: busy_def)
  then have "dict_pop (dict_set (active c) t (next_token c)) t = active c"
    by (simp add: AList.delete_update_same dict_pop_absent)
  then show ?thesis
    using acquire_Inr(3,4) [OF assms(2)] by (simp add: lease_release_def release_token_def dict_get_set)
qed


section \<open>The interface the handlers use\<close>

text \<open>
  What a handler needs of the gate: a refused acquisition changes nothing, a granted one marks
  the thread busy, a second one for the same thread is refused, and the owner's release undoes
  exactly its own mark.
\<close>

locale run_gate =
  fixes acq :: "string \<Rightarrow> ('c, exc, 'l) op"
    and rel :: "'l \<Rightarrow> 'c \<Rightarrow> 'l \<times> 'c"
    and thread_of :: "'l \<Rightarrow> string"
    and owns :: "'c \<Rightarrow> 'l \<Rightarrow> bool"
    and is_busy :: "'c \<Rightarrow> string \<Rightarrow> bool"
    and ok :: "'c \<Rightarrow> bool"
  assumes acq_refused: "acq t c = (Inl e, c') \<Longrightarrow> c' = c"
    and acq_busy: "is_busy c t \<Longrightarrow> \<exists>e. acq t c = (Inl e, c)"
    and acq_ok: "ok c \<Longrightarrow> acq t c = (Inr l, c') \<Longrightarrow> ok c'"
    and acq_owns: "ok c \<Longrightarrow> acq t c = (Inr l, c') \<Longrightarrow> owns c' l \<and> thread_of l = t"
    and acq_marks: "ok c \<Longrightarrow> acq t c = (Inr l, c') \<Longrightarrow> is_busy c' u \<longleftrightarrow> u = t \<or> is_busy c u"
    and rel_ok: "ok c \<Longrightarrow> ok (snd (rel l c))"
    and rel_unmarks: "ok c \<Longrightarrow> owns c l \<Longrightarrow> is_busy (snd (rel l c)) u \<longleftrightarrow> is_busy c u \<and> u \<noteq> thread_of l"
begin

lemma acq_not_busy: "acq t c = (Inr l, c') \<Longrightarrow> \<not> is_busy c t"
  using acq_busy [of c t] by auto

lemma acq_exclusive: "ok c \<Longrightarrow> acq t c = (Inr l, c') \<Longrightarrow> \<exists>e. acq t c' = (Inl e, c')"
  by (rule acq_busy) (simp add: acq_marks)

lemma bracket_restores:
  assumes "ok c" "acq t c = (Inr l, c')"
  shows "is_busy (snd (rel l c')) u \<longleftrightarrow> is_busy c u"
proof -
  have "owns c' l" "thread_of l = t" using acq_owns [OF assms] by auto
  then have "is_busy (snd (rel l c')) u \<longleftrightarrow> is_busy c' u \<and> u \<noteq> t"
    using rel_unmarks [OF acq_ok [OF assms]] by simp
  also have "\<dots> \<longleftrightarrow> is_busy c u"
    using acq_marks [OF assms, of u] acq_not_busy [OF assms(2)] by auto
  finally show ?thesis .
qed

end

interpretation gate: run_gate acquire lease_release lease_thread
  "\<lambda>c l. holds c l \<and> \<not> lease_released l" busy coordinator_ok
proof unfold_locales
  show "acquire t c = (Inl e, c') \<Longrightarrow> c' = c" for t c e c'
    by (rule acquire_Inl)
  show "busy c t \<Longrightarrow> \<exists>e. acquire t c = (Inl e, c)" for c t
    by (cases rule: acquire_cases [of c t]) auto
  show "coordinator_ok c \<Longrightarrow> acquire t c = (Inr l, c') \<Longrightarrow> coordinator_ok c'" for c t l c'
    by (rule acquire_ok)
  show "(holds c' l \<and> \<not> lease_released l) \<and> lease_thread l = t"
    if "coordinator_ok c" "acquire t c = (Inr l, c')" for c t l c'
    using acquire_Inr(3,4) [OF that(2)] by (simp add: holds_def dict_get_set)
  show "busy c' u \<longleftrightarrow> u = t \<or> busy c u"
    if "coordinator_ok c" "acquire t c = (Inr l, c')" for c t l c' u
    using acquire_Inr(4) [OF that(2)] by (simp add: busy_def dict_has_set)
  show "coordinator_ok c \<Longrightarrow> coordinator_ok (snd (lease_release l c))" for c l
    by (rule lease_release_ok)
  show "busy (snd (lease_release l c)) u \<longleftrightarrow> busy c u \<and> u \<noteq> lease_thread l"
    if "coordinator_ok c" "holds c l \<and> \<not> lease_released l" for c l u
    using that by (auto simp: lease_release_def busy_release_token holds_def)
qed


section \<open>Interleaved leases\<close>

text \<open>
  Every lease of a process, with the calls of \<open>release\<close> that are under way. \<open>release\<close> awaits
  between its check of \<open>_released\<close> and its update, so the response's background task and the
  \<open>finally\<close> of its generator may both be inside: \<open>checked\<close> counts the calls that have passed the
  check and whose \<open>_release\<close> has not run, \<open>freed\<close> those whose \<open>_release\<close> has run and that have
  not set the flag. A cancelled call ends without setting it, while the shielded \<open>_release\<close>
  runs all the same. \<open>running\<close> is history: no call of \<open>release\<close> has been made.
\<close>

record lease_object =
  the_lease :: run_lease
  checked :: nat
  freed :: nat
  running :: bool

record process =
  coord :: coordinator
  leases :: "nat \<Rightarrow> lease_object option"

definition fresh_lease :: "run_lease \<Rightarrow> lease_object" where
  "fresh_lease l = \<lparr>the_lease = l, checked = 0, freed = 0, running = True\<rparr>"

definition set_lease :: "process \<Rightarrow> nat \<Rightarrow> lease_object \<Rightarrow> process" where
  "set_lease p i ob = p\<lparr>leases := (leases p)(i \<mapsto> ob)\<rparr>"

inductive lease_step :: "process \<Rightarrow> process \<Rightarrow> bool" where
  step_acquire:
    "acquire t (coord p) = (Inr l, c) \<Longrightarrow>
     lease_step p (set_lease (p\<lparr>coord := c\<rparr>) (lease_token l) (fresh_lease l))"
| step_refused:
    "acquire t (coord p) = (Inl e, c) \<Longrightarrow> lease_step p (p\<lparr>coord := c\<rparr>)"
| step_check:
    "leases p i = Some ob \<Longrightarrow> \<not> lease_released (the_lease ob) \<Longrightarrow>
     lease_step p (set_lease p i (ob\<lparr>checked := Suc (checked ob), running := False\<rparr>))"
| step_free:
    "leases p i = Some ob \<Longrightarrow> checked ob = Suc n \<Longrightarrow>
     c = release_token (lease_thread (the_lease ob)) (lease_token (the_lease ob)) (coord p) \<Longrightarrow>
     lease_step p (set_lease (p\<lparr>coord := c\<rparr>) i (ob\<lparr>checked := n, freed := Suc (freed ob)\<rparr>))"
| step_flag:
    "leases p i = Some ob \<Longrightarrow> freed ob = Suc n \<Longrightarrow>
     lease_step p (set_lease p i
       (ob\<lparr>freed := n, the_lease := (the_lease ob)\<lparr>lease_released := True\<rparr>\<rparr>))"
| step_cancelled:
    "leases p i = Some ob \<Longrightarrow> freed ob = Suc n \<Longrightarrow> lease_step p (set_lease p i (ob\<lparr>freed := n\<rparr>))"

definition initial_process :: "process \<Rightarrow> bool" where
  "initial_process p \<longleftrightarrow>
     coordinator_ok (coord p) \<and> active (coord p) = [] \<and> leases p = (\<lambda>_. None)"

text \<open>
  How the coordinator and the leases agree: a lease is filed under its token; a running lease
  holds the slot of its thread; a lease that holds it is running or is about to free it; after
  its \<open>_release\<close> a lease holds nothing; every taken slot belongs to a lease for that thread.
\<close>

definition lease_ok :: "process \<Rightarrow> nat \<Rightarrow> lease_object \<Rightarrow> bool" where
  "lease_ok p i ob \<longleftrightarrow>
     lease_token (the_lease ob) = i \<and> i < next_token (coord p) \<and>
     (running ob \<longrightarrow> holds (coord p) (the_lease ob) \<and> checked ob = 0) \<and>
     (holds (coord p) (the_lease ob) \<longrightarrow> running ob \<or> 0 < checked ob) \<and>
     (0 < freed ob \<or> lease_released (the_lease ob) \<longrightarrow> \<not> holds (coord p) (the_lease ob))"

definition slot_ok :: "process \<Rightarrow> string \<Rightarrow> nat \<Rightarrow> bool" where
  "slot_ok p t k \<longleftrightarrow> (\<exists>ob. leases p k = Some ob \<and> lease_thread (the_lease ob) = t)"

definition process_ok :: "process \<Rightarrow> bool" where
  "process_ok p \<longleftrightarrow>
     coordinator_ok (coord p) \<and>
     (\<forall>i ob. leases p i = Some ob \<longrightarrow> lease_ok p i ob) \<and>
     (\<forall>t k. dict_get (active (coord p)) t = Some k \<longrightarrow> slot_ok p t k)"


lemma process_okI:
  assumes "coordinator_ok (coord p)"
    and "\<And>i ob. leases p i = Some ob \<Longrightarrow> lease_ok p i ob"
    and "\<And>t k. dict_get (active (coord p)) t = Some k \<Longrightarrow> slot_ok p t k"
  shows "process_ok p"
  using assms by (simp add: process_ok_def)

lemma process_okD:
  assumes "process_ok p"
  shows "coordinator_ok (coord p)"
    and "leases p i = Some ob \<Longrightarrow> lease_ok p i ob"
    and "dict_get (active (coord p)) t = Some k \<Longrightarrow> slot_ok p t k"
  using assms by (simp_all add: process_ok_def)

lemma initial_process_ok: "initial_process p \<Longrightarrow> process_ok p"
  by (simp add: initial_process_def process_ok_def)

lemma set_lease_simps [simp]:
  "coord (set_lease p i ob) = coord p"
  "leases (set_lease p i ob) j = (if j = i then Some ob else leases p j)"
  by (simp_all add: set_lease_def)

text \<open>A step that touches one lease and leaves the coordinator alone.\<close>

lemma process_ok_set_lease:
  assumes "process_ok p" "leases p i = Some ob"
    and "lease_thread (the_lease ob') = lease_thread (the_lease ob)"
    and "lease_ok p i ob'"
  shows "process_ok (set_lease p i ob')"
proof (rule process_okI)
  show "coordinator_ok (coord (set_lease p i ob'))"
    using process_okD(1) [OF assms(1)] by simp
  show "lease_ok (set_lease p i ob') j x" if "leases (set_lease p i ob') j = Some x" for j x
    using that process_okD(2) [OF assms(1)] assms(4)
    by (auto simp: lease_ok_def split: if_splits)
  show "slot_ok (set_lease p i ob') t k" if "dict_get (active (coord (set_lease p i ob'))) t = Some k" for t k
    using that process_okD(3) [OF assms(1), of t k] assms(2,3)
    by (auto simp: slot_ok_def)
qed

lemma process_ok_acquire:
  assumes p: "process_ok p" and acq: "acquire t (coord p) = (Inr l, c)"
  shows "process_ok (set_lease (p\<lparr>coord := c\<rparr>) (lease_token l) (fresh_lease l))" (is "process_ok ?q")
proof (rule process_okI)
  note l = acquire_Inr(3) [OF acq] and c = acquire_Inr(4) [OF acq]
  have free: "dict_get (active (coord p)) t = None"
    using acquire_Inr(1) [OF acq] by (simp add: busy_def dict_has_iff)
  show "coordinator_ok (coord ?q)"
    using acquire_ok [OF process_okD(1) [OF p] acq] by simp
  show "lease_ok ?q j x" if "leases ?q j = Some x" for j x
    using that process_okD(2) [OF p, of j x] free
    by (auto simp: l c lease_ok_def fresh_lease_def holds_def dict_get_set split: if_splits)
  show "slot_ok ?q u k" if "dict_get (active (coord ?q)) u = Some k" for u k
  proof (cases "u = t")
    case True
    then show ?thesis using that by (simp add: l c slot_ok_def fresh_lease_def dict_get_set)
  next
    case False
    then have "dict_get (active (coord p)) u = Some k" using that by (simp add: c dict_get_set)
    then have "slot_ok p u k" and "k < next_token (coord p)"
      using process_okD(1,3) [OF p] by (auto simp: coordinator_ok_def)
    then show ?thesis by (auto simp: l slot_ok_def)
  qed
qed

lemma process_ok_free:
  assumes p: "process_ok p" and i: "leases p i = Some ob" and n: "checked ob = Suc n"
    and c: "c = release_token (lease_thread (the_lease ob)) (lease_token (the_lease ob)) (coord p)"
  shows "process_ok (set_lease (p\<lparr>coord := c\<rparr>) i (ob\<lparr>checked := n, freed := Suc (freed ob)\<rparr>))"
    (is "process_ok ?q")
proof (rule process_okI)
  have ob: "\<not> running ob" "lease_token (the_lease ob) = i"
    using process_okD(2) [OF p i] n by (auto simp: lease_ok_def)
  have gone: "\<not> holds c (the_lease ob)" by (simp add: c holds_def release_token_active)
  show "coordinator_ok (coord ?q)"
    using release_token_ok [OF process_okD(1) [OF p]] by (simp add: c)
  show "lease_ok ?q j x" if "leases ?q j = Some x" for j x
  proof (cases "j = i")
    case True
    then show ?thesis using that process_okD(2) [OF p i] ob gone by (auto simp: lease_ok_def c)
  next
    case False
    then have "holds c (the_lease x) \<longleftrightarrow> holds (coord p) (the_lease x)"
      using that process_okD(2) [OF p, of j x] ob
      by (auto simp: c lease_ok_def holds_def release_token_active)
    then show ?thesis using False that process_okD(2) [OF p, of j x] by (auto simp: lease_ok_def c)
  qed
  show "slot_ok ?q u k" if "dict_get (active (coord ?q)) u = Some k" for u k
    using that process_okD(3) [OF p, of u k] i
    by (auto simp: c slot_ok_def release_token_active split: if_splits)
qed

lemma lease_step_ok:
  assumes p: "process_ok p" and st: "lease_step p q"
  shows "process_ok q"
  using st
proof (cases rule: lease_step.cases)
  case (step_acquire t l c)
  then show ?thesis using process_ok_acquire [OF p] by simp
next
  case (step_refused t e c)
  then show ?thesis using acquire_Inl [of t "coord p" e c] p by simp
next
  case (step_check i ob)
  have "lease_ok p i (ob\<lparr>checked := Suc (checked ob), running := False\<rparr>)"
    using step_check process_okD(2) [OF p, of i ob] by (auto simp: lease_ok_def holds_def)
  from process_ok_set_lease [OF p _ _ this] show ?thesis using step_check by simp
next
  case (step_free i ob n c)
  then show ?thesis using process_ok_free [OF p] by simp
next
  case (step_flag i ob n)
  have "lease_ok p i (ob\<lparr>freed := n, the_lease := (the_lease ob)\<lparr>lease_released := True\<rparr>\<rparr>)"
    using step_flag process_okD(2) [OF p, of i ob] by (auto simp: lease_ok_def holds_def)
  from process_ok_set_lease [OF p _ _ this] show ?thesis using step_flag by simp
next
  case (step_cancelled i ob n)
  have "lease_ok p i (ob\<lparr>freed := n\<rparr>)"
    using step_cancelled process_okD(2) [OF p, of i ob] by (auto simp: lease_ok_def holds_def)
  from process_ok_set_lease [OF p _ _ this] show ?thesis using step_cancelled by simp
qed

interpretation lease_system: transition_system initial_process lease_step process_ok
  by unfold_locales (auto intro: initial_process_ok lease_step_ok)


lemma reachable_lease: "lease_system.reachable p \<Longrightarrow> leases p i = Some ob \<Longrightarrow> lease_ok p i ob"
  by (rule process_okD(2) [OF lease_system.reachable_inv])

lemma max_concurrent_runs_step:
  assumes "lease_step p q"
  shows "max_concurrent_runs (coord q) = max_concurrent_runs (coord p)"
  using assms
proof (cases rule: lease_step.cases)
  case (step_acquire t l c)
  then show ?thesis using acquire_Inr(4) [of t "coord p" l c] by simp
next
  case (step_refused t e c)
  then show ?thesis using acquire_Inl [of t "coord p" e c] by simp
qed simp_all

definition running_leases :: "process \<Rightarrow> nat set" where
  "running_leases p = {i. \<exists>ob. leases p i = Some ob \<and> running ob}"

lemma running_leases_bound:
  assumes "process_ok p"
  shows "finite (running_leases p) \<and> int (card (running_leases p)) \<le> max_concurrent_runs (coord p)"
proof -
  let ?thread = "\<lambda>i. lease_thread (the_lease (the (leases p i)))"
  have own: "dict_get (active (coord p)) (?thread i) = Some i" if "i \<in> running_leases p" for i
    using that process_okD(2) [OF assms, of i] by (auto simp: running_leases_def lease_ok_def holds_def)
  have inj: "inj_on ?thread (running_leases p)"
    by (rule inj_onI) (metis own option.inject)
  have sub: "?thread ` running_leases p \<subseteq> set (dict_keys (active (coord p)))"
  proof
    fix t assume "t \<in> ?thread ` running_leases p"
    then have "dict_get (active (coord p)) t \<noteq> None" using own by auto
    then show "t \<in> set (dict_keys (active (coord p)))"
      by (simp add: dict_key_iff)
  qed
  have fin: "finite (running_leases p)"
    by (rule inj_on_finite [OF inj sub]) simp
  have "card (running_leases p) \<le> card (set (dict_keys (active (coord p))))"
    by (rule card_inj_on_le [OF inj sub]) simp
  also have "\<dots> \<le> length (active (coord p))"
    by (metis card_length length_map)
  finally have "int (card (running_leases p)) \<le> int (length (active (coord p)))" by simp
  then show ?thesis
    using fin process_okD(1) [OF assms] by (auto simp: coordinator_ok_def)
qed



text \<open>The slots taken when no call of \<open>release\<close> is under way are those of the running leases.\<close>

definition quiescent :: "process \<Rightarrow> bool" where
  "quiescent p \<longleftrightarrow> (\<forall>i ob. leases p i = Some ob \<longrightarrow> checked ob = 0)"

lemma slot_running:
  assumes p: "process_ok p" and q: "quiescent p"
  shows "dict_get (active (coord p)) t = Some k \<longleftrightarrow>
    (\<exists>ob. leases p k = Some ob \<and> running ob \<and> lease_thread (the_lease ob) = t)"
proof
  assume get: "dict_get (active (coord p)) t = Some k"
  then obtain ob where ob: "leases p k = Some ob" "lease_thread (the_lease ob) = t"
    using process_okD(3) [OF p] by (auto simp: slot_ok_def)
  then have "lease_ok p k ob" "checked ob = 0" using process_okD(2) [OF p] q by (auto simp: quiescent_def)
  moreover have "holds (coord p) (the_lease ob)"
    using get ob(2) \<open>lease_ok p k ob\<close> unfolding holds_def lease_ok_def by blast
  ultimately have "running ob" by (simp add: lease_ok_def)
  then show "\<exists>ob. leases p k = Some ob \<and> running ob \<and> lease_thread (the_lease ob) = t" using ob by blast
next
  assume "\<exists>ob. leases p k = Some ob \<and> running ob \<and> lease_thread (the_lease ob) = t"
  then show "dict_get (active (coord p)) t = Some k"
    using process_okD(2) [OF p] by (auto simp: lease_ok_def holds_def)
qed

lemma running_leases_active:
  assumes "process_ok p" "quiescent p"
  shows "running_leases p = snd ` set (active (coord p))"
proof -
  have "distinct (dict_keys (active (coord p)))"
    using process_okD(1) [OF assms(1)] by (simp add: coordinator_ok_def dict_wf_def)
  then have "k \<in> snd ` set (active (coord p)) \<longleftrightarrow> (\<exists>t. dict_get (active (coord p)) t = Some k)" for k
    by (force simp: map_of_eq_Some_iff)
  then show ?thesis
    unfolding slot_running [OF assms] running_leases_def by blast
qed

lemma card_running_leases:
  assumes p: "process_ok p" and q: "quiescent p"
  shows "int (card (running_leases p)) = active_runs (coord p)"
proof -
  let ?d = "active (coord p)"
  have "distinct (dict_keys ?d)" using process_okD(1) [OF p] by (simp add: coordinator_ok_def dict_wf_def)
  then have get: "(t, k) \<in> set ?d \<longleftrightarrow> dict_get ?d t = Some k" for t k by (simp add: map_of_eq_Some_iff)
  have "inj_on snd (set ?d)"
  proof (rule inj_onI)
    fix x y assume "x \<in> set ?d" "y \<in> set ?d" "snd x = snd y"
    then obtain t u k where x: "x = (t, k)" and y: "y = (u, k)" by (metis prod.collapse)
    then have "dict_get ?d t = Some k" "dict_get ?d u = Some k" using \<open>x \<in> set ?d\<close> \<open>y \<in> set ?d\<close> get by blast+
    then show "x = y" unfolding x y slot_running [OF p q] by auto
  qed
  then have "card (running_leases p) = card (set ?d)" by (simp add: running_leases_active [OF p q] card_image)
  also have "\<dots> = length ?d"
    using \<open>distinct (dict_keys ?d)\<close> by (simp add: distinct_card distinct_map)
  finally show ?thesis by (simp add: active_runs_def)
qed

text \<open>No step of another lease, and no step before its own release, takes the slot of a running lease.\<close>

lemma running_keeps_slot:
  assumes p: "process_ok p" and st: "lease_step p q" and j: "leases p j = Some ob" "running ob"
  shows "holds (coord q) (the_lease ob)"
proof -
  have ok: "holds (coord p) (the_lease ob)" "checked ob = 0" "lease_token (the_lease ob) = j"
    using process_okD(2) [OF p j(1)] j(2) by (auto simp: lease_ok_def)
  show ?thesis
    using st
  proof (cases rule: lease_step.cases)
    case (step_acquire t l c)
    have "\<not> busy (coord p) t" by (rule acquire_Inr(1) [OF step_acquire(2)])
    then have "t \<noteq> lease_thread (the_lease ob)" using ok(1) by (auto simp: busy_iff holds_def)
    then show ?thesis using ok(1) acquire_Inr(4) [OF step_acquire(2)] by (simp add: step_acquire(1) holds_def dict_get_set)
  next
    case (step_refused t e c)
    then show ?thesis using acquire_Inl [of t "coord p" e c] ok(1) by simp
  next
    case (step_free i ob' n c)
    then have "lease_token (the_lease ob') = i" "i \<noteq> j"
      using process_okD(2) [OF p, of i ob'] ok(2) j(1) by (auto simp: lease_ok_def)
    then show ?thesis using ok(1,3) step_free by (auto simp: holds_def release_token_active)
  qed (use ok in simp_all)
qed


section \<open>Properties\<close>

text \<open>A process that has let two runs in, for the examples.\<close>

definition demo_coordinator :: coordinator where
  "demo_coordinator = \<lparr>max_concurrent_runs = 2, active = [], next_token = 0\<rparr>"

definition demo_process :: process where
  "demo_process =
     \<lparr>coord = \<lparr>max_concurrent_runs = 2, active = [(''a'', 0), (''b'', 1)], next_token = 2\<rparr>,
      leases = [0 \<mapsto> fresh_lease \<lparr>lease_thread = ''a'', lease_token = 0, lease_released = False\<rparr>,
                1 \<mapsto> fresh_lease \<lparr>lease_thread = ''b'', lease_token = 1, lease_released = False\<rparr>]\<rparr>"

lemma demo_reachable: "lease_system.reachable demo_process"
proof -
  let ?p = "\<lparr>coord = demo_coordinator, leases = (\<lambda>_. None)\<rparr>"
  let ?la = "\<lparr>lease_thread = ''a'', lease_token = 0, lease_released = False\<rparr>"
  let ?lb = "\<lparr>lease_thread = ''b'', lease_token = 1, lease_released = False\<rparr>"
  let ?ca = "\<lparr>max_concurrent_runs = 2, active = [(''a'', 0)], next_token = 1\<rparr>"
  let ?cb = "\<lparr>max_concurrent_runs = 2, active = [(''a'', 0), (''b'', 1)], next_token = 2\<rparr>"
  let ?q = "set_lease (?p\<lparr>coord := ?ca\<rparr>) (lease_token ?la) (fresh_lease ?la)"
  have "lease_system.reachable ?p"
    by (rule lease_system.reach_init) (simp add: initial_process_def demo_coordinator_def coordinator_ok_def)
  moreover have a: "acquire ''a'' (coord ?p) = (Inr ?la, ?ca)"
    by (simp add: acquire_def demo_coordinator_def dict_has_def Let_def)
  ultimately have "lease_system.reachable ?q" by (intro lease_system.reach_step [OF _ step_acquire [OF a]])
  moreover have b: "acquire ''b'' (coord ?q) = (Inr ?lb, ?cb)"
    by (simp add: acquire_def dict_has_def Let_def)
  ultimately have "lease_system.reachable (set_lease (?q\<lparr>coord := ?cb\<rparr>) (lease_token ?lb) (fresh_lease ?lb))"
    by (intro lease_system.reach_step [OF _ step_acquire [OF b]])
  then show ?thesis by (simp add: set_lease_def demo_process_def)
qed

text \<open>
  C2: In every state reachable by any interleaving of acquisitions and releases, the leases that
  have not been released are at most \<open>max_concurrent_runs\<close>, no two of them are for one thread,
  and each holds the slot of its thread, so that a further \<open>acquire\<close> for the thread is refused.
\<close>

theorem runs_exclusive_and_bounded:
  assumes "lease_system.reachable p"
  shows "finite (running_leases p) \<and> int (card (running_leases p)) \<le> max_concurrent_runs (coord p) \<and>
    (\<forall>i ob. leases p i = Some ob \<and> running ob \<longrightarrow>
       acquire (lease_thread (the_lease ob)) (coord p) =
         (Inl (ThreadRunConflictError (conflict_message (lease_thread (the_lease ob)))), coord p) \<and>
       (\<forall>j ob'. leases p j = Some ob' \<and> running ob' \<and>
          lease_thread (the_lease ob') = lease_thread (the_lease ob) \<longrightarrow> j = i))"
proof -
  have p: "process_ok p" by (rule lease_system.reachable_inv [OF assms])
  have own: "dict_get (active (coord p)) (lease_thread (the_lease ob)) = Some i"
    if "leases p i = Some ob" "running ob" for i ob
    using process_okD(2) [OF p that(1)] that(2) by (auto simp: lease_ok_def holds_def)
  have refused: "acquire t (coord p) = (Inl (ThreadRunConflictError (conflict_message t)), coord p)"
    if "dict_get (active (coord p)) t = Some i" for t i
    using that by (simp add: acquire_def dict_has_iff)
  have uniq: "j = i" if "leases p i = Some ob" "running ob" "leases p j = Some ob'" "running ob'"
    "lease_thread (the_lease ob') = lease_thread (the_lease ob)" for i ob j ob'
    using own [OF that(1,2)] own [OF that(3,4)] that(5) by simp
  show ?thesis
  proof (intro conjI allI impI)
    show "finite (running_leases p)" "int (card (running_leases p)) \<le> max_concurrent_runs (coord p)"
      using running_leases_bound [OF p] by simp_all
    fix i ob assume i: "leases p i = Some ob \<and> running ob"
    show "acquire (lease_thread (the_lease ob)) (coord p) =
        (Inl (ThreadRunConflictError (conflict_message (lease_thread (the_lease ob)))), coord p)"
      by (rule refused [OF own [of i]]) (use i in simp_all)
    show "j = i" if "leases p j = Some ob' \<and> running ob' \<and> lease_thread (the_lease ob') = lease_thread (the_lease ob)"
      for j ob' using uniq [of i ob j ob'] i that by simp
  qed
qed

theorem runs_exclusive_and_bounded_witness:
  "int (card (running_leases demo_process)) \<le> 2 \<and>
     acquire ''b'' (coord demo_process) =
       (Inl (ThreadRunConflictError ''Thread b already has an active run''), coord demo_process)"
proof -
  have b: "leases demo_process 1 = Some (fresh_lease \<lparr>lease_thread = ''b'', lease_token = 1, lease_released = False\<rparr>)"
    and m: "max_concurrent_runs (coord demo_process) = 2"
    by (simp_all add: demo_process_def)
  note t = runs_exclusive_and_bounded [OF demo_reachable]
  have "acquire ''b'' (coord demo_process) =
      (Inl (ThreadRunConflictError (conflict_message ''b'')), coord demo_process)"
    using t [THEN conjunct2, THEN conjunct2, rule_format, OF conjI, OF b] by (simp add: fresh_lease_def)
  then show ?thesis using t m by (simp add: conflict_message_def)
qed

text \<open>
  No step of the system (another acquisition, another lease's late, repeated or cancelled
  release) takes the slot away from a lease whose own release has not begun.
\<close>

theorem running_lease_keeps_its_slot:
  assumes "lease_system.reachable p" "lease_step p q" "leases p j = Some ob" "running ob"
  shows "holds (coord q) (the_lease ob) \<and> busy (coord q) (lease_thread (the_lease ob))"
  using running_keeps_slot [OF lease_system.reachable_inv [OF assms(1)] assms(2-4)]
  by (simp add: busy_iff holds_def)

theorem running_lease_keeps_its_slot_witness:
  "\<exists>q. lease_step demo_process q \<and> busy (coord q) ''a'' \<and> \<not> running (the (leases q 1))"
proof -
  let ?b = "fresh_lease \<lparr>lease_thread = ''b'', lease_token = 1, lease_released = False\<rparr>"
  let ?q = "set_lease demo_process 1 (?b\<lparr>checked := Suc (checked ?b), running := False\<rparr>)"
  have st: "lease_step demo_process ?q"
    by (rule step_check) (simp_all add: demo_process_def fresh_lease_def)
  have "leases demo_process 0 = Some (fresh_lease \<lparr>lease_thread = ''a'', lease_token = 0, lease_released = False\<rparr>)"
    by (simp add: demo_process_def)
  from running_lease_keeps_its_slot [OF demo_reachable st this]
  have "busy (coord ?q) ''a''" by (simp add: fresh_lease_def)
  then show ?thesis using st by (intro exI [of _ ?q]) simp
qed

text \<open>
  No slot leaks: when no call of \<open>release\<close> is under way, a thread is refused exactly when
  one of its leases is still running, and \<open>active_runs\<close> is the number of running leases.
\<close>

theorem no_slot_leaks:
  assumes "lease_system.reachable p" "quiescent p"
  shows "(busy (coord p) t \<longleftrightarrow> (\<exists>i ob. leases p i = Some ob \<and> running ob \<and> lease_thread (the_lease ob) = t)) \<and>
    active_runs (coord p) = int (card (running_leases p))"
  using slot_running [OF lease_system.reachable_inv [OF assms(1)] assms(2)]
    card_running_leases [OF lease_system.reachable_inv [OF assms(1)] assms(2)]
  by (auto simp: busy_iff)

theorem no_slot_leaks_witness: "\<not> busy (coord demo_process) ''c'' \<and> card (running_leases demo_process) = 2"
proof -
  have "quiescent demo_process" by (auto simp: quiescent_def demo_process_def fresh_lease_def)
  note no_slot_leaks [OF demo_reachable this, of "''c''"]
  moreover have "active_runs (coord demo_process) = 2" by (simp add: active_runs_def demo_process_def)
  ultimately show ?thesis by (auto simp: demo_process_def fresh_lease_def split: if_splits)
qed

text \<open>
  The bracket of a run: after a granted \<open>acquire\<close> the same thread is refused without a
  change of state; the lease's release gives back the table of active runs exactly as it was,
  and releasing once more does nothing.
\<close>

theorem acquire_release_bracket:
  assumes "coordinator_ok c" "acquire t c = (Inr l, c')" "lease_release l c' = (l', c'')"
  shows "(\<exists>e. acquire t c' = (Inl e, c')) \<and> active_runs c' = active_runs c + 1 \<and>
    active c'' = active c \<and> lease_released l' \<and> lease_release l' c'' = (l', c'')"
proof -
  have "active_runs c' = active_runs c + 1"
    using acquire_Inr(1,4) [OF assms(2)] by (simp add: active_runs_def busy_def length_dict_set_fresh)
  moreover have "lease_released l'" using assms(3) acquire_Inr(3) [OF assms(2)] by (auto simp: lease_release_def)
  moreover have "active c'' = active c" using acquire_release_inverse [OF assms(1,2)] assms(3) by simp
  ultimately show ?thesis using gate.acq_exclusive [OF assms(1,2)] by (simp add: lease_release_def)
qed

theorem acquire_release_bracket_witness:
  "\<exists>l c' l' c''. acquire ''a'' demo_coordinator = (Inr l, c') \<and> lease_release l c' = (l', c'') \<and>
     active_runs c' = 1 \<and> active c'' = []"
proof -
  obtain l c' where a: "acquire ''a'' demo_coordinator = (Inr l, c')"
    by (simp add: acquire_def demo_coordinator_def dict_has_def Let_def)
  obtain l' c'' where r: "lease_release l c' = (l', c'')" by (cases "lease_release l c'")
  have "coordinator_ok demo_coordinator" by (simp add: coordinator_ok_def demo_coordinator_def)
  from acquire_release_bracket [OF this a r] a r show ?thesis
    by (auto simp: demo_coordinator_def active_runs_def)
qed

end
