(* ===== verification/ServerState.thy ===== *)
theory ServerState
  imports Execution ThreadStorage Coordination
begin

text \<open>
  The state that the routes work on. A handler reaches the thread store, the checkpoint saver
  and the graphs through their interfaces only, on an environment of any type; the run
  coordinator is a field of its own beside it. The environment of the server's defaults holds
  an \<open>InMemoryThreadStore\<close> and a \<open>BoundedInMemorySaver\<close>.
\<close>


section \<open>Parts of a state\<close>

definition on_part :: "('w \<Rightarrow> 's) \<Rightarrow> ('s \<Rightarrow> 'w \<Rightarrow> 'w) \<Rightarrow> ('s, 'e, 'a) op \<Rightarrow> ('w, 'e, 'a) op" where
  "on_part get_part set_part m w = (case m (get_part w) of (r, s) \<Rightarrow> (r, set_part s w))"

lemma wp_on_part:
  "wp (on_part get_part set_part m) Q w \<longleftrightarrow> wp m (\<lambda>r s. Q r (set_part s w)) (get_part w)"
  by (auto simp: wp_iff on_part_def case_prod_unfold split: prod.split)


section \<open>The interface of the thread store\<close>

record 'w store_ops =
  so_get_thread :: "string \<Rightarrow> ('w, exc, thread option) op"
  so_put_thread :: "thread \<Rightarrow> ('w, exc, unit) op"
  so_get_assistant_id :: "string \<Rightarrow> ('w, exc, string option) op"
  so_claim_assistant :: "string \<Rightarrow> string \<Rightarrow> ('w, exc, unit) op"
  so_delete_thread :: "string \<Rightarrow> ('w, exc, unit) op"


section \<open>The default environment\<close>

text \<open>The saver reads a monotonic clock twice in an operation, the store once in an access.\<close>

record 'c environment =
  env_store :: "'c memory_store"
  env_saver :: saver
  env_clock :: "nat \<Rightarrow> rat"
  env_ticks :: nat

definition on_store :: "('c memory_store, exc, 'a) op \<Rightarrow> ('c environment, exc, 'a) op" where
  "on_store m = on_part env_store (\<lambda>s w. w\<lparr>env_store := s\<rparr>) m"

definition on_saver :: "(rat \<Rightarrow> rat \<Rightarrow> (saver, exc, 'a) op) \<Rightarrow> ('c environment, exc, 'a) op" where
  "on_saver m w =
     (case m (env_clock w (env_ticks w)) (env_clock w (Suc (env_ticks w))) (env_saver w) of
        (r, s) \<Rightarrow> (r, w\<lparr>env_saver := s, env_ticks := Suc (Suc (env_ticks w))\<rparr>))"

definition memory_store_ops :: "'c storage_libs \<Rightarrow> 'c environment store_ops" where
  "memory_store_ops L =
     \<lparr>so_get_thread = (\<lambda>k. on_store (store_get_thread L k)),
      so_put_thread = (\<lambda>th. on_store (store_put_thread L th)),
      so_get_assistant_id = (\<lambda>k. on_store (store_get_assistant_id L k)),
      so_claim_assistant = (\<lambda>k a. on_store (store_claim_assistant L k a)),
      so_delete_thread = (\<lambda>k. on_store (store_delete_thread L k))\<rparr>"

definition bounded_saver_ops :: "parent_ops \<Rightarrow> checkpoint_config \<Rightarrow> 'c environment checkpointer_ops" where
  "bounded_saver_ops P cfg =
     \<lparr>cp_aget_tuple = (\<lambda>c. on_saver (\<lambda>now later. aget_tuple P cfg now later c)),
      cp_alist = (\<lambda>c f b n. on_saver (\<lambda>now later. alist P cfg now later c f b n)),
      cp_adelete_thread = (\<lambda>t. on_saver (\<lambda>_ _. adelete_thread P cfg (PStr t)))\<rparr>"

definition env_view :: "'c storage_libs \<Rightarrow> 'c environment \<Rightarrow> string \<Rightarrow> stored_thread option" where
  "env_view L w = view L (env_store w)"

definition env_ok :: "'c storage_libs \<Rightarrow> 'c environment \<Rightarrow> bool" where
  "env_ok L w \<longleftrightarrow> store_ok L (env_store w)"

lemma wp_on_store: "wp (on_store m) Q w \<longleftrightarrow> wp m (\<lambda>r s. Q r (w\<lparr>env_store := s\<rparr>)) (env_store w)"
  by (simp add: on_store_def wp_on_part)

lemma wp_on_saver:
  "wp (on_saver m) Q w \<longleftrightarrow>
     wp (m (env_clock w (env_ticks w)) (env_clock w (Suc (env_ticks w))))
       (\<lambda>r s. Q r (w\<lparr>env_saver := s, env_ticks := Suc (Suc (env_ticks w))\<rparr>)) (env_saver w)"
  by (auto simp: wp_iff on_saver_def case_prod_unfold split: prod.split)

lemma memory_store_ops_simps [simp]:
  "so_get_thread (memory_store_ops L) k = on_store (store_get_thread L k)"
  "so_put_thread (memory_store_ops L) th = on_store (store_put_thread L th)"
  "so_get_assistant_id (memory_store_ops L) k = on_store (store_get_assistant_id L k)"
  "so_claim_assistant (memory_store_ops L) k a = on_store (store_claim_assistant L k a)"
  "so_delete_thread (memory_store_ops L) k = on_store (store_delete_thread L k)"
  by (simp_all add: memory_store_ops_def)

lemma bounded_saver_ops_simps [simp]:
  "cp_aget_tuple (bounded_saver_ops P cfg) c = on_saver (\<lambda>now later. aget_tuple P cfg now later c)"
  "cp_alist (bounded_saver_ops P cfg) d f b n = on_saver (\<lambda>now later. alist P cfg now later d f b n)"
  "cp_adelete_thread (bounded_saver_ops P cfg) t = on_saver (\<lambda>_ _. adelete_thread P cfg (PStr t))"
  by (simp_all add: bounded_saver_ops_def)

interpretation default_store: thread_store
  "so_get_thread (memory_store_ops L)" "so_put_thread (memory_store_ops L)"
  "so_get_assistant_id (memory_store_ops L)" "so_claim_assistant (memory_store_ops L)"
  "so_delete_thread (memory_store_ops L)" "env_view L" "env_ok L" for L
  using memory.get_law [of L] memory.owner_law [of L] memory.put_law [of L] memory.claim_law [of L]
    memory.delete_law [of L]
  by unfold_locales (simp_all add: wp_on_store env_ok_def env_view_def)


section \<open>The server\<close>

record 'e server =
  sv_coordinator :: coordinator
  sv_env :: 'e

definition on_env :: "('e, exc, 'a) op \<Rightarrow> ('e server, exc, 'a) op" where
  "on_env m = on_part sv_env (\<lambda>w s. s\<lparr>sv_env := w\<rparr>) m"

definition on_coordinator :: "(coordinator, exc, 'a) op \<Rightarrow> ('e server, exc, 'a) op" where
  "on_coordinator m = on_part sv_coordinator (\<lambda>c s. s\<lparr>sv_coordinator := c\<rparr>) m"

lemma wp_on_env: "wp (on_env m) Q s \<longleftrightarrow> wp m (\<lambda>r w. Q r (s\<lparr>sv_env := w\<rparr>)) (sv_env s)"
  by (simp add: on_env_def wp_on_part)

lemma wp_on_coordinator:
  "wp (on_coordinator m) Q s \<longleftrightarrow> wp m (\<lambda>r c. Q r (s\<lparr>sv_coordinator := c\<rparr>)) (sv_coordinator s)"
  by (simp add: on_coordinator_def wp_on_part)

text \<open>
  \<open>await lease.release()\<close> as a statement. The lease lives for one request here; the effect of
  releasing it again, from the background task of a response, is \<open>Coordination.stale_release\<close>.
\<close>

definition release_op :: "run_lease \<Rightarrow> ('e server, exc, unit) op" where
  "release_op l = on_coordinator (modify_op (\<lambda>c. snd (lease_release l c)))"

text \<open>
  \<open>asyncio.timeout(seconds)\<close>: when the deadline has passed, the cancellation that reaches the
  awaited call leaves the block as \<open>TimeoutError\<close>. \<open>expired\<close> tells, from the state in which the
  call ends, whether it has passed; without a number of seconds there is no deadline.
\<close>

definition timeout_exc :: "bool \<Rightarrow> rat option \<Rightarrow> exc \<Rightarrow> exc" where
  "timeout_exc expired seconds e =
     (if seconds \<noteq> None \<and> expired \<and> e = CancelledError then TimeoutError else e)"

definition timeout_op :: "('w \<Rightarrow> bool) \<Rightarrow> rat option \<Rightarrow> ('w, exc, 'a) op \<Rightarrow> ('w, exc, 'a) op" where
  "timeout_op expired seconds m w =
     (case m w of
        (Inl e, w') \<Rightarrow> (Inl (timeout_exc (expired w') seconds e), w')
      | (Inr x, w') \<Rightarrow> (Inr x, w'))"

lemma wp_timeout:
  "wp (timeout_op expired seconds m) Q w \<longleftrightarrow>
     wp m (\<lambda>r w'. Q (case r of Inl e \<Rightarrow> Inl (timeout_exc (expired w') seconds e) | Inr x \<Rightarrow> Inr x) w') w"
  by (auto simp: wp_iff timeout_op_def case_prod_unfold split: sum.split prod.split)

text \<open>
  The bracket of the handlers: what runs under a lease, on any environment, cannot touch the
  coordinator, so after the release it is busy exactly where it was.
\<close>

definition coordinator_kept :: "coordinator \<Rightarrow> coordinator \<Rightarrow> bool" where
  "coordinator_kept c c' \<longleftrightarrow>
     (coordinator_ok c \<longrightarrow> coordinator_ok c') \<and> active c' = active c \<and>
     max_concurrent_runs c' = max_concurrent_runs c"

definition frames :: "('e server, exc, 'a) op \<Rightarrow> bool" where
  "frames m \<longleftrightarrow> (\<forall>s. sv_coordinator (snd (m s)) = sv_coordinator s)"

definition keeps_coordinator :: "('e server, exc, 'a) op \<Rightarrow> bool" where
  "keeps_coordinator m \<longleftrightarrow> (\<forall>s. coordinator_kept (sv_coordinator s) (sv_coordinator (snd (m s))))"

named_theorems frame_intros \<open>operations that leave the coordinator as it is\<close>

lemma coordinator_kept_refl [simp]: "coordinator_kept c c"
  by (simp add: coordinator_kept_def)

lemma coordinator_kept_trans: "coordinator_kept c d \<Longrightarrow> coordinator_kept d e \<Longrightarrow> coordinator_kept c e"
  by (simp add: coordinator_kept_def)

lemma frames_keeps: "frames m \<Longrightarrow> keeps_coordinator m"
  by (simp add: frames_def keeps_coordinator_def)

lemma frames_basic [frame_intros]:
  "frames (ret x)" "frames (raise e)" "frames (pure_op r)" "frames (raise_if c e)" "frames (read_op f)" "frames (on_env m)"
  by (simp_all add: frames_def ret_def raise_def pure_op_def raise_if_def read_op_def on_env_def on_part_def
      case_prod_unfold)

lemma frames_bind [frame_intros]: "frames m \<Longrightarrow> (\<And>x. frames (k x)) \<Longrightarrow> frames (bind_op m k)"
  by (auto simp: frames_def bind_op_def case_prod_unfold split: sum.split)

lemma frames_try [frame_intros]: "frames m \<Longrightarrow> (\<And>e k. h e = Some k \<Longrightarrow> frames k) \<Longrightarrow> frames (try_op m h)"
  by (auto simp: frames_def try_op_def case_prod_unfold split: sum.split option.split)

lemma frames_if [frame_intros]: "(c \<Longrightarrow> frames m) \<Longrightarrow> (\<not> c \<Longrightarrow> frames n) \<Longrightarrow> frames (if c then m else n)"
  by simp

lemma keeps_bind:
  assumes "keeps_coordinator m" "\<And>x. keeps_coordinator (k x)"
  shows "keeps_coordinator (bind_op m k)"
  unfolding keeps_coordinator_def
proof
  fix s
  obtain r t where m: "m s = (r, t)" by (cases "m s")
  have t: "coordinator_kept (sv_coordinator s) (sv_coordinator t)"
    using assms(1) m by (metis keeps_coordinator_def snd_conv)
  show "coordinator_kept (sv_coordinator s) (sv_coordinator (snd (bind_op m k s)))"
  proof (cases r)
    case (Inr x)
    have "coordinator_kept (sv_coordinator t) (sv_coordinator (snd (k x t)))"
      using assms(2) by (simp add: keeps_coordinator_def)
    then show ?thesis using coordinator_kept_trans [OF t] m Inr by (simp add: bind_op_def)
  qed (use m t in \<open>simp add: bind_op_def\<close>)
qed

lemma keeps_if: "keeps_coordinator m \<Longrightarrow> keeps_coordinator n \<Longrightarrow> keeps_coordinator (if c then m else n)"
  by simp

text \<open>\<open>_acquire_mutation_lease\<close> and \<open>_acquire_run_lease\<close> of the route modules are the same code.\<close>

definition acquire_lease :: "string \<Rightarrow> ('e server, exc, run_lease) op" where
  "acquire_lease t =
     try_op (on_coordinator (acquire t)) (\<lambda>e.
       case e of
         ThreadRunConflictError m \<Rightarrow> Some (raise (HTTPException 409 m))
       | RunCapacityError m \<Rightarrow> Some (raise (HTTPException 429 m))
       | _ \<Rightarrow> None)"

lemma acquire_lease_cases:
  obtains (conflict) "busy (sv_coordinator s) t" "acquire_lease t s = (Inl (HTTPException 409 (conflict_message t)), s)"
  | (full) "\<not> busy (sv_coordinator s) t"
      "int (length (active (sv_coordinator s))) \<ge> max_concurrent_runs (sv_coordinator s)"
      "acquire_lease t s = (Inl (HTTPException 429 ''Concurrent run capacity is full''), s)"
  | (granted) l c' where "\<not> busy (sv_coordinator s) t" "acquire t (sv_coordinator s) = (Inr l, c')"
      "acquire_lease t s = (Inr l, s\<lparr>sv_coordinator := c'\<rparr>)"
  by (cases rule: acquire_cases [of "sv_coordinator s" t])
    (auto simp: acquire_lease_def try_op_def on_coordinator_def on_part_def raise_def)

lemma release_op_eq: "release_op l s = (Inr (), s\<lparr>sv_coordinator := snd (lease_release l (sv_coordinator s))\<rparr>)"
  by (simp add: release_op_def on_coordinator_def on_part_def modify_op_def)

lemma acquire_release_kept:
  assumes "acquire t c = (Inr l, c')"
  shows "coordinator_kept c (snd (lease_release l c'))"
proof -
  have "active (snd (lease_release l c')) = active c"
    using acquire_Inr [OF assms]
    by (simp add: lease_release_def release_token_def dict_get_set AList.delete_update_same dict_pop_absent busy_def)
  moreover have "coordinator_ok (snd (lease_release l c'))" if "coordinator_ok c"
    by (rule lease_release_ok [OF acquire_ok [OF that assms]])
  moreover have "max_concurrent_runs (snd (lease_release l c')) = max_concurrent_runs c"
    using acquire_Inr(4) [OF assms] by (simp add: lease_release_def)
  ultimately show ?thesis by (simp add: coordinator_kept_def)
qed

lemma framesD: "frames m \<Longrightarrow> m s = (r, t) \<Longrightarrow> sv_coordinator t = sv_coordinator s"
  by (metis frames_def snd_conv)

definition with_lease :: "string \<Rightarrow> ('e server, exc, 'a) op \<Rightarrow> ('e server, exc, 'a) op" where
  "with_lease t body = bind_op (acquire_lease t) (\<lambda>l. finally_op body (release_op l))"

lemma with_lease_granted:
  assumes "acquire t (sv_coordinator s) = (Inr l, c')" "acquire_lease t s = (Inr l, s\<lparr>sv_coordinator := c'\<rparr>)"
    and "body (s\<lparr>sv_coordinator := c'\<rparr>) = (q, u)" "frames body"
  shows "with_lease t body s = (q, u\<lparr>sv_coordinator := snd (lease_release l c')\<rparr>)"
proof -
  have "sv_coordinator u = c'" using framesD [OF assms(4,3)] by simp
  then show ?thesis
    by (simp add: with_lease_def bind_op_def assms(2) finally_op_def assms(3) release_op_eq)
qed

lemma with_lease_keeps:
  assumes "frames body"
  shows "keeps_coordinator (with_lease t body)"
  unfolding keeps_coordinator_def
proof
  fix s :: "'a server"
  show "coordinator_kept (sv_coordinator s) (sv_coordinator (snd (with_lease t body s)))"
  proof (cases rule: acquire_lease_cases [of s t])
    case (granted l c')
    obtain q u where "body (s\<lparr>sv_coordinator := c'\<rparr>) = (q, u)" by (cases "body (s\<lparr>sv_coordinator := c'\<rparr>)")
    from with_lease_granted [OF granted(2,3) this assms] acquire_release_kept [OF granted(2)] show ?thesis by simp
  qed (simp_all add: with_lease_def bind_op_def)
qed

text \<open>A thread that is busy: the conflict is the answer and nothing of the body happens.\<close>

lemma with_lease_busy:
  "busy (sv_coordinator s) t \<Longrightarrow> with_lease t body s = (Inl (HTTPException 409 (conflict_message t)), s)"
  by (cases rule: acquire_lease_cases [of s t]) (simp_all add: with_lease_def bind_op_def)

end
