(* ===== verification/Streaming.thy ===== *)
theory Streaming
  imports ServerState
begin

text \<open>
  \<open>streaming.py\<close>: Server-Sent Events and the events of a run. \<open>json.dumps\<close> is modelled as the
  code calls it (ASCII only, compact separators, \<open>default=str\<close>); the decimal notation of a float
  and \<open>str\<close> of an object are parameters. A generator is the list of what it yields with the
  exception it ends with, if any; a consumer that closes it early, and a cancellation, are
  streams of the graph that end with \<open>CancelledError\<close>.
\<close>


section \<open>JSON\<close>

record text_libs =
  float_repr :: "rat \<Rightarrow> string"
  object_str :: "(string \<times> pyval) list \<Rightarrow> string"
  py_str :: "pyval \<Rightarrow> string"

definition hex_digit :: "nat \<Rightarrow> char" where
  "hex_digit n = (if n < 10 then char_of (48 + n) else char_of (87 + n))"

definition plain_ascii :: "char \<Rightarrow> bool" where
  "plain_ascii c \<longleftrightarrow> 32 \<le> (of_char c :: nat) \<and> (of_char c :: nat) \<le> 126"

definition json_char :: "char \<Rightarrow> string" where
  "json_char c =
     (let n = of_char c :: nat in
      if n = 34 then [char_of (92 :: nat), c]
      else if n = 92 then [c, c]
      else if n = 8 then [char_of (92 :: nat), CHR ''b'']
      else if n = 9 then [char_of (92 :: nat), CHR ''t'']
      else if n = 10 then [char_of (92 :: nat), CHR ''n'']
      else if n = 12 then [char_of (92 :: nat), CHR ''f'']
      else if n = 13 then [char_of (92 :: nat), CHR ''r'']
      else if plain_ascii c then [c]
      else char_of (92 :: nat) # ''u00'' @ [hex_digit (n div 16), hex_digit (n mod 16)])"

definition json_string :: "string \<Rightarrow> string" where
  "json_string s = char_of (34 :: nat) # concat (map json_char s) @ [char_of (34 :: nat)]"

fun nat_str :: "nat \<Rightarrow> string" where
  "nat_str n = (if n < 10 then [char_of (48 + n)] else nat_str (n div 10) @ [char_of (48 + n mod 10)])"

declare nat_str.simps [simp del]

definition int_str :: "int \<Rightarrow> string" where
  "int_str i = (if i < 0 then CHR ''-'' # nat_str (nat (- i)) else nat_str (nat i))"

definition float_str :: "text_libs \<Rightarrow> pyfloat \<Rightarrow> string" where
  "float_str T f = (case f of Fin q \<Rightarrow> float_repr T q | PosInf \<Rightarrow> ''Infinity'' | NegInf \<Rightarrow> ''-Infinity'' | NaN \<Rightarrow> ''NaN'')"

definition bool_str :: "bool \<Rightarrow> string" where
  "bool_str b = (if b then ''true'' else ''false'')"

definition json_key :: "text_libs \<Rightarrow> pyval \<Rightarrow> exc + string" where
  "json_key T k =
     (case k of
        PStr s \<Rightarrow> Inr (json_string s)
      | PFloat f \<Rightarrow> Inr (json_string (float_str T f))
      | PBool b \<Rightarrow> Inr (json_string (bool_str b))
      | PNone \<Rightarrow> Inr (json_string ''null'')
      | PInt i \<Rightarrow> Inr (json_string (int_str i))
      | _ \<Rightarrow> Inl (TypeError ''keys must be str, int, float, bool or None''))"

fun collect :: "('e + 'a) list \<Rightarrow> 'e + 'a list" where
  "collect [] = Inr []"
| "collect (r # rs) = bind_sum r (\<lambda>x. bind_sum (collect rs) (\<lambda>xs. Inr (x # xs)))"

fun json_dumps :: "text_libs \<Rightarrow> pyval \<Rightarrow> exc + string" where
  "json_dumps T PNone = Inr ''null''"
| "json_dumps T (PBool b) = Inr (bool_str b)"
| "json_dumps T (PInt i) = Inr (int_str i)"
| "json_dumps T (PFloat f) = Inr (float_str T f)"
| "json_dumps T (PStr s) = Inr (json_string s)"
| "json_dumps T (PList vs) =
     bind_sum (collect (map (json_dumps T) vs)) (\<lambda>js. Inr (''['' @ join_strings '','' js @ '']''))"
| "json_dumps T (PTuple vs) =
     bind_sum (collect (map (json_dumps T) vs)) (\<lambda>js. Inr (''['' @ join_strings '','' js @ '']''))"
| "json_dumps T (PDict d) =
     bind_sum (collect (map (\<lambda>(k, v). bind_sum (json_key T k) (\<lambda>jk.
         bind_sum (json_dumps T v) (\<lambda>jv. Inr (jk @ '':'' @ jv)))) d)) (\<lambda>js.
       Inr (''{'' @ join_strings '','' js @ ''}''))"
| "json_dumps T (PObj attrs) = Inr (json_string (object_str T attrs))"

definition newline :: string where
  "newline = [char_of (10 :: nat)]"

definition format_sse_event :: "text_libs \<Rightarrow> string \<Rightarrow> pyval \<Rightarrow> exc + string" where
  "format_sse_event T event data =
     bind_sum (json_dumps T data) (\<lambda>json_data.
       Inr (''event: '' @ event @ newline @ ''data: '' @ json_data @ newline @ newline))"


section \<open>Messages and stream items\<close>

definition str_keys :: "text_libs \<Rightarrow> pydict \<Rightarrow> pydict" where
  "str_keys T d = fold (\<lambda>(k, v) acc. sset acc (case k of PStr s \<Rightarrow> s | _ \<Rightarrow> py_str T k) v) d []"

definition serialize_message :: "text_libs \<Rightarrow> string \<Rightarrow> pyval \<Rightarrow> pydict option" where
  "serialize_message T fresh_uuid message =
     (case message of
        PDict d \<Rightarrow> Some (str_keys T d)
      | _ \<Rightarrow>
          (let content = getattr_or message ''content'' (PStr []);
               message_type = getattr_or message ''type'' PNone;
               message_id = getattr_or message ''id'' PNone
           in if \<not> truthy content then None
              else Some [(PStr ''type'', if is_str message_type then message_type else PStr ''message''),
                         (PStr ''content'', content),
                         (PStr ''id'', if truthy message_id then message_id else PStr fresh_uuid)]))"

definition message_event_payload ::
  "text_libs \<Rightarrow> string \<Rightarrow> string \<Rightarrow> pyval \<Rightarrow> pydict option \<Rightarrow> pyval option" where
  "message_event_payload T fresh_uuid assistant_id message md =
     (case serialize_message T fresh_uuid message of
        None \<Rightarrow> None
      | Some serialized \<Rightarrow>
          (let d = (case md of None \<Rightarrow> [] | Some d \<Rightarrow> d);
               d = dict_setdefault d (PStr ''langgraph_step'') (PInt 1);
               d = dict_setdefault d (PStr ''langgraph_node'') (PStr assistant_id)
           in Some (PList [PDict serialized, PDict d])))"

definition known_modes :: "string list" where
  "known_modes = [''values'', ''updates'', ''messages'', ''custom'', ''debug'']"

definition normalize_native_stream_item :: "pyval \<Rightarrow> string list \<Rightarrow> exc + string \<times> pyval" where
  "normalize_native_stream_item item modes =
     (case item of
        PTuple [PStr m, x] \<Rightarrow> if m \<in> set known_modes then Inr (m, x)
                              else (case modes of [] \<Rightarrow> Inl (LookupError ''list index out of range'') | d # _ \<Rightarrow> Inr (d, item))
      | _ \<Rightarrow> (case modes of [] \<Rightarrow> Inl (LookupError ''list index out of range'') | d # _ \<Rightarrow> Inr (d, item)))"

definition native_modes :: "string list \<Rightarrow> string list" where
  "native_modes modes =
     dict_keys (fold (\<lambda>m d. dict_set d m ()) (map (\<lambda>m. if m = ''messages-tuple'' then ''messages'' else m) modes) [])"

text \<open>What one item of the graph's stream makes the generator yield: nothing or an event.\<close>

definition event_of_item ::
  "text_libs \<Rightarrow> string \<Rightarrow> 'w assistant_config \<Rightarrow> string list \<Rightarrow> pyval \<Rightarrow> exc + string option" where
  "event_of_item T fresh_uuid assistant modes raw_item =
     bind_sum (normalize_native_stream_item raw_item modes) (\<lambda>(mode, item).
       if mode = ''messages''
       then (let (message, md) = (case item of
                   PTuple [m, PDict d] \<Rightarrow> (m, Some d) | PTuple [m, _] \<Rightarrow> (m, None) | _ \<Rightarrow> (item, None))
             in case message_event_payload T fresh_uuid (ac_assistant_id assistant) message md of
                  None \<Rightarrow> Inr None
                | Some payload \<Rightarrow> bind_sum (format_sse_event T ''messages'' payload) (\<lambda>e. Inr (Some e)))
       else (case (mode = ''values'', item) of
               (True, PDict d) \<Rightarrow>
                 bind_sum (case ac_output_transformer assistant of
                             None \<Rightarrow> Inr (str_keys T d) | Some f \<Rightarrow> f (str_keys T d)) (\<lambda>transformed.
                 bind_sum (format_sse_event T ''values'' (PDict transformed)) (\<lambda>e. Inr (Some e)))
             | _ \<Rightarrow>
                 if mode \<in> {''updates'', ''custom'', ''debug''}
                 then bind_sum (format_sse_event T mode item) (\<lambda>e. Inr (Some e))
                 else Inr None))"

text \<open>
  The events of the items; an item that cannot be turned into an event ends the stream in the
  state that the graph has left it in.
\<close>

fun events_of_items ::
  "text_libs \<Rightarrow> (nat \<Rightarrow> string) \<Rightarrow> 'w assistant_config \<Rightarrow> string list \<Rightarrow> (pyval \<times> 'w) list \<Rightarrow>
     string list \<times> (exc \<times> 'w) option" where
  "events_of_items T uuids assistant modes [] = ([], None)"
| "events_of_items T uuids assistant modes ((x, w) # xs) =
     (case event_of_item T (uuids 0) assistant modes x of
        Inl e \<Rightarrow> ([], Some (e, w))
      | Inr ev \<Rightarrow>
          (case events_of_items T (\<lambda>n. uuids (Suc n)) assistant modes xs of
             (evs, failure) \<Rightarrow> ((case ev of None \<Rightarrow> evs | Some e \<Rightarrow> e # evs), failure)))"

definition stream_native_graph ::
  "text_libs \<Rightarrow> (config_model \<Rightarrow> pydict) \<Rightarrow> (nat \<Rightarrow> string) \<Rightarrow> 'w graph_ops \<Rightarrow> 'w assistant_config \<Rightarrow> pydict \<Rightarrow>
     string \<Rightarrow> string list \<Rightarrow> config_model option \<Rightarrow> string option \<Rightarrow> 'w \<Rightarrow> string list \<times> exc option \<times> 'w" where
  "stream_native_graph T dump uuids graph assistant payload t modes request_config checkpoint_id w =
     (let nmodes = native_modes modes in
      case build_runnable_config dump t (ac_assistant_id assistant) request_config checkpoint_id of
        Inl e \<Rightarrow> ([], Some e, w)
      | Inr rc \<Rightarrow>
          (case g_astream graph of
             None \<Rightarrow> ([], Some (OtherError ''AttributeError''), w)
           | Some astream \<Rightarrow>
               (case astream payload rc nmodes w of (items, ending, w') \<Rightarrow>
                  (case events_of_items T uuids assistant nmodes items of
                     (evs, None) \<Rightarrow> (evs, ending, w')
                   | (evs, Some (e, w_item)) \<Rightarrow> (evs, Some e, w_item)))))"


section \<open>The response stream\<close>

definition set_thread_status :: "'w store_ops \<Rightarrow> datetime \<Rightarrow> string \<Rightarrow> string \<Rightarrow> ('w, exc, unit) op" where
  "set_thread_status S now t status =
     bind_op (so_get_thread S t) (\<lambda>th.
       case th of
         None \<Rightarrow> ret ()
       | Some th \<Rightarrow> so_put_thread S (th\<lparr>th_status := status, th_updated_at := now\<rparr>))"

definition metadata_data :: "string \<Rightarrow> pyval" where
  "metadata_data run_id = PDict [(PStr ''run_id'', PStr run_id), (PStr ''attempt'', PInt 1)]"

definition capacity_data :: pyval where
  "capacity_data = PDict [(PStr ''error'', PStr ''Checkpoint capacity exceeded''),
     (PStr ''code'', PStr ''CHECKPOINT_CAPACITY_EXCEEDED'')]"

definition internal_error_data :: pyval where
  "internal_error_data = PDict [(PStr ''error'', PStr ''Graph execution failed''),
     (PStr ''code'', PStr ''INTERNAL_ERROR'')]"

text \<open>An event whose data the server made: strings and numbers only, so it always encodes.\<close>

definition server_event :: "text_libs \<Rightarrow> string \<Rightarrow> pyval \<Rightarrow> string" where
  "server_event T event data = (case format_sse_event T event data of Inl _ \<Rightarrow> [] | Inr s \<Rightarrow> s)"

text \<open>The last event of a run and the exception that leaves the \<open>try\<close> statement.\<close>

definition closing :: "text_libs \<Rightarrow> exc option \<Rightarrow> string list \<times> exc option" where
  "closing T ending =
     (case ending of
        None \<Rightarrow> ([server_event T ''end'' PNone], None)
      | Some CancelledError \<Rightarrow> ([], Some CancelledError)
      | Some (CheckpointCapacityError _) \<Rightarrow> ([server_event T ''error'' capacity_data], None)
      | Some _ \<Rightarrow> ([server_event T ''error'' internal_error_data], None))"

text \<open>The body of the \<open>try\<close> statement up to the event \<open>end\<close>.\<close>

definition run_body ::
  "text_libs \<Rightarrow> (config_model \<Rightarrow> pydict) \<Rightarrow> (nat \<Rightarrow> string) \<Rightarrow> 'w assistant_config \<Rightarrow> pydict \<Rightarrow> string \<Rightarrow>
     'w graph_ops \<Rightarrow> string list \<Rightarrow> config_model option \<Rightarrow> string option \<Rightarrow> 'w \<Rightarrow> string list \<times> exc option \<times> 'w" where
  "run_body T dump uuids assistant input_data t graph modes request_config checkpoint_id w =
     (case prepare_input assistant input_data of
        Inl e \<Rightarrow> ([], Some e, w)
      | Inr payload \<Rightarrow>
          stream_native_graph T dump (\<lambda>n. uuids (Suc n)) graph assistant payload t modes request_config checkpoint_id w)"

definition stream_graph_response ::
  "text_libs \<Rightarrow> (config_model \<Rightarrow> pydict) \<Rightarrow> (nat \<Rightarrow> string) \<Rightarrow> (nat \<Rightarrow> datetime) \<Rightarrow> 'w store_ops \<Rightarrow>
     'w assistant_config \<Rightarrow> pydict \<Rightarrow> string \<Rightarrow> 'w graph_ops \<Rightarrow> string list option \<Rightarrow> config_model option \<Rightarrow>
     string option \<Rightarrow> 'w \<Rightarrow> string list \<times> exc option \<times> 'w" where
  "stream_graph_response T dump uuids now S assistant input_data t graph stream_mode request_config checkpoint_id w =
     (let modes = (case stream_mode of None \<Rightarrow> [''values''] | Some [] \<Rightarrow> [''values''] | Some ms \<Rightarrow> ms);
          started = server_event T ''metadata'' (metadata_data (uuids 0)) in
      case set_thread_status S (now 0) t ''busy'' w of
        (Inl e, w) \<Rightarrow> ([started], Some e, w)
      | (Inr _, w) \<Rightarrow>
          (case run_body T dump uuids assistant input_data t graph modes request_config checkpoint_id w of
             (events, ending, w) \<Rightarrow>
               (case closing T ending of
                  (last_events, left) \<Rightarrow>
                    (case set_thread_status S (now 1) t ''idle'' w of
                       (Inl e, w) \<Rightarrow> (started # events @ last_events, Some e, w)
                     | (Inr _, w) \<Rightarrow> (started # events @ last_events, left, w)))))"


section \<open>JSON text is printable ASCII\<close>

definition text_libs_ok :: "text_libs \<Rightarrow> bool" where
  "text_libs_ok T \<longleftrightarrow> (\<forall>q. list_all plain_ascii (float_repr T q))"

lemma plain_ascii_of_nat: "32 \<le> n \<Longrightarrow> n \<le> 126 \<Longrightarrow> plain_ascii (char_of n)" for n :: nat
  by (simp add: plain_ascii_def)

lemma hex_digit_ascii: "n < 16 \<Longrightarrow> plain_ascii (hex_digit n)"
  by (simp add: hex_digit_def plain_ascii_of_nat)

lemma json_char_ascii: "list_all plain_ascii (json_char c)"
proof -
  have "(of_char c :: nat) < 256" by simp
  then have "(of_char c :: nat) div 16 < 16" by (simp add: less_mult_imp_div_less)
  then show ?thesis
    by (simp add: json_char_def Let_def hex_digit_ascii plain_ascii_of_nat) (auto simp: plain_ascii_def)
qed

lemma json_string_ascii: "list_all plain_ascii (json_string s)"
  using json_char_ascii by (simp add: json_string_def plain_ascii_of_nat list_all_iff)

lemma nat_str_ascii: "list_all plain_ascii (nat_str n)"
proof (induction n rule: nat_str.induct)
  case (1 n)
  then show ?case by (subst nat_str.simps) (simp add: plain_ascii_of_nat)
qed

lemma int_str_ascii: "list_all plain_ascii (int_str i)"
  using nat_str_ascii by (simp add: int_str_def) (simp add: plain_ascii_def)

lemma float_str_ascii: "text_libs_ok T \<Longrightarrow> list_all plain_ascii (float_str T f)"
  by (cases f) (simp_all add: float_str_def text_libs_ok_def, (simp add: plain_ascii_def)+)

lemma bool_str_ascii: "list_all plain_ascii (bool_str b)"
  by (simp add: bool_str_def) (simp add: plain_ascii_def)

lemma json_key_ascii: "json_key T k = Inr j \<Longrightarrow> list_all plain_ascii j"
  by (auto simp: json_key_def json_string_ascii split: pyval.splits)

lemma collect_ascii: "collect rs = Inr xs \<Longrightarrow> (\<And>x. Inr x \<in> set rs \<Longrightarrow> list_all p x) \<Longrightarrow> x \<in> set xs \<Longrightarrow> list_all p x"
  by (induction rs arbitrary: xs) (auto simp: bind_sum_eq_Inr)

lemma join_ascii: "(\<And>x. x \<in> set xs \<Longrightarrow> list_all p x) \<Longrightarrow> list_all p sep \<Longrightarrow> list_all p (join_strings sep xs)"
  by (cases xs) (auto simp: join_strings_def list_all_iff)

lemma bracketed_ascii:
  "(\<And>x. x \<in> set js \<Longrightarrow> list_all plain_ascii x) \<Longrightarrow> plain_ascii l \<Longrightarrow> plain_ascii r \<Longrightarrow>
     list_all plain_ascii (l # join_strings '','' js @ [r])"
  using join_ascii [of js plain_ascii "'',''"] by (simp add: plain_ascii_def)

lemma punctuation_ascii [simp]:
  "plain_ascii (CHR ''['')" "plain_ascii (CHR '']'')" "plain_ascii (CHR ''{'')" "plain_ascii (CHR ''}'')"
  "plain_ascii (CHR '':'')"
  by (simp_all add: plain_ascii_def)

lemma json_dumps_ascii: "text_libs_ok T \<Longrightarrow> json_dumps T v = Inr j \<Longrightarrow> list_all plain_ascii j"
proof (induction T v arbitrary: j rule: json_dumps.induct)
  case (1 T)
  then show ?case by (auto simp: plain_ascii_def)
next
  case (6 T vs)
  then obtain js where js: "collect (map (json_dumps T) vs) = Inr js" "j = CHR ''['' # join_strings '','' js @ '']''"
    by (auto simp: bind_sum_eq_Inr)
  have "list_all plain_ascii x" if "x \<in> set js" for x
    by (rule collect_ascii [OF js(1) _ that]) (use 6 in force)
  then show ?case unfolding js(2) by (rule bracketed_ascii) simp_all
next
  case (7 T vs)
  then obtain js where js: "collect (map (json_dumps T) vs) = Inr js" "j = CHR ''['' # join_strings '','' js @ '']''"
    by (auto simp: bind_sum_eq_Inr)
  have "list_all plain_ascii x" if "x \<in> set js" for x
    by (rule collect_ascii [OF js(1) _ that]) (use 7 in force)
  then show ?case unfolding js(2) by (rule bracketed_ascii) simp_all
next
  case (8 T d)
  let ?f = "\<lambda>(k, v). bind_sum (json_key T k) (\<lambda>jk. bind_sum (json_dumps T v) (\<lambda>jv. Inr (jk @ '':'' @ jv)))"
  obtain js where js: "collect (map ?f d) = Inr js" "j = CHR ''{'' # join_strings '','' js @ ''}''"
    using 8 by (auto simp: bind_sum_eq_Inr)
  have item: "list_all plain_ascii x" if "(k, v) \<in> set d" "?f (k, v) = Inr x" for k v x
    using that 8 json_key_ascii by (fastforce simp: bind_sum_eq_Inr)
  have "list_all plain_ascii x" if "x \<in> set js" for x
    by (rule collect_ascii [OF js(1) _ that]) (use item in force)
  then show ?case unfolding js(2) by (rule bracketed_ascii) simp_all
qed (auto simp: bool_str_ascii int_str_ascii json_string_ascii float_str_ascii)


section \<open>Reading an event stream\<close>

text \<open>
  A client's side of Server-Sent Events: lines end with LF, CR or CRLF; a line is a field name,
  a colon and a value with one optional leading space; an empty line dispatches the event.
\<close>

definition is_lf :: "char \<Rightarrow> bool" where
  "is_lf c \<longleftrightarrow> (of_char c :: nat) = 10"

definition is_cr :: "char \<Rightarrow> bool" where
  "is_cr c \<longleftrightarrow> (of_char c :: nat) = 13"

definition skip_lf :: "string \<Rightarrow> string" where
  "skip_lf s = (case s of c # t \<Rightarrow> if is_lf c then t else s | [] \<Rightarrow> [])"

lemma length_skip_lf: "length (skip_lf s) \<le> length s"
  by (cases s) (simp_all add: skip_lf_def)

function sse_lines :: "string \<Rightarrow> string list" where
  "sse_lines [] = [[]]"
| "sse_lines (c # s) =
     (if is_lf c then [] # sse_lines s
      else if is_cr c then [] # sse_lines (skip_lf s)
      else (case sse_lines s of l # ls \<Rightarrow> (c # l) # ls | [] \<Rightarrow> [[c]]))"
  by pat_completeness auto
termination by (relation "measure length") (auto intro: le_imp_less_Suc length_skip_lf)

definition sse_field :: "string \<Rightarrow> string \<times> string" where
  "sse_field l =
     (let name = takeWhile (\<lambda>c. c \<noteq> CHR '':'') l; v = drop (Suc (length name)) l
      in (name, case v of c # t \<Rightarrow> if c = CHR '' '' then t else v | [] \<Rightarrow> []))"

fun sse_read :: "string \<Rightarrow> string list \<Rightarrow> string list \<Rightarrow> (string \<times> string) list" where
  "sse_read ev data [] = []"
| "sse_read ev data (l # ls) =
     (if l = []
      then (if data = [] then sse_read [] [] ls
            else ((if ev = [] then ''message'' else ev), join_strings newline data) # sse_read [] [] ls)
      else (case sse_field l of (name, v) \<Rightarrow>
              if name = ''event'' then sse_read v data ls
              else if name = ''data'' then sse_read ev (data @ [v]) ls
              else sse_read ev data ls))"

definition sse_events :: "string \<Rightarrow> (string \<times> string) list" where
  "sse_events text = sse_read [] [] (sse_lines text)"

lemma plain_not_break: "plain_ascii c \<Longrightarrow> \<not> is_lf c \<and> \<not> is_cr c"
  by (auto simp: plain_ascii_def is_lf_def is_cr_def)

lemma sse_lines_line: "list_all plain_ascii l \<Longrightarrow> sse_lines (l @ newline @ rest) = l # sse_lines rest"
  by (induction l) (auto simp: newline_def is_lf_def plain_ascii_def is_cr_def)

lemma sse_lines_blank: "sse_lines (newline @ rest) = [] # sse_lines rest"
  by (simp add: newline_def is_lf_def)

lemma formatted_event:
  assumes "text_libs_ok T" "list_all plain_ascii ev" "ev \<noteq> []" "format_sse_event T ev v = Inr s"
  obtains j where "json_dumps T v = Inr j" "sse_events (s @ rest) = (ev, j) # sse_events rest"
proof -
  obtain j where j: "json_dumps T v = Inr j"
      and s: "s = (''event: '' @ ev) @ newline @ (''data: '' @ j) @ newline @ newline"
    using assms(4) by (auto simp: format_sse_event_def bind_sum_eq_Inr)
  have jp: "list_all plain_ascii j" by (rule json_dumps_ascii [OF assms(1) j])
  have "list_all plain_ascii (''event: '' @ ev)" "list_all plain_ascii (''data: '' @ j)"
    using assms(2) jp by (simp_all add: plain_ascii_def list_all_iff)
  then have "sse_lines (s @ rest) = (''event: '' @ ev) # (''data: '' @ j) # [] # sse_lines rest"
    unfolding s append_assoc [of "''event: '' @ ev"] append_assoc [of newline] append_assoc [of "''data: '' @ j"]
    by (simp only: sse_lines_line sse_lines_blank)
  then have "sse_events (s @ rest) = (ev, j) # sse_events rest"
    using assms(3) by (simp add: sse_events_def sse_field_def Let_def join_strings_def)
  then show thesis using j that by blast
qed


lemma sse_events_Nil [simp]: "sse_events [] = []"
  by (simp add: sse_events_def)

lemma known_mode_name: "m \<in> set known_modes \<Longrightarrow> list_all plain_ascii m \<and> m \<noteq> []"
  by (auto simp: known_modes_def plain_ascii_def)


section \<open>The events of a run\<close>

definition graph_event :: "text_libs \<Rightarrow> string \<Rightarrow> bool" where
  "graph_event T s \<longleftrightarrow> (\<exists>m v. m \<in> set known_modes \<and> format_sse_event T m v = Inr s)"

lemma emitted_event:
  "bind_sum r (\<lambda>v. bind_sum (format_sse_event T m (k v)) (\<lambda>e. Inr (Some e))) = Inr (Some s) \<Longrightarrow> m \<in> set known_modes \<Longrightarrow>
     graph_event T s"
  by (auto simp: bind_sum_eq_Inr graph_event_def)

lemma emitted_event':
  "bind_sum (format_sse_event T m v) (\<lambda>e. Inr (Some e)) = Inr (Some s) \<Longrightarrow> m \<in> set known_modes \<Longrightarrow> graph_event T s"
  by (auto simp: bind_sum_eq_Inr graph_event_def)

lemma item_event:
  assumes "event_of_item T u assistant modes x = Inr (Some s)"
  shows "graph_event T s"
proof -
  obtain mode item where n: "normalize_native_stream_item x modes = Inr (mode, item)"
    using assms by (auto simp: event_of_item_def bind_sum_eq_Inr)
  note run = assms [unfolded event_of_item_def n bind_sum_simps prod.case]
  show ?thesis
  proof (cases "mode = ''messages''")
    case True
    obtain message md where m: "(case item of
        PTuple [m, PDict d] \<Rightarrow> (m, Some d) | PTuple [m, _] \<Rightarrow> (m, None) | _ \<Rightarrow> (item, None)) = (message, md)"
      by (rule prod.exhaust)
    have r: "(case message_event_payload T u (ac_assistant_id assistant) message md of
           None \<Rightarrow> Inr None
         | Some payload \<Rightarrow> bind_sum (format_sse_event T ''messages'' payload) (\<lambda>e. Inr (Some e))) = Inr (Some s)"
      using run unfolding m Let_def prod.case by (simp only: True refl if_True)
    show ?thesis
    proof (cases "message_event_payload T u (ac_assistant_id assistant) message md")
      case (Some payload)
      show ?thesis by (rule emitted_event' [OF r [unfolded Some option.case]]) (simp add: known_modes_def)
    qed (use r in simp)
  next
    case False
    have other: "graph_event T s"
      if "(if mode \<in> {''updates'', ''custom'', ''debug''}
           then bind_sum (format_sse_event T mode item) (\<lambda>e. Inr (Some e)) else Inr None) = Inr (Some s)"
    proof -
      have "mode \<in> {''updates'', ''custom'', ''debug''}" using that by (simp only: split: if_splits) simp
      then show ?thesis using that by (intro emitted_event' [of T mode item s]) (auto simp: known_modes_def)
    qed
    show ?thesis
    proof (cases "\<exists>d. mode = ''values'' \<and> item = PDict d")
      case True
      then obtain d where d: "mode = ''values''" "item = PDict d" by blast
      show ?thesis
        by (rule emitted_event [where m = "''values''" and k = PDict])
          (use run in \<open>simp add: d\<close>, simp add: known_modes_def)
    next
      case no: False
      show ?thesis
        by (rule other, cases "mode = ''values''"; cases item) (use run False no in simp_all)
    qed
  qed
qed

lemma items_events: "list_all (graph_event T) (fst (events_of_items T us assistant modes xs))"
proof (induction xs arbitrary: us)
  case (Cons p xs)
  obtain x w where p: "p = (x, w)" by (cases p)
  show ?case
  proof (cases "event_of_item T (us 0) assistant modes x")
    case (Inr ev)
    then show ?thesis using Cons.IH [of "\<lambda>n. us (Suc n)"] item_event [of T "us 0" assistant modes x]
      by (auto simp: p split: option.split prod.split)
  qed (simp add: p)
qed simp

lemma stream_native_events: "list_all (graph_event T) (fst (stream_native_graph T dump us g a p t ms rc c w))"
proof -
  have "list_all (graph_event T) evs" if "events_of_items T us a (native_modes ms) items = (evs, e)" for items evs e
    using items_events [of T us a "native_modes ms" items] that by simp
  then show ?thesis
    by (auto simp: stream_native_graph_def Let_def split: sum.split option.split prod.split)
qed

lemma run_body_events: "list_all (graph_event T) (fst (run_body T dump us a i t g ms rc c w))"
  using stream_native_events by (auto simp: run_body_def split: sum.split)

lemma read_graph_events:
  assumes "text_libs_ok T" "list_all (graph_event T) evs"
  shows "\<exists>middle. sse_events (concat evs @ rest) = middle @ sse_events rest \<and> length middle = length evs \<and>
    (\<forall>(n, j) \<in> set middle. n \<in> set known_modes)"
  using assms(2)
proof (induction evs)
  case (Cons s evs)
  then obtain m v where m: "m \<in> set known_modes" "format_sse_event T m v = Inr s"
    by (auto simp: graph_event_def)
  obtain middle where middle: "sse_events (concat evs @ rest) = middle @ sse_events rest" "length middle = length evs"
      "\<forall>(n, j) \<in> set middle. n \<in> set known_modes"
    using Cons by auto
  obtain j where "sse_events (s @ concat evs @ rest) = (m, j) # sse_events (concat evs @ rest)"
    using formatted_event [OF assms(1) _ _ m(2)] known_mode_name [OF m(1)] by metis
  then show ?case using middle m(1) by (intro exI [of _ "(m, j) # middle"]) simp
qed simp

text \<open>The client's view of the last event, as literal text.\<close>

definition closing_view :: "exc option \<Rightarrow> (string \<times> string) list" where
  \<open>closing_view ending =
     (case ending of
        None \<Rightarrow> [(''end'', ''null'')]
      | Some CancelledError \<Rightarrow> []
      | Some (CheckpointCapacityError _) \<Rightarrow>
          [(''error'', ''{"error":"Checkpoint capacity exceeded","code":"CHECKPOINT_CAPACITY_EXCEEDED"}'')]
      | Some _ \<Rightarrow> [(''error'', ''{"error":"Graph execution failed","code":"INTERNAL_ERROR"}'')])\<close>

lemma capacity_json:
  \<open>json_dumps T capacity_data = Inr ''{"error":"Checkpoint capacity exceeded","code":"CHECKPOINT_CAPACITY_EXCEEDED"}''\<close>
proof -
  have \<open>json_string ''error'' = ''"error"''\<close> \<open>json_string ''code'' = ''"code"''\<close>
    \<open>json_string ''Checkpoint capacity exceeded'' = ''"Checkpoint capacity exceeded"''\<close>
    \<open>json_string ''CHECKPOINT_CAPACITY_EXCEEDED'' = ''"CHECKPOINT_CAPACITY_EXCEEDED"''\<close>
    by code_simp+
  then show ?thesis by (simp add: capacity_data_def json_key_def join_strings_def)
qed

lemma internal_json:
  \<open>json_dumps T internal_error_data = Inr ''{"error":"Graph execution failed","code":"INTERNAL_ERROR"}''\<close>
proof -
  have \<open>json_string ''error'' = ''"error"''\<close> \<open>json_string ''code'' = ''"code"''\<close>
    \<open>json_string ''Graph execution failed'' = ''"Graph execution failed"''\<close>
    \<open>json_string ''INTERNAL_ERROR'' = ''"INTERNAL_ERROR"''\<close>
    by code_simp+
  then show ?thesis by (simp add: internal_error_data_def json_key_def join_strings_def)
qed

lemma read_server_event:
  assumes "text_libs_ok T" "list_all plain_ascii ev" "ev \<noteq> []" "json_dumps T v = Inr j"
  shows "sse_events (server_event T ev v @ rest) = (ev, j) # sse_events rest"
proof -
  have "format_sse_event T ev v = Inr (server_event T ev v)"
    by (simp add: server_event_def format_sse_event_def assms(4))
  from formatted_event [OF assms(1-3) this, of rest] assms(4) show ?thesis by auto
qed

lemma ascii_names [simp]:
  "list_all plain_ascii ''metadata''" "list_all plain_ascii ''end''" "list_all plain_ascii ''error''"
  by (simp_all add: plain_ascii_def)

lemma read_closing:
  assumes "text_libs_ok T"
  shows "sse_events (concat (fst (closing T ending))) = closing_view ending"
proof -
  have e: "sse_events (server_event T ev v) = [(ev, j)]"
    if "list_all plain_ascii ev" "ev \<noteq> []" "json_dumps T v = Inr j" for ev v j
    using read_server_event [OF assms that, of "[]"] by simp
  have "sse_events (server_event T ''end'' PNone) = [(''end'', ''null'')]"
    by (rule e) (simp_all only: ascii_names json_dumps.simps(1), simp)
  moreover have "sse_events (server_event T ''error'' capacity_data) = closing_view (Some (CheckpointCapacityError m))" for m
    using e [OF ascii_names(3) _ capacity_json] by (simp add: closing_view_def)
  moreover have "sse_events (server_event T ''error'' internal_error_data) = closing_view (Some StopIteration)"
    using e [OF ascii_names(3) _ internal_json] by (simp add: closing_view_def)
  ultimately show ?thesis
    by (simp add: closing_def closing_view_def split: option.split exc.split)
qed


section \<open>The status of the thread\<close>

text \<open>Every entry is stored under the id of its thread: \<open>put_thread\<close> writes there.\<close>

definition ids_match :: "(string \<Rightarrow> stored_thread option) \<Rightarrow> bool" where
  "ids_match f \<longleftrightarrow> (\<forall>k r. f k = Some r \<longrightarrow> th_thread_id (st_thread r) = k)"

lemma ids_match_fades: "ids_match f \<Longrightarrow> fades f g \<Longrightarrow> ids_match g"
  unfolding ids_match_def by (metis fadesD)

lemma ids_match_put: "ids_match f \<Longrightarrow> put_result th f r g \<Longrightarrow> ids_match g"
  by (rule ids_match_fades [where f = "case r of Inl _ \<Rightarrow> f | Inr _ \<Rightarrow>
        f(th_thread_id th \<mapsto> \<lparr>st_thread = th, st_assistant_id = owner_in (f (th_thread_id th))\<rparr>)"])
    (auto simp: ids_match_def put_result_def split: sum.splits)

text \<open>
  The status is set where the thread is still stored. An entry that expires between the
  \<open>get_thread\<close> and the \<open>put_thread\<close> is stored again by the latter, without an owner.
\<close>

definition status_set :: "(string \<Rightarrow> stored_thread option) \<Rightarrow> string \<Rightarrow> string \<Rightarrow> (string \<Rightarrow> stored_thread option) \<Rightarrow> bool" where
  "status_set f t st g \<longleftrightarrow>
     (\<forall>x. g t = Some x \<longrightarrow> th_status (st_thread x) = st \<and> st_assistant_id x \<in> {None, owner_in (f t)} \<and> f t \<noteq> None)"

lemma set_status_spec:
  assumes "env_ok L w" "ids_match (env_view L w)"
  shows "wp (set_thread_status (memory_store_ops L) now t st) (\<lambda>r w'. env_ok L w' \<and> ids_match (env_view L w') \<and>
    (case r of Inl e \<Rightarrow> (\<exists>m. e = ThreadStoreCapacityError m)
     | Inr _ \<Rightarrow> status_set (env_view L w) t st (env_view L w'))) w"
  unfolding set_thread_status_def
proof (rule wp_bindI [OF default_store.get_law [OF assms(1)]])
  fix v w1
  assume "Inr v = Inr (map_option st_thread (env_view L w t)) \<and> env_ok L w1 \<and> fades (env_view L w) (env_view L w1)"
  then have v: "v = map_option st_thread (env_view L w t)" and ok: "env_ok L w1"
    and f: "fades (env_view L w) (env_view L w1)" by auto
  have ids: "ids_match (env_view L w1)" by (rule ids_match_fades [OF assms(2) f])
  show "wp (case v of None \<Rightarrow> ret () | Some th \<Rightarrow>
        so_put_thread (memory_store_ops L) (th\<lparr>th_status := st, th_updated_at := now\<rparr>))
      (\<lambda>r w'. env_ok L w' \<and> ids_match (env_view L w') \<and>
        (case r of Inl e \<Rightarrow> (\<exists>m. e = ThreadStoreCapacityError m)
         | Inr _ \<Rightarrow> status_set (env_view L w) t st (env_view L w'))) w1"
  proof (cases v)
    case None
    then have "env_view L w1 t = None" using v fadesD [OF f, of t] by (cases "env_view L w1 t") auto
    then show ?thesis using ok ids by (simp add: None wp_simps status_set_def)
  next
    case (Some th)
    then obtain x where x: "env_view L w t = Some x" "st_thread x = th" using v by auto
    let ?th = "th\<lparr>th_status := st, th_updated_at := now\<rparr>"
    have id: "th_thread_id ?th = t" using assms(2) x by (auto simp: ids_match_def)
    have "wp (so_put_thread (memory_store_ops L) ?th)
        (\<lambda>r w'. env_ok L w' \<and> put_result ?th (env_view L w1) r (env_view L w')) w1"
      by (rule default_store.put_law [OF ok])
    then show ?thesis unfolding Some option.case
    proof (rule wp_mono)
      fix r :: "exc + unit" and w'
      assume p: "env_ok L w' \<and> put_result ?th (env_view L w1) r (env_view L w')"
      have "status_set (env_view L w) t st (env_view L w')" if "r = Inr u" for u
        unfolding status_set_def
      proof (intro allI impI)
        fix y assume y: "env_view L w' t = Some y"
        have y': "y = \<lparr>st_thread = ?th, st_assistant_id = owner_in (env_view L w1 t)\<rparr>"
          using p that y id by (auto simp: put_result_def dest: fades_upd_at)
        have "owner_in (env_view L w1 t) \<in> {None, owner_in (env_view L w t)}"
          using fadesD [OF f, of t] by (cases "env_view L w1 t") (auto simp: owner_in_def)
        then show "th_status (st_thread y) = st \<and> st_assistant_id y \<in> {None, owner_in (env_view L w t)} \<and> env_view L w t \<noteq> None"
          using y' x(1) by simp
      qed
      then show "env_ok L w' \<and> ids_match (env_view L w') \<and>
          (case r of Inl e \<Rightarrow> (\<exists>m. e = ThreadStoreCapacityError m)
           | Inr _ \<Rightarrow> status_set (env_view L w) t st (env_view L w'))"
        using p ids_match_put [OF ids, of ?th r "env_view L w'"] by (cases r) (auto simp: put_result_def)
    qed
  qed
qed simp


text \<open>A graph that preserves a property of the state, at every item it yields and at its end.\<close>

definition graph_preserves :: "('w \<Rightarrow> bool) \<Rightarrow> 'w graph_ops \<Rightarrow> bool" where
  "graph_preserves Q g \<longleftrightarrow>
     (\<forall>f p rc ms w. g_astream g = Some f \<longrightarrow> Q w \<longrightarrow>
        (case f p rc ms w of (items, _, w') \<Rightarrow> Q w' \<and> list_all (\<lambda>(_, v). Q v) items))"

text \<open>A graph that leaves the thread store alone: it is given the checkpoint saver only.\<close>

definition graph_keeps_store :: "'c environment graph_ops \<Rightarrow> bool" where
  "graph_keeps_store g \<longleftrightarrow> (\<forall>S. graph_preserves (\<lambda>w. env_store w = S) g)"

lemma failing_item_state: "events_of_items T us a ms xs = (evs, Some (e, w)) \<Longrightarrow> \<exists>x. (x, w) \<in> set xs"
proof (induction xs arbitrary: us evs)
  case (Cons p xs)
  then show ?case
    by (cases p) (fastforce split: sum.splits prod.splits)
qed simp

lemma run_body_preserves:
  assumes "graph_preserves Q g" "Q w" "run_body T dump us a i t g ms rc c w = (evs, ending, w')"
  shows "Q w'"
proof (cases "prepare_input a i")
  case (Inr payload)
  note run = assms(3) [unfolded run_body_def Inr sum.case stream_native_graph_def Let_def]
  show ?thesis
  proof (cases "build_runnable_config dump t (ac_assistant_id a) rc c")
    case conf: (Inr conf)
    show ?thesis
    proof (cases "g_astream g")
      case (Some f)
      obtain items e v where f: "f payload conf (native_modes ms) w = (items, e, v)"
        by (cases "f payload conf (native_modes ms) w") auto
      have kept: "Q v" "\<And>x u. (x, u) \<in> set items \<Longrightarrow> Q u"
        using assms(1) [unfolded graph_preserves_def, rule_format, OF Some assms(2), where p = payload and rc = conf and
            ms = "native_modes ms"] f
        by (auto simp: list_all_iff)
      show ?thesis
        using run kept failing_item_state
        by (simp add: conf Some f split: prod.splits option.splits) fastforce+
    qed (use run conf assms(2) in simp)
  qed (use run assms(2) in simp)
qed (use assms(2,3) in \<open>simp add: run_body_def\<close>)

lemma run_body_keeps_store:
  "graph_keeps_store g \<Longrightarrow> run_body T dump us a i t g ms rc c w = (evs, ending, w') \<Longrightarrow> env_store w' = env_store w"
  unfolding graph_keeps_store_def by (rule run_body_preserves [where Q = "\<lambda>v. env_store v = env_store w"]) auto

lemma closing_left: "snd (closing T ending) \<in> {None, Some CancelledError}"
  by (simp add: closing_def split: option.split exc.split)

lemma stream_response_cases:
  assumes "stream_graph_response T dump us now S a i t g sm rc c w = (evs, left, w')"
  obtains (refused) e where "set_thread_status S (now 0) t ''busy'' w = (Inl e, w')" "left = Some e"
      "evs = [server_event T ''metadata'' (metadata_data (us 0))]"
  | (run) w1 events ending w2 r where "set_thread_status S (now 0) t ''busy'' w = (Inr (), w1)"
      "run_body T dump us a i t g (case sm of None \<Rightarrow> [''values''] | Some [] \<Rightarrow> [''values''] | Some ms \<Rightarrow> ms) rc c w1 =
         (events, ending, w2)"
      "set_thread_status S (now 1) t ''idle'' w2 = (r, w')"
      "left = (case r of Inl e \<Rightarrow> Some e | Inr _ \<Rightarrow> snd (closing T ending))"
      "evs = server_event T ''metadata'' (metadata_data (us 0)) # events @ fst (closing T ending)"
  using assms unfolding stream_graph_response_def Let_def
  by (auto split: prod.splits sum.splits)


text \<open>What the status updates and the graph both preserve, the stream does.\<close>

lemma stream_response_preserves:
  assumes "graph_preserves Q g" "\<And>n st. preserves Q (set_thread_status S n t st)" "Q w"
    and "stream_graph_response T dump us now S a i t g sm rc c w = (evs, left, w')"
  shows "Q w'"
proof (cases rule: stream_response_cases [OF assms(4)])
  case (1 e)
  then show ?thesis using preservesD [OF assms(2,3), of "now 0" "''busy''"] by simp
next
  case (2 w1 events ending w2 r)
  have "Q w1" using preservesD [OF assms(2,3), of "now 0" "''busy''"] 2(1) by simp
  then have "Q w2" by (rule run_body_preserves [OF assms(1) _ 2(2)])
  then show ?thesis using preservesD [OF assms(2), of w2 "now 1" "''idle''"] 2(3) by simp
qed


section \<open>Properties\<close>

text \<open>
  C30: Framing: events formatted by the server, sent one after the other in any chunks, are read
  back by an SSE client one by one, each with its name and its JSON text on one line. JSON
  strings cannot break the framing, since line breaks in them are escaped.
\<close>

theorem sse_round_trip:
  assumes "text_libs_ok T"
    and "list_all2 (\<lambda>(n, v) s. list_all plain_ascii n \<and> n \<noteq> [] \<and> format_sse_event T n v = Inr s) evs texts"
  shows "\<exists>js. sse_events (concat texts) = zip (map fst evs) js \<and> map (json_dumps T) (map snd evs) = map Inr js"
  using assms(2)
proof (induction rule: list_all2_induct)
  case Nil
  then show ?case by simp
next
  case (Cons p evs s texts)
  obtain n v where p: "p = (n, v)" by (cases p)
  obtain js where js: "sse_events (concat texts) = zip (map fst evs) js" "map (json_dumps T) (map snd evs) = map Inr js"
    using Cons by blast
  obtain j where "json_dumps T v = Inr j" "sse_events (s @ concat texts) = (n, j) # sse_events (concat texts)"
    using Cons(1) by (auto simp: p elim: formatted_event [OF assms(1)])
  then show ?case using js by (intro exI [of _ "j # js"]) (simp add: p)
qed

definition demo_text :: text_libs where
  "demo_text = \<lparr>float_repr = (\<lambda>_. ''1.5''), object_str = (\<lambda>_. ''object''), py_str = (\<lambda>_. ''key'')\<rparr>"

lemma demo_text_ok: "text_libs_ok demo_text"
  by (simp add: text_libs_ok_def demo_text_def plain_ascii_def)

theorem sse_round_trip_witness:
  "\<exists>s js. format_sse_event demo_text ''custom'' (PStr newline) = Inr s \<and> sse_events (concat [s, s]) = zip [''custom'', ''custom''] js"
proof -
  have "\<not> isl (format_sse_event demo_text ''custom'' (PStr newline))" by code_simp
  then obtain s where s: "format_sse_event demo_text ''custom'' (PStr newline) = Inr s"
    by (cases "format_sse_event demo_text ''custom'' (PStr newline)") auto
  have "list_all plain_ascii ''custom''" by code_simp
  then show ?thesis
    using sse_round_trip [OF demo_text_ok, of "[(''custom'', PStr newline), (''custom'', PStr newline)]" "[s, s]"] s by auto
qed

text \<open>
  C10: The event protocol of a run, as the client reads it: first \<open>metadata\<close> with the run id, then
  only events named after the stream modes, then the closing event that belongs to the way the
  graph ended: \<open>end\<close> after a normal end, an error with a constant text after an exception, none
  after a cancellation. If the thread store refuses the status \<open>busy\<close>, only \<open>metadata\<close> is sent.
\<close>

theorem run_stream_protocol:
  assumes "text_libs_ok T" "stream_graph_response T dump us now S a i t g sm rc c w = (evs, left, w')"
  shows "\<exists>md middle closing. sse_events (concat evs) = (''metadata'', md) # middle @ closing \<and>
    json_dumps T (metadata_data (us 0)) = Inr md \<and>
    (\<forall>(n, j) \<in> set middle. n \<in> set known_modes) \<and>
    (case set_thread_status S (now 0) t ''busy'' w of
       (Inl e, _) \<Rightarrow> middle = [] \<and> closing = [] \<and> left = Some e
     | (Inr _, w1) \<Rightarrow>
         closing = closing_view (fst (snd (run_body T dump us a i t g
           (case sm of None \<Rightarrow> [''values''] | Some [] \<Rightarrow> [''values''] | Some ms \<Rightarrow> ms) rc c w1))))"
proof -
  obtain md where md: "json_dumps T (metadata_data (us 0)) = Inr md"
    by (simp add: metadata_data_def json_key_def)
  have first: "sse_events (server_event T ''metadata'' (metadata_data (us 0)) @ rest) = (''metadata'', md) # sse_events rest" for rest
    by (rule read_server_event [OF assms(1) _ _ md]) (simp_all only: ascii_names, simp)
  show ?thesis
  proof (cases rule: stream_response_cases [OF assms(2)])
    case (1 e)
    then show ?thesis using md first [of "[]"] by (intro exI [of _ md] exI [of _ "[]"]) simp
  next
    case (2 w1 events ending w2 r)
    have graph: "list_all (graph_event T) events"
      using run_body_events [of T dump us a i t g _ rc c w1] 2(2) by (metis fst_conv)
    obtain middle where middle: "sse_events (concat events @ concat (fst (closing T ending))) = middle @ closing_view ending"
        "\<forall>(n, j) \<in> set middle. n \<in> set known_modes"
      using read_graph_events [OF assms(1) graph, of "concat (fst (closing T ending))"] read_closing [OF assms(1)] by auto
    have view: "sse_events (concat evs) = (''metadata'', md) # middle @ closing_view ending"
      unfolding 2(5) using middle(1) first by simp
    show ?thesis
      by (intro exI [of _ md] exI [of _ middle] exI [of _ "closing_view ending"] conjI view md middle(2))
        (simp add: 2(1) 2(2))
  qed
qed

text \<open>A graph that yields its input once, an assistant that runs it, and an environment for the examples.\<close>

definition demo_graph :: "'w graph_ops" where
  "demo_graph =
     \<lparr>g_ainvoke = Some (\<lambda>p rc. ret (PDict p)), g_astream = Some (\<lambda>p rc ms w. ([(PDict p, w)], None, w)),
      g_aupdate_state = Some (\<lambda>rc v n. ret rc), g_topology = None, g_input_schema = None, g_output_schema = None\<rparr>"

definition demo_assistant :: "'w assistant_config" where
  "demo_assistant =
     \<lparr>ac_assistant_id = ''agent'', ac_graph_id = ''graph'', ac_name = ''Agent'', ac_factory = (\<lambda>_. Inr demo_graph),
      ac_description = [], ac_metadata = [], ac_created_at = 0, ac_input_transformer = None, ac_output_transformer = None,
      ac_default_stream_mode = None, ac_input_schema = None, ac_output_schema = None, ac_state_schema = None,
      ac_config_schema = None, ac_graph = None\<rparr>"

definition demo_env :: "list_cache environment" where
  "demo_env = \<lparr>env_store = claimed_store, env_saver = new_saver, env_clock = (\<lambda>n. of_nat n), env_ticks = 0\<rparr>"

lemma demo_env_ok: "env_ok list_libs demo_env"
  unfolding env_ok_def demo_env_def claimed_store_def by (simp add: store_run_ok [OF demo_store_ok])

definition demo_input :: pydict where
  "demo_input = [(PStr ''x'', PInt 1)]"

definition demo_run :: "list_cache environment \<Rightarrow> string list \<times> exc option \<times> list_cache environment" where
  "demo_run w =
     stream_graph_response demo_text demo_dump (\<lambda>_. ''id'') (\<lambda>_. 5) (memory_store_ops list_libs) demo_assistant demo_input ''t''
       demo_graph None None None w"

theorem run_stream_protocol_witness:
  "\<exists>md middle. sse_events (concat (fst (demo_run demo_env))) = (''metadata'', md) # middle @ [(''end'', ''null'')] \<and>
     (\<forall>(n, j) \<in> set middle. n \<in> set known_modes)"
proof -
  obtain evs left w' where run: "demo_run demo_env = (evs, left, w')" by (cases "demo_run demo_env") auto
  have ok: "fst (set_thread_status (memory_store_ops list_libs) 5 ''t'' ''busy'' demo_env) = Inr ()" by code_simp
  have ended: "fst (snd (run_body demo_text demo_dump (\<lambda>_. ''id'') demo_assistant demo_input ''t'' demo_graph [''values''] None None w)) = None"
    for w :: "list_cache environment" by code_simp
  obtain w1 where w1: "set_thread_status (memory_store_ops list_libs) 5 ''t'' ''busy'' demo_env = (Inr (), w1)"
    using ok by (cases "set_thread_status (memory_store_ops list_libs) 5 ''t'' ''busy'' demo_env") simp
  show ?thesis
    using run_stream_protocol [OF demo_text_ok run [unfolded demo_run_def]] by (auto simp: run w1 ended closing_view_def)
qed



lemma list_cache_ids:
  assumes "list_all (\<lambda>(k, _, r). th_thread_id (st_thread r) = k) (lc_items (threads s))"
  shows "ids_match (view list_libs s)"
  unfolding ids_match_def
proof (intro allI impI)
  fix k r assume "view list_libs s k = Some r"
  then obtain n where "dict_get (lc_items (threads s)) k = Some (n, r)"
    by (auto simp: view_def list_libs_def lc_get_def split: option.splits if_splits)
  then show "th_thread_id (st_thread r) = k" using assms by (auto simp: list_all_iff dest: map_of_SomeD)
qed

lemma demo_env_ids: "ids_match (env_view list_libs demo_env)"
proof -
  have "list_all (\<lambda>(k, _, r). th_thread_id (st_thread r) = k) (lc_items (threads (env_store demo_env)))" by code_simp
  then show ?thesis unfolding env_view_def by (rule list_cache_ids)
qed

lemma demo_graph_keeps_store: "graph_keeps_store demo_graph"
  by (simp add: graph_keeps_store_def graph_preserves_def demo_graph_def)


end
