(* ===== verification/SaverInvariant.thy ===== *)
theory SaverInvariant
  imports SaverOps
begin

text \<open>
  What \<open>BoundedInMemorySaver\<close> relies on of the class it extends, the invariant of its state, and
  the proof that every public operation keeps it: the ledger has one entry for every stored
  checkpoint, blob and pending write, with its size; the running total is the sum of the
  entries; every thread with content is in the access order, so that it can expire.
\<close>


section \<open>Contents of the inherited containers\<close>

definition mem_wf :: "mem \<Rightarrow> bool" where
  "mem_wf m \<longleftrightarrow>
     dict_wf (storage m) \<and>
     (\<forall>(t, namespaces) \<in> set (storage m).
        dict_wf namespaces \<and> (\<forall>(ns, checkpoints) \<in> set namespaces. dict_wf checkpoints)) \<and>
     dict_wf (writes m) \<and> (\<forall>(k, d) \<in> set (writes m). dict_wf d) \<and>
     dict_wf (blobs m)"

definition namespaces_of :: "mem \<Rightarrow> string \<Rightarrow> string set" where
  "namespaces_of m t =
     {ns. dict_has (dict_get_or (storage m) t []) ns} \<union> {ns. \<exists>c. dict_has (writes m) (t, ns, c)}"

definition checkpoints_of :: "mem \<Rightarrow> string \<Rightarrow> (string \<times> string) set" where
  "checkpoints_of m t =
     {(ns, c). stored m (t, ns, c) \<noteq> None} \<union> {(ns, c). dict_has (writes m) (t, ns, c)}"

text \<open>The size the ledger should have for a key.\<close>

fun payload :: "mem \<Rightarrow> size_key \<Rightarrow> int option" where
  "payload m (CheckpointKey t ns c) = map_option entry_size (stored m (t, ns, c))"
| "payload m (BlobKey t ns channel version) =
     map_option serialized_size (dict_get (blobs m) (t, ns, channel, version))"
| "payload m (WriteKey t ns c task index) =
     map_option write_size (dict_get (pending m (t, ns, c)) (task, index))"

lemma mem_wf_empty [simp]: "mem_wf empty_mem"
  by (simp add: mem_wf_def empty_mem_def)

lemma payload_empty [simp]: "payload empty_mem k = None"
  by (cases k) (simp_all add: empty_mem_def stored_def pending_def dict_get_or_def)

lemma entry_size_nonneg [simp]: "0 \<le> entry_size e"
  by (simp add: entry_size_def split: prod.split)

lemma write_size_nonneg [simp]: "0 \<le> write_size w"
  by (simp add: write_size_def split: prod.split)

lemma payload_nonneg: "payload m k = Some n \<Longrightarrow> 0 \<le> n"
  by (cases k) auto

lemma pending_wf: "mem_wf m \<Longrightarrow> dict_wf (pending m k)"
  by (auto simp: mem_wf_def pending_def dict_get_or_def split: option.split dest!: map_of_SomeD)

lemma storage_wf:
  "mem_wf m \<Longrightarrow> dict_get (storage m) t = Some namespaces \<Longrightarrow> dict_wf namespaces"
  by (auto simp: mem_wf_def dest!: map_of_SomeD)

lemma select_middle:
  "set (map (\<lambda>(_, ns, _). ns) (filter (\<lambda>(t', _, _). t' = t) ks)) = {ns. \<exists>c. (t, ns, c) \<in> set ks}"
  by (induction ks) auto

lemma select_rest:
  "set (map snd (filter (\<lambda>(t', _, _). t' = t) ks)) = {(ns, c). (t, ns, c) \<in> set ks}"
  by (induction ks) auto

lemma set_nested_keys:
  "set (concat (map (\<lambda>(ns, cs). map (Pair ns) (dict_keys cs)) d)) =
     {(ns, c). \<exists>cs. (ns, cs) \<in> set d \<and> c \<in> fst ` set cs}"
  by (induction d) auto

lemma known_namespaces_eq: "known_namespaces_locked t s = namespaces_of (mem_of s) t"
  by (simp only: known_namespaces_locked_def namespaces_of_def dict_has_def select_middle Collect_mem_eq)

lemma stored_iff_mem:
  assumes "mem_wf m"
  shows "stored m (t, ns, c) \<noteq> None \<longleftrightarrow>
    (\<exists>checkpoints. (ns, checkpoints) \<in> set (dict_get_or (storage m) t []) \<and> c \<in> fst ` set checkpoints)"
proof (cases "dict_get (storage m) t")
  case (Some namespaces)
  have "distinct (map fst namespaces)" using storage_wf [OF assms Some] by (simp add: dict_wf_def)
  then have "(\<exists>cs. (ns, cs) \<in> set namespaces \<and> c \<in> fst ` set cs) \<longleftrightarrow>
      (\<exists>cs. dict_get namespaces ns = Some cs \<and> c \<in> fst ` set cs)"
    by (metis map_of_eq_Some_iff)
  moreover have "stored m (t, ns, c) \<noteq> None \<longleftrightarrow>
      (\<exists>cs. dict_get namespaces ns = Some cs \<and> c \<in> fst ` set cs)"
    using Some by (simp add: stored_def dict_key_iff split: option.split)
  ultimately show ?thesis using Some by (simp add: dict_get_or_def)
qed (simp add: stored_def dict_get_or_def)

lemma known_checkpoints_eq:
  assumes "mem_wf (mem_of s)"
  shows "known_checkpoints_locked t s = checkpoints_of (mem_of s) t"
  by (simp only: known_checkpoints_locked_def checkpoints_of_def dict_has_def set_nested_keys select_rest
      stored_iff_mem [OF assms, of t])

lemma finite_namespaces_of [simp]: "finite (namespaces_of m t)"
proof -
  let ?s = "\<lparr>mem_of = m, last_access = [], sizes = [], serialized_bytes = 0\<rparr>"
  have "finite (known_namespaces_locked t ?s)" by (simp only: known_namespaces_locked_def finite_Un List.finite_set)
  then show ?thesis by (simp add: known_namespaces_eq)
qed

lemma finite_checkpoints_of [simp]:
  assumes "mem_wf m"
  shows "finite (checkpoints_of m t)"
proof -
  let ?s = "\<lparr>mem_of = m, last_access = [], sizes = [], serialized_bytes = 0\<rparr>"
  have "finite (known_checkpoints_locked t ?s)" by (simp only: known_checkpoints_locked_def finite_Un List.finite_set)
  then show ?thesis using known_checkpoints_eq [of ?s t] assms by simp
qed


section \<open>The parent class\<close>

text \<open>
  Reading methods leave every checkpoint, blob and pending write as it is; they may leave empty
  containers behind (the parent's containers create missing keys when they are read).
\<close>

definition same_contents :: "mem \<Rightarrow> mem \<Rightarrow> bool" where
  "same_contents m m' \<longleftrightarrow>
     (\<forall>k. stored m' k = stored m k) \<and> (\<forall>k. pending m' k = pending m k) \<and>
     (\<forall>k. dict_get (blobs m') k = dict_get (blobs m) k) \<and>
     (\<forall>t. checkpoints_of m' t = checkpoints_of m t)"

definition reads_only :: "(mem, exc, 'a) op \<Rightarrow> bool" where
  "reads_only m \<longleftrightarrow> (\<forall>s. mem_wf s \<longrightarrow> wp m (\<lambda>_ t. mem_wf t \<and> same_contents s t) s)"

text \<open>\<open>delete_thread\<close> removes everything filed under the thread and nothing else.\<close>

definition deletes_thread :: "(string \<Rightarrow> mem \<Rightarrow> mem) \<Rightarrow> bool" where
  "deletes_thread del \<longleftrightarrow>
     (\<forall>t m. mem_wf m \<longrightarrow> mem_wf (del t m) \<and>
       (\<forall>u. dict_get (storage (del t m)) u = (if u = t then None else dict_get (storage m) u)) \<and>
       (\<forall>k. dict_get (writes (del t m)) k = (if fst k = t then None else dict_get (writes m) k)) \<and>
       (\<forall>k. dict_get (blobs (del t m)) k = (if fst k = t then None else dict_get (blobs m) k)))"

text \<open>
  \<open>put\<close> files the serialized checkpoint without its channel values and the serialized metadata
  under thread, namespace and id, and a blob for every new channel version: the serialized
  value, or \<open>empty_blob\<close> where the checkpoint has none. A call that raises has stored nothing
  (the serialization of every part has succeeded before: the saver has estimated the size).
\<close>

definition channel_blob :: "parent_ops \<Rightarrow> pydict \<Rightarrow> string \<Rightarrow> serialized" where
  "channel_blob P checkpoint channel =
     (case py_get_or checkpoint ''channel_values'' (PDict []) of
        PDict d \<Rightarrow>
          (case sget d channel of
             None \<Rightarrow> empty_blob P
           | Some v \<Rightarrow> (case dumps_typed P v of Inl _ \<Rightarrow> empty_blob P | Inr b \<Rightarrow> b))
      | _ \<Rightarrow> empty_blob P)"

definition put_effect ::
  "parent_ops \<Rightarrow> pydict \<Rightarrow> pydict \<Rightarrow> pydict \<Rightarrow> (string \<times> pyval) list \<Rightarrow> string \<Rightarrow> string \<Rightarrow> string \<Rightarrow>
     mem \<Rightarrow> mem \<Rightarrow> bool" where
  "put_effect P config checkpoint metadata new_versions t ns c m m' \<longleftrightarrow>
     mem_wf m' \<and>
     (\<exists>a b parent.
        dumps_typed P (PDict (checkpoint_copy checkpoint)) = Inr a \<and>
        dumps_typed P (PDict (get_checkpoint_metadata P config metadata)) = Inr b \<and>
        stored m' (t, ns, c) = Some (a, b, parent)) \<and>
     (\<forall>k. k \<noteq> (t, ns, c) \<longrightarrow> stored m' k = stored m k) \<and>
     (\<forall>u. u \<noteq> t \<longrightarrow> dict_get (storage m') u = dict_get (storage m) u) \<and>
     namespaces_of m' t = insert ns (namespaces_of m t) \<and>
     (\<forall>k. dict_get (writes m') k = dict_get (writes m) k) \<and>
     (\<forall>k. dict_get (blobs m') k =
        (case k of (t', ns', channel, version) \<Rightarrow>
           if t' = t \<and> ns' = ns \<and> (channel, version) \<in> set new_versions
           then Some (channel_blob P checkpoint channel) else dict_get (blobs m) k))"

definition puts_checkpoint :: "parent_ops \<Rightarrow> bool" where
  "puts_checkpoint P \<longleftrightarrow>
     (\<forall>config checkpoint metadata new_versions t ns c total m.
        mem_wf m \<longrightarrow> config_location config = Some (t, ns) \<longrightarrow> sget checkpoint ''id'' = Some (PStr c) \<longrightarrow>
        estimate_checkpoint_size P config checkpoint metadata new_versions = Inr total \<longrightarrow>
        wp (super_put P config checkpoint metadata new_versions)
          (\<lambda>r m'. case r of Inl _ \<Rightarrow> m' = m
                  | Inr _ \<Rightarrow> put_effect P config checkpoint metadata new_versions t ns c m m') m)"

text \<open>
  \<open>put_writes\<close> enters the serialized values of the batch, each under the task and an index, and
  skips some that are already there; \<open>write_batch\<close> relates the batch to the entries it writes.
\<close>

inductive write_batch ::
  "parent_ops \<Rightarrow> string \<Rightarrow> string \<Rightarrow> (string \<times> pyval) list \<Rightarrow> ((string \<times> int) \<times> write_entry) list \<Rightarrow> bool"
  for P task_id task_path where
  batch_nil: "write_batch P task_id task_path [] []"
| batch_skip: "write_batch P task_id task_path ws es \<Longrightarrow> write_batch P task_id task_path (w # ws) es"
| batch_take: "dumps_typed P v = Inr b \<Longrightarrow> write_batch P task_id task_path ws es \<Longrightarrow>
     write_batch P task_id task_path ((channel, v) # ws)
       (((task_id, index), (task_id, channel, b, task_path)) # es)"

definition put_writes_effect ::
  "parent_ops \<Rightarrow> (string \<times> pyval) list \<Rightarrow> string \<Rightarrow> string \<Rightarrow> checkpoint_key \<Rightarrow> mem \<Rightarrow> mem \<Rightarrow> bool" where
  "put_writes_effect P ws task_id task_path key m m' \<longleftrightarrow>
     mem_wf m' \<and>
     (\<forall>u. dict_get (storage m') u = dict_get (storage m) u) \<and>
     (\<forall>k. dict_get (blobs m') k = dict_get (blobs m) k) \<and>
     (\<forall>k. k \<noteq> key \<longrightarrow> dict_get (writes m') k = dict_get (writes m) k) \<and>
     (\<exists>es. write_batch P task_id task_path ws es \<and>
           pending m' key = fold (\<lambda>(k, w) d. dict_set d k w) es (pending m key))"

definition puts_writes :: "parent_ops \<Rightarrow> bool" where
  "puts_writes P \<longleftrightarrow>
     (\<forall>config ws task_id task_path t ns c d total m.
        mem_wf m \<longrightarrow> config_location config = Some (t, ns) \<longrightarrow>
        py_get config ''configurable'' = PDict d \<longrightarrow> py_get d ''checkpoint_id'' = PStr c \<longrightarrow>
        sum_write_sizes P ws = Inr total \<longrightarrow>
        wp (super_put_writes P config ws task_id task_path)
          (\<lambda>r m'. case r of Inl _ \<Rightarrow> m' = m
                  | Inr _ \<Rightarrow> put_writes_effect P ws task_id task_path (t, ns, c) m m') m)"

text \<open>Lookups and listings for a thread answer from that thread's stored checkpoints.\<close>

definition finds_stored :: "parent_ops \<Rightarrow> bool" where
  "finds_stored P \<longleftrightarrow>
     (\<forall>config t ns m. mem_wf m \<longrightarrow> config_location config = Some (t, ns) \<longrightarrow>
        wp (super_get_tuple P config)
          (\<lambda>r _. \<forall>x. r = Inr (Some x) \<longrightarrow> (\<exists>ns c. stored m (t, ns, c) \<noteq> None)) m \<and>
        (\<forall>f b n. wp (super_list P (Some config) f b n)
          (\<lambda>r _. \<forall>xs. r = Inr xs \<longrightarrow> xs \<noteq> [] \<longrightarrow> (\<exists>ns c. stored m (t, ns, c) \<noteq> None)) m))"

definition parent_laws :: "parent_ops \<Rightarrow> bool" where
  "parent_laws P \<longleftrightarrow>
     finds_stored P \<and>
     (\<forall>c. reads_only (super_get_tuple P c)) \<and>
     (\<forall>c f b n. reads_only (super_list P c f b n)) \<and>
     (\<forall>c chs. reads_only (super_get_delta_channel_history P c chs)) \<and>
     deletes_thread (super_delete_thread P) \<and>
     puts_checkpoint P \<and> puts_writes P"

lemma parent_lawsD:
  assumes "parent_laws P"
  shows "reads_only (super_get_tuple P c)"
    and "reads_only (super_list P c' f b n)"
    and "reads_only (super_get_delta_channel_history P c chs)"
    and "deletes_thread (super_delete_thread P)"
    and "puts_checkpoint P"
    and "puts_writes P"
    and "finds_stored P"
  using assms by (simp_all add: parent_laws_def)



section \<open>The invariant\<close>

definition saver_inv :: "saver \<Rightarrow> bool" where
  "saver_inv s \<longleftrightarrow>
     ledger_ok s \<and> mem_wf (mem_of s) \<and> dict_wf (last_access s) \<and>
     (\<forall>k. ledger_size s k = payload (mem_of s) k) \<and>
     (\<forall>k. payload (mem_of s) k \<noteq> None \<longrightarrow> dict_has (last_access s) (key_thread k))"

lemma saver_invD:
  assumes "saver_inv s"
  shows "ledger_ok s" "mem_wf (mem_of s)" "dict_wf (last_access s)"
    "ledger_size s k = payload (mem_of s) k"
    "payload (mem_of s) k \<noteq> None \<Longrightarrow> dict_has (last_access s) (key_thread k)"
  using assms by (simp_all add: saver_inv_def)

lemma saver_inv_new: "saver_inv new_saver"
  by (simp add: saver_inv_def new_saver_def ledger_ok_def ledger_size_def)

lemma ledger_size_mem [simp]: "ledger_size (s\<lparr>mem_of := m\<rparr>) = ledger_size s"
  by (simp add: ledger_size_def fun_eq_iff)

lemma ledger_size_access [simp]: "ledger_size (s\<lparr>last_access := a\<rparr>) = ledger_size s"
  by (simp add: ledger_size_def fun_eq_iff)

lemma ledger_ok_mem [simp]: "ledger_ok (s\<lparr>mem_of := m\<rparr>) = ledger_ok s"
  by (simp add: ledger_ok_def)

lemma ledger_ok_access [simp]: "ledger_ok (s\<lparr>last_access := a\<rparr>) = ledger_ok s"
  by (simp add: ledger_ok_def)


subsection \<open>Deleting\<close>

lemma delete_law:
  assumes "parent_laws P" "mem_wf m"
  shows "mem_wf (super_delete_thread P t m)"
    and "stored (super_delete_thread P t m) k = (if fst k = t then None else stored m k)"
    and "pending (super_delete_thread P t m) k = (if fst k = t then [] else pending m k)"
    and "dict_get (blobs (super_delete_thread P t m)) b = (if fst b = t then None else dict_get (blobs m) b)"
    and "dict_get (storage (super_delete_thread P t m)) u = (if u = t then None else dict_get (storage m) u)"
    and "dict_get (writes (super_delete_thread P t m)) k = (if fst k = t then None else dict_get (writes m) k)"
proof -
  note law = parent_lawsD(4) [OF assms(1), unfolded deletes_thread_def, rule_format, OF assms(2), of t]
  show "mem_wf (super_delete_thread P t m)" using law by blast
  show "stored (super_delete_thread P t m) k = (if fst k = t then None else stored m k)"
    using law by (cases k) (simp add: stored_def)
  show "dict_get (writes (super_delete_thread P t m)) k = (if fst k = t then None else dict_get (writes m) k)"
    using law by (cases k) simp
  then show "pending (super_delete_thread P t m) k = (if fst k = t then [] else pending m k)"
    by (simp add: pending_def dict_get_or_def)
  show "dict_get (blobs (super_delete_thread P t m)) b = (if fst b = t then None else dict_get (blobs m) b)"
    using law by (cases b) simp
  show "dict_get (storage (super_delete_thread P t m)) u = (if u = t then None else dict_get (storage m) u)"
    using law by simp
qed

lemma payload_delete:
  "parent_laws P \<Longrightarrow> mem_wf m \<Longrightarrow>
     payload (super_delete_thread P t m) k = (if key_thread k = t then None else payload m k)"
  by (cases k) (simp_all add: delete_law)

lemma ledger_size_delete:
  "ledger_size (delete_thread_locked P t s) k = (if key_thread k = t then None else ledger_size s k)"
proof -
  have "ledger_size s k = None" if "k \<notin> set (dict_keys (sizes s))"
    using that by (simp add: ledger_size_def dict_key_iff)
  then show ?thesis
    by (auto simp: delete_thread_locked_def Let_def ledger.size_of_fold_remove)
qed

lemma saver_inv_delete [inv_intros]:
  assumes P: "parent_laws P" and s: "saver_inv s"
  shows "saver_inv (delete_thread_locked P t s)"
proof -
  have "ledger_ok (delete_thread_locked P t s)"
    unfolding delete_thread_locked_def Let_def
    by (intro ledger.ok_fold_remove) (simp add: saver_invD(1) [OF s])
  then show ?thesis
    using saver_invD [OF s] delete_law(1) [OF P, of "mem_of s"] payload_delete [OF P, of "mem_of s"]
    by (auto simp: saver_inv_def ledger_size_delete dict_has_pop)
qed

lemma saver_inv_fold_delete:
  "parent_laws P \<Longrightarrow> saver_inv s \<Longrightarrow> saver_inv (fold (delete_thread_locked P) ts s)"
  by (induction ts arbitrary: s) (auto intro: saver_inv_delete)

lemma saver_inv_purge: "parent_laws P \<Longrightarrow> preserves saver_inv (purge_expired_locked P cfg now)"
  by (rule preservesI) (simp add: wp_iff purge_expired_locked_def Let_def saver_inv_fold_delete)

lemma saver_inv_make_room_loop:
  "parent_laws P \<Longrightarrow> saver_inv s \<Longrightarrow> saver_inv (snd (make_room_loop P cfg s))"
proof (induction P cfg s rule: make_room_loop.induct)
  case (1 P cfg s)
  then show ?case
    by (subst make_room_loop.simps) (auto split: list.split simp: saver_inv_delete)
qed

lemma saver_inv_make_room_for_thread: "parent_laws P \<Longrightarrow> preserves saver_inv (make_room_for_thread_locked P cfg t)"
  by (rule preservesI) (simp add: wp_iff make_room_for_thread_locked_def saver_inv_make_room_loop)

lemma saver_inv_make_room_for_bytes:
  "parent_laws P \<Longrightarrow> preserves saver_inv (make_room_for_bytes_locked P cfg n t)"
proof (rule preservesI)
  show "parent_laws P \<Longrightarrow> saver_inv s \<Longrightarrow> wp (make_room_for_bytes_locked P cfg n t) (\<lambda>_. saver_inv) s" for s
  proof (induction P cfg n t s rule: make_room_for_bytes_locked.induct)
    case (1 P cfg n t s)
    then show ?case unfolding wp_iff
      by (subst make_room_for_bytes_locked.simps) (auto split: option.split intro: saver_inv_delete)
  qed
qed

lemma saver_inv_admit: "parent_laws P \<Longrightarrow> preserves saver_inv (admit P cfg now t ns c n)"
  unfolding admit_def
  by (intro preserves_bind preserves_basic saver_inv_purge saver_inv_make_room_for_thread
      saver_inv_make_room_for_bytes)


subsection \<open>Reading and touching\<close>

lemma payload_same: "same_contents m m' \<Longrightarrow> payload m' = payload m"
  by (rule ext, rename_tac k, case_tac k) (simp_all add: same_contents_def)

lemma reads_only_wp: "reads_only m \<Longrightarrow> mem_wf s \<Longrightarrow> wp m (\<lambda>_ t. mem_wf t \<and> same_contents s t) s"
  by (simp add: reads_only_def)

lemma saver_inv_same:
  "saver_inv s \<Longrightarrow> mem_wf m \<Longrightarrow> same_contents (mem_of s) m \<Longrightarrow> saver_inv (s\<lparr>mem_of := m\<rparr>)"
  by (simp add: saver_inv_def payload_same)

lemma saver_inv_read: "reads_only m \<Longrightarrow> preserves saver_inv (on_mem m)"
proof (rule preservesI)
  fix s assume m: "reads_only m" and s: "saver_inv s"
  show "wp (on_mem m) (\<lambda>_. saver_inv) s"
    unfolding wp_on_mem
    by (rule wp_mono [OF reads_only_wp [OF m saver_invD(2) [OF s]]]) (simp add: saver_inv_same s)
qed

lemma saver_inv_touch: "saver_inv s \<Longrightarrow> saver_inv (touch_locked now t s)"
  by (auto simp: saver_inv_def touch_locked_def dict_simps)

lemma touch_frame [simp]:
  "mem_of (touch_locked now t s) = mem_of s"
  "sizes (touch_locked now t s) = sizes s"
  "serialized_bytes (touch_locked now t s) = serialized_bytes s"
  "ledger_size (touch_locked now t s) = ledger_size s"
  by (simp_all add: touch_locked_def ledger_size_def fun_eq_iff)

lemma saver_inv_get_tuple: "parent_laws P \<Longrightarrow> preserves saver_inv (get_tuple P cfg now later config)"
  unfolding get_tuple_def
  by (auto intro!: inv_intros saver_inv_purge saver_inv_read saver_inv_touch preserves_modify
      intro: parent_lawsD split: option.split prod.split)

lemma saver_inv_list: "parent_laws P \<Longrightarrow> preserves saver_inv (list_checkpoints P cfg now later config f b n)"
  unfolding list_checkpoints_def
  by (auto intro!: inv_intros saver_inv_purge saver_inv_read saver_inv_touch preserves_modify
      intro: parent_lawsD split: option.split)

lemma saver_inv_delta:
  "parent_laws P \<Longrightarrow> preserves saver_inv (get_delta_channel_history P cfg now later config chs)"
  unfolding get_delta_channel_history_def
  by (auto intro!: inv_intros saver_inv_purge saver_inv_read saver_inv_touch preserves_modify
      intro: parent_lawsD split: prod.split)



subsection \<open>Storing a checkpoint\<close>

definition blob_entries ::
  "mem \<Rightarrow> string \<Rightarrow> string \<Rightarrow> (string \<times> pyval) list \<Rightarrow> (size_key \<times> int) list" where
  "blob_entries m t ns new_versions =
     concat (map (\<lambda>(channel, version).
       case dict_get (blobs m) (t, ns, channel, version) of
         None \<Rightarrow> []
       | Some blob \<Rightarrow> [(BlobKey t ns channel version, serialized_size blob)]) new_versions)"

lemma record_blob_sizes_fold:
  "record_blob_sizes t ns nv s = fold (\<lambda>(k, n). set_size_locked k n) (blob_entries (mem_of s) t ns nv) s"
proof (induction t ns nv s rule: record_blob_sizes.induct)
  case (2 t ns channel version rest s)
  then show ?case by (auto simp: blob_entries_def split: option.split)
qed (simp add: blob_entries_def)

text \<open>The entries written after a checkpoint was stored, in the order of the code.\<close>

definition checkpoint_entries ::
  "mem \<Rightarrow> string \<Rightarrow> string \<Rightarrow> string \<Rightarrow> checkpoint_entry \<Rightarrow> (string \<times> pyval) list \<Rightarrow> (size_key \<times> int) list" where
  "checkpoint_entries m t ns c e nv = (CheckpointKey t ns c, entry_size e) # blob_entries m t ns nv"

lemma record_checkpoint_fold:
  "stored (mem_of s) (t, ns, c) = Some e \<Longrightarrow>
     record_checkpoint_sizes_locked t ns c nv s =
       (Inr (), fold (\<lambda>(k, n). set_size_locked k n) (checkpoint_entries (mem_of s) t ns c e nv) s)"
  by (simp add: record_checkpoint_sizes_locked_def record_blob_sizes_fold checkpoint_entries_def)

lemma fold_set_size_frame [simp]:
  "mem_of (fold (\<lambda>(k, n). set_size_locked k n) kns s) = mem_of s"
  "last_access (fold (\<lambda>(k, n). set_size_locked k n) kns s) = last_access s"
  by (induction kns arbitrary: s) auto

text \<open>Writing the true sizes of some keys leaves a ledger that agrees on them.\<close>

lemma ledger_fold_payload:
  assumes "\<And>k n. (k, n) \<in> set kns \<Longrightarrow> payload m k = Some n"
    and "\<And>k. k \<notin> fst ` set kns \<Longrightarrow> ledger_size s k = payload m k"
  shows "ledger_size (fold (\<lambda>(k, n). set_size_locked k n) kns s) k = payload m k"
proof (cases "map_of (rev kns) k")
  case None
  then have "k \<notin> fst ` set kns" by (simp add: map_of_eq_None_iff)
  then show ?thesis using assms(2) None by (simp add: ledger.size_of_fold_set)
next
  case (Some n)
  then have "(k, n) \<in> set kns" by (auto dest: map_of_SomeD)
  then show ?thesis using assms(1) Some by (simp add: ledger.size_of_fold_set)
qed

lemma set_blob_entries:
  "set (blob_entries m t ns nv) =
     {(BlobKey t ns channel version, serialized_size blob) | channel version blob.
        (channel, version) \<in> set nv \<and> dict_get (blobs m) (t, ns, channel, version) = Some blob}"
proof (induction nv)
  case (Cons p nv)
  obtain channel version where p: "p = (channel, version)" by (cases p)
  have "blob_entries m t ns (p # nv) =
      (case dict_get (blobs m) (t, ns, channel, version) of
         None \<Rightarrow> [] | Some blob \<Rightarrow> [(BlobKey t ns channel version, serialized_size blob)]) @ blob_entries m t ns nv"
    by (simp add: blob_entries_def p)
  then show ?case using Cons
    by (cases "dict_get (blobs m) (t, ns, channel, version)") (auto simp: p)
qed (simp add: blob_entries_def)

lemma blob_entries_payload: "(k, n) \<in> set (blob_entries m t ns nv) \<Longrightarrow> payload m k = Some n"
  by (auto simp: set_blob_entries)

lemma blob_entries_keys:
  "BlobKey t' ns' channel version \<in> fst ` set (blob_entries m t ns nv) \<longleftrightarrow>
     t' = t \<and> ns' = ns \<and> (channel, version) \<in> set nv \<and>
     dict_get (blobs m) (t, ns, channel, version) \<noteq> None"
  by (force simp: set_blob_entries image_iff)

lemma put_effectD:
  assumes "put_effect P config checkpoint metadata nv t ns c m m'"
  shows "mem_wf m'"
    and "k \<noteq> (t, ns, c) \<Longrightarrow> stored m' k = stored m k"
    and "pending m' k = pending m k"
    and "dict_get (writes m') k = dict_get (writes m) k"
    and "dict_get (blobs m') (t', ns', ch, v) =
           (if t' = t \<and> ns' = ns \<and> (ch, v) \<in> set nv then Some (channel_blob P checkpoint ch)
            else dict_get (blobs m) (t', ns', ch, v))"
    and "namespaces_of m' t = insert ns (namespaces_of m t)"
    and "u \<noteq> t \<Longrightarrow> dict_get (storage m') u = dict_get (storage m) u"
proof -
  note e = assms [unfolded put_effect_def]
  show "mem_wf m'" using e by blast
  show "stored m' k = stored m k" if "k \<noteq> (t, ns, c)" using e that by blast
  show "dict_get (writes m') k = dict_get (writes m) k" using e by blast
  then show "pending m' k = pending m k" by (simp add: pending_def dict_get_or_def)
  show "dict_get (blobs m') (t', ns', ch, v) =
      (if t' = t \<and> ns' = ns \<and> (ch, v) \<in> set nv then Some (channel_blob P checkpoint ch)
       else dict_get (blobs m) (t', ns', ch, v))" using e by simp
  show "namespaces_of m' t = insert ns (namespaces_of m t)" using e by blast
  show "dict_get (storage m') u = dict_get (storage m) u" if "u \<noteq> t" using e that by blast
qed

lemma put_effect_stored:
  assumes "put_effect P config checkpoint metadata nv t ns c m m'"
  obtains a b parent where "stored m' (t, ns, c) = Some (a, b, parent)"
    and "dumps_typed P (PDict (checkpoint_copy checkpoint)) = Inr a"
    and "dumps_typed P (PDict (get_checkpoint_metadata P config metadata)) = Inr b"
  using assms unfolding put_effect_def by blast

lemma payload_put:
  assumes "put_effect P config checkpoint metadata nv t ns c m m'"
    and "k \<notin> fst ` set (checkpoint_entries m' t ns c e nv)"
  shows "payload m' k = payload m k"
proof (cases k)
  case (BlobKey t' ns' ch v)
  then show ?thesis
    using assms(2) put_effectD(5) [OF assms(1), of t' ns' ch v]
    by (cases "t' = t \<and> ns' = ns \<and> (ch, v) \<in> set nv") (simp_all add: checkpoint_entries_def blob_entries_keys del: not_None_eq)
qed (use assms(2) put_effectD [OF assms(1)] in \<open>auto simp: checkpoint_entries_def\<close>)

lemma payload_put_thread:
  assumes "put_effect P config checkpoint metadata nv t ns c m m'" "key_thread k \<noteq> t"
  shows "payload m' k = payload m k"
  using assms(2) put_effectD [OF assms(1)] by (cases k) auto

text \<open>The state after the parent's \<open>put\<close>, the recording of sizes and the touch.\<close>

definition committed_put ::
  "rat \<Rightarrow> string \<Rightarrow> string \<Rightarrow> string \<Rightarrow> checkpoint_entry \<Rightarrow> (string \<times> pyval) list \<Rightarrow> mem \<Rightarrow> saver \<Rightarrow> saver" where
  "committed_put later t ns c e nv m' s =
     touch_locked later t
       (fold (\<lambda>(k, n). set_size_locked k n) (checkpoint_entries m' t ns c e nv) (s\<lparr>mem_of := m'\<rparr>))"

lemma saver_inv_committed_put:
  assumes s: "saver_inv s" and eff: "put_effect P config checkpoint metadata nv t ns c (mem_of s) m'"
    and e: "stored m' (t, ns, c) = Some e"
  shows "saver_inv (committed_put later t ns c e nv m' s)"
proof -
  let ?kns = "checkpoint_entries m' t ns c e nv"
  let ?f = "fold (\<lambda>(k, n). set_size_locked k n) ?kns (s\<lparr>mem_of := m'\<rparr>)"
  have kns: "payload m' k = Some n" if "(k, n) \<in> set ?kns" for k n
    using that e by (auto simp: checkpoint_entries_def blob_entries_payload)
  have "ledger_size ?f k = payload m' k" for k
    by (rule ledger_fold_payload [OF kns])
      (simp_all add: saver_invD(4) [OF s] payload_put [OF eff])
  moreover have "dict_has (last_access s) (key_thread k) \<or> key_thread k = t"
    if "payload m' k \<noteq> None" for k
    using that payload_put_thread [OF eff] saver_invD(5) [OF s] by metis
  ultimately show ?thesis
    using saver_invD(1,3) [OF s] put_effectD(1) [OF eff]
    by (auto simp: committed_put_def saver_inv_def dict_simps touch_locked_def ledger.ok_fold_set)
qed

lemma put_arguments_Inr:
  assumes "put_arguments P cfg config checkpoint metadata nv = Inr (t, ns, c, n)"
  shows "validated_location cfg config = Inr (t, ns)" "config_location config = Some (t, ns)"
    and "sget checkpoint ''id'' = Some (PStr c)"
    and "estimate_checkpoint_size P config checkpoint metadata nv = Inr n"
    and "n \<le> max_checkpoint_bytes cfg"
  using assms validated_location_config [of cfg config t ns]
  by (auto simp: put_arguments_def bind_sum_eq_Inr validated_identifier_Inr split: option.splits)

lemma put_law:
  assumes "parent_laws P" "mem_wf m"
    and "put_arguments P cfg config checkpoint metadata nv = Inr (t, ns, c, n)"
  shows "wp (super_put P config checkpoint metadata nv)
      (\<lambda>r m'. case r of Inl _ \<Rightarrow> m' = m | Inr _ \<Rightarrow> put_effect P config checkpoint metadata nv t ns c m m') m"
  using parent_lawsD(5) [OF assms(1)] assms(2) put_arguments_Inr [OF assms(3)]
  unfolding puts_checkpoint_def by blast

text \<open>
  The rule for \<open>put\<close>: the exits are a refused argument, a refused admission, an exception of the
  parent's method (both in the state after eviction), and the committed state.
\<close>

lemma wp_put:
  assumes P: "parent_laws P" and s: "saver_inv s"
    and args: "\<And>e. put_arguments P cfg config checkpoint metadata nv = Inl e \<Longrightarrow> Q (Inl e) s"
    and adm: "\<And>t ns c n. put_arguments P cfg config checkpoint metadata nv = Inr (t, ns, c, n) \<Longrightarrow>
       wp (admit P cfg now t ns c n)
         (\<lambda>r s'. case r of Inl e \<Rightarrow> Q (Inl e) s'
           | Inr _ \<Rightarrow> saver_inv s' \<longrightarrow> (\<forall>x. Q (Inl x) s') \<and>
               (\<forall>x m' e. put_effect P config checkpoint metadata nv t ns c (mem_of s') m' \<longrightarrow>
                  stored m' (t, ns, c) = Some e \<longrightarrow> Q (Inr x) (committed_put later t ns c e nv m' s'))) s"
  shows "wp (put P cfg now later config checkpoint metadata nv) Q s"
proof (cases "put_arguments P cfg config checkpoint metadata nv")
  case (Inl e)
  then show ?thesis using args by (simp add: put_def wp_bind wp_simps)
next
  case (Inr a)
  obtain t ns c n where a: "a = (t, ns, c, n)" by (cases a)
  let ?rest = "bind_op (on_mem (super_put P config checkpoint metadata nv)) (\<lambda>result.
     bind_op (record_checkpoint_sizes_locked t ns c nv) (\<lambda>_.
     bind_op (modify_op (touch_locked later t)) (\<lambda>_. ret result)))"
  have rest: "wp ?rest Q s'"
    if s': "saver_inv s'" and x: "\<And>x. Q (Inl x) s'"
      and ok: "\<And>x m' e. put_effect P config checkpoint metadata nv t ns c (mem_of s') m' \<Longrightarrow>
         stored m' (t, ns, c) = Some e \<Longrightarrow> Q (Inr x) (committed_put later t ns c e nv m' s')" for s'
    unfolding wp_bind wp_on_mem
  proof (rule wp_mono [OF put_law [OF P saver_invD(2) [OF s'] Inr [unfolded a]]])
    fix r :: "exc + pydict" and m'
    assume r: "case r of Inl _ \<Rightarrow> m' = mem_of s'
      | Inr _ \<Rightarrow> put_effect P config checkpoint metadata nv t ns c (mem_of s') m'"
    show "case r of Inl e \<Rightarrow> Q (Inl e) (s'\<lparr>mem_of := m'\<rparr>)
      | Inr x \<Rightarrow> wp (record_checkpoint_sizes_locked t ns c nv)
          (\<lambda>r t'. case r of Inl e \<Rightarrow> Q (Inl e) t'
             | Inr _ \<Rightarrow> wp (modify_op (touch_locked later t))
                 (\<lambda>r t. case r of Inl e \<Rightarrow> Q (Inl e) t | Inr _ \<Rightarrow> wp (ret x) Q t) t') (s'\<lparr>mem_of := m'\<rparr>)"
    proof (cases r)
      case (Inr x)
      then have eff: "put_effect P config checkpoint metadata nv t ns c (mem_of s') m'" using r by simp
      obtain e where e: "stored m' (t, ns, c) = Some e" using put_effect_stored [OF eff] by metis
      then have "record_checkpoint_sizes_locked t ns c nv (s'\<lparr>mem_of := m'\<rparr>) =
          (Inr (), fold (\<lambda>(k, n). set_size_locked k n) (checkpoint_entries m' t ns c e nv) (s'\<lparr>mem_of := m'\<rparr>))"
        by (simp add: record_checkpoint_fold)
      then show ?thesis
        using Inr ok [OF eff e, of x] by (simp add: wp_iff modify_op_def ret_def committed_put_def)
    qed (use r x in simp)
  qed
  have "wp (put P cfg now later config checkpoint metadata nv) Q s \<longleftrightarrow>
      wp (admit P cfg now t ns c n) (\<lambda>r s'. case r of Inl e \<Rightarrow> Q (Inl e) s' | Inr _ \<Rightarrow> wp ?rest Q s') s"
    by (simp add: put_def Inr a wp_bind wp_simps)
  also have "\<dots>"
    using wp_conj [OF adm [OF Inr [unfolded a]] preserves_wp [OF saver_inv_admit [OF P] s]]
    by (rule wp_mono) (auto split: sum.splits intro!: rest)
  finally show ?thesis .
qed

lemma saver_inv_put: "parent_laws P \<Longrightarrow> preserves saver_inv (put P cfg now later config checkpoint metadata nv)"
proof (rule preservesI)
  fix s assume P: "parent_laws P" and s: "saver_inv s"
  show "wp (put P cfg now later config checkpoint metadata nv) (\<lambda>_. saver_inv) s"
  proof (rule wp_put [OF P s])
    show "wp (admit P cfg now t ns c n)
       (\<lambda>r s'. case r of Inl e \<Rightarrow> saver_inv s'
         | Inr _ \<Rightarrow> saver_inv s' \<longrightarrow> (\<forall>x::exc. saver_inv s') \<and>
             (\<forall>x m' e. put_effect P config checkpoint metadata nv t ns c (mem_of s') m' \<longrightarrow>
                stored m' (t, ns, c) = Some e \<longrightarrow> saver_inv (committed_put later t ns c e nv m' s'))) s"
      for t ns c n
      by (rule wp_mono [OF preserves_wp [OF saver_inv_admit [OF P] s]])
        (auto split: sum.split intro: saver_inv_committed_put)
  qed (use s in auto)
qed


subsection \<open>Storing pending writes\<close>

definition write_entries :: "mem \<Rightarrow> string \<Rightarrow> string \<Rightarrow> string \<Rightarrow> (size_key \<times> int) list" where
  "write_entries m t ns c =
     map (\<lambda>((task, index), w). (WriteKey t ns c task index, write_size w)) (pending m (t, ns, c))"

lemma record_write_sizes_fold:
  "record_write_sizes_locked t ns c s =
     fold (\<lambda>(k, n). set_size_locked k n) (write_entries (mem_of s) t ns c) s"
  unfolding record_write_sizes_locked_def write_entries_def
  by (simp add: fold_map comp_def case_prod_unfold)

lemma write_entries_distinct: "mem_wf m \<Longrightarrow> distinct (map fst (write_entries m t ns c))"
proof -
  assume "mem_wf m"
  then have "distinct (map fst (pending m (t, ns, c)))" using pending_wf by (simp add: dict_wf_def)
  then have "distinct (map (\<lambda>(task, index). WriteKey t ns c task index) (map fst (pending m (t, ns, c))))"
    by (subst distinct_map) (auto simp: inj_on_def)
  then show ?thesis by (simp add: write_entries_def comp_def case_prod_unfold)
qed

lemma write_entries_payload:
  assumes "mem_wf m" "(k, n) \<in> set (write_entries m t ns c)"
  shows "payload m k = Some n"
  using assms pending_wf [OF assms(1), of "(t, ns, c)"]
  by (auto simp: write_entries_def dict_wf_def)

lemma write_entries_keys:
  "WriteKey t ns c task index \<in> fst ` set (write_entries m t ns c) \<longleftrightarrow>
     dict_get (pending m (t, ns, c)) (task, index) \<noteq> None"
proof -
  have "WriteKey t ns c task index \<in>
      fst ` set (map (\<lambda>((task, index), w). (WriteKey t ns c task index, write_size w)) d) \<longleftrightarrow>
      (task, index) \<in> fst ` set d" for d :: "(string \<times> int, write_entry) dict"
    by (induction d) auto
  then show ?thesis by (simp only: write_entries_def dict_key_iff)
qed

lemma dict_get_fold_set:
  "dict_get (fold (\<lambda>(k, w) d. dict_set d k w) es d) x =
     (case map_of (rev es) x of None \<Rightarrow> dict_get d x | Some w \<Rightarrow> Some w)"
  by (induction es arbitrary: d) (auto simp: dict_get_set map_add_def split: option.split)

lemma put_writes_effectD:
  assumes "put_writes_effect P ws task_id task_path key m m'"
  shows "mem_wf m'"
    and "stored m' k = stored m k"
    and "dict_get (blobs m') b = dict_get (blobs m) b"
    and "k \<noteq> key \<Longrightarrow> pending m' k = pending m k"
    and "k \<noteq> key \<Longrightarrow> dict_get (writes m') k = dict_get (writes m) k"
    and "dict_get (storage m') u = dict_get (storage m) u"
    and "dict_get (pending m' key) x = None \<Longrightarrow> dict_get (pending m key) x = None"
proof -
  note e = assms [unfolded put_writes_effect_def]
  show "mem_wf m'" using e by blast
  show storage: "dict_get (storage m') u = dict_get (storage m) u" for u using e by blast
  show "stored m' k = stored m k" by (simp add: stored_def storage)
  show "dict_get (blobs m') b = dict_get (blobs m) b" using e by blast
  show w: "dict_get (writes m') k = dict_get (writes m) k" if "k \<noteq> key" using e that by blast
  show "pending m' k = pending m k" if "k \<noteq> key" using w [OF that] by (simp add: pending_def dict_get_or_def)
  show "dict_get (pending m key) x = None" if "dict_get (pending m' key) x = None"
    using e that by (auto simp: dict_get_fold_set split: option.splits)
qed

lemma put_writes_effect_batch:
  assumes "put_writes_effect P ws task_id task_path key m m'"
  obtains es where "write_batch P task_id task_path ws es"
    and "pending m' key = fold (\<lambda>(k, w) d. dict_set d k w) es (pending m key)"
  using assms unfolding put_writes_effect_def by blast

lemma payload_put_writes:
  assumes "put_writes_effect P ws task_id task_path (t, ns, c) m m'"
    and "k \<notin> fst ` set (write_entries m' t ns c)"
  shows "payload m' k = payload m k"
proof (cases k)
  case (WriteKey t' ns' c' task index)
  show ?thesis
  proof (cases "(t', ns', c') = (t, ns, c)")
    case True
    then have "dict_get (pending m' (t, ns, c)) (task, index) = None"
      using assms(2) WriteKey by (simp add: write_entries_keys del: not_None_eq)
    then show ?thesis using WriteKey True put_writes_effectD(7) [OF assms(1)] by simp
  qed (use WriteKey put_writes_effectD(4) [OF assms(1)] in simp)
qed (use put_writes_effectD [OF assms(1)] in simp_all)

lemma payload_put_writes_thread:
  assumes "put_writes_effect P ws task_id task_path (t, ns, c) m m'" "key_thread k \<noteq> t"
  shows "payload m' k = payload m k"
  using assms(2) put_writes_effectD [OF assms(1)] by (cases k) auto

definition committed_writes :: "rat \<Rightarrow> string \<Rightarrow> string \<Rightarrow> string \<Rightarrow> mem \<Rightarrow> saver \<Rightarrow> saver" where
  "committed_writes later t ns c m' s =
     touch_locked later t
       (fold (\<lambda>(k, n). set_size_locked k n) (write_entries m' t ns c) (s\<lparr>mem_of := m'\<rparr>))"

lemma saver_inv_committed_writes:
  assumes s: "saver_inv s" and eff: "put_writes_effect P ws task_id task_path (t, ns, c) (mem_of s) m'"
  shows "saver_inv (committed_writes later t ns c m' s)"
proof -
  let ?kns = "write_entries m' t ns c"
  let ?f = "fold (\<lambda>(k, n). set_size_locked k n) ?kns (s\<lparr>mem_of := m'\<rparr>)"
  have "ledger_size ?f k = payload m' k" for k
    by (rule ledger_fold_payload [OF write_entries_payload [OF put_writes_effectD(1) [OF eff]]])
      (simp_all add: saver_invD(4) [OF s] payload_put_writes [OF eff])
  moreover have "dict_has (last_access s) (key_thread k) \<or> key_thread k = t"
    if "payload m' k \<noteq> None" for k
    using that payload_put_writes_thread [OF eff] saver_invD(5) [OF s] by metis
  ultimately show ?thesis
    using saver_invD(1,3) [OF s] put_writes_effectD(1) [OF eff]
    by (auto simp: committed_writes_def saver_inv_def dict_simps touch_locked_def ledger.ok_fold_set)
qed

lemma put_writes_arguments_Inr:
  assumes "put_writes_arguments P cfg config ws task_idv task_path = Inr (t, ns, c, task_id, n)"
  obtains d total where "validated_location cfg config = Inr (t, ns)" "config_location config = Some (t, ns)"
    and "py_get config ''configurable'' = PDict d" "py_get d ''checkpoint_id'' = PStr c"
    and "task_idv = PStr task_id" "sum_write_sizes P ws = Inr total"
    and "n = total + int (utf8_len task_id) + int (utf8_len task_path)" "n \<le> max_pending_write_bytes cfg"
  using assms validated_location_config [of cfg config t ns]
  by (auto simp: put_writes_arguments_def bind_sum_eq_Inr validated_identifier_Inr estimate_write_size_def
      split: pyval.splits)

lemma put_writes_law:
  assumes "parent_laws P" "mem_wf m"
    and "put_writes_arguments P cfg config ws task_idv task_path = Inr (t, ns, c, task_id, n)"
  shows "wp (super_put_writes P config ws task_id task_path)
      (\<lambda>r m'. case r of Inl _ \<Rightarrow> m' = m | Inr _ \<Rightarrow> put_writes_effect P ws task_id task_path (t, ns, c) m m') m"
proof -
  obtain d total where "config_location config = Some (t, ns)" "py_get config ''configurable'' = PDict d"
    "py_get d ''checkpoint_id'' = PStr c" "sum_write_sizes P ws = Inr total"
    by (rule put_writes_arguments_Inr [OF assms(3)])
  then show ?thesis
    using parent_lawsD(6) [OF assms(1)] assms(2) unfolding puts_writes_def by blast
qed

lemma wp_put_writes:
  assumes P: "parent_laws P" and s: "saver_inv s"
    and args: "\<And>e. put_writes_arguments P cfg config ws task_idv task_path = Inl e \<Longrightarrow> Q (Inl e) s"
    and adm: "\<And>t ns c task_id n.
       put_writes_arguments P cfg config ws task_idv task_path = Inr (t, ns, c, task_id, n) \<Longrightarrow>
       wp (admit P cfg now t ns c n)
         (\<lambda>r s'. case r of Inl e \<Rightarrow> Q (Inl e) s'
           | Inr _ \<Rightarrow> saver_inv s' \<longrightarrow> (\<forall>x. Q (Inl x) s') \<and>
               (\<forall>m'. put_writes_effect P ws task_id task_path (t, ns, c) (mem_of s') m' \<longrightarrow>
                  Q (Inr ()) (committed_writes later t ns c m' s'))) s"
  shows "wp (put_writes P cfg now later config ws task_idv task_path) Q s"
proof (cases "put_writes_arguments P cfg config ws task_idv task_path")
  case (Inl e)
  then show ?thesis using args by (simp add: put_writes_def wp_bind wp_simps)
next
  case (Inr a)
  obtain t ns c task_id n where a: "a = (t, ns, c, task_id, n)" by (cases a)
  let ?rest = "bind_op (on_mem (super_put_writes P config ws task_id task_path)) (\<lambda>_.
     bind_op (modify_op (record_write_sizes_locked t ns c)) (\<lambda>_. modify_op (touch_locked later t)))"
  have rest: "wp ?rest Q s'"
    if s': "saver_inv s'" and x: "\<And>x. Q (Inl x) s'"
      and ok: "\<And>m'. put_writes_effect P ws task_id task_path (t, ns, c) (mem_of s') m' \<Longrightarrow>
         Q (Inr ()) (committed_writes later t ns c m' s')" for s'
    unfolding wp_bind wp_on_mem
    by (rule wp_mono [OF put_writes_law [OF P saver_invD(2) [OF s'] Inr [unfolded a]]])
      (auto simp: wp_simps record_write_sizes_fold x committed_writes_def [symmetric] intro: ok split: sum.splits)
  have "wp (put_writes P cfg now later config ws task_idv task_path) Q s \<longleftrightarrow>
      wp (admit P cfg now t ns c n) (\<lambda>r s'. case r of Inl e \<Rightarrow> Q (Inl e) s' | Inr _ \<Rightarrow> wp ?rest Q s') s"
    by (simp add: put_writes_def Inr a wp_bind wp_simps)
  also have "\<dots>"
    using wp_conj [OF adm [OF Inr [unfolded a]] preserves_wp [OF saver_inv_admit [OF P] s]]
    by (rule wp_mono) (auto split: sum.splits intro!: rest)
  finally show ?thesis .
qed

lemma saver_inv_put_writes: "parent_laws P \<Longrightarrow> preserves saver_inv (put_writes P cfg now later config ws tk tp)"
proof (rule preservesI)
  fix s assume P: "parent_laws P" and s: "saver_inv s"
  show "wp (put_writes P cfg now later config ws tk tp) (\<lambda>_. saver_inv) s"
  proof (rule wp_put_writes [OF P s])
    show "wp (admit P cfg now t ns c n)
       (\<lambda>r s'. case r of Inl e \<Rightarrow> saver_inv s'
         | Inr _ \<Rightarrow> saver_inv s' \<longrightarrow> (\<forall>x::exc. saver_inv s') \<and>
             (\<forall>m'. put_writes_effect P ws task_id tp (t, ns, c) (mem_of s') m' \<longrightarrow>
                saver_inv (committed_writes later t ns c m' s'))) s" for t ns c task_id n
      by (rule wp_mono [OF preserves_wp [OF saver_inv_admit [OF P] s]])
        (auto split: sum.split intro: saver_inv_committed_writes)
  qed (use s in auto)
qed


subsection \<open>Every operation\<close>

lemma saver_inv_delete_thread: "parent_laws P \<Longrightarrow> preserves saver_inv (delete_thread P cfg v)"
  unfolding delete_thread_def by (intro inv_intros preserves_modify saver_inv_delete)

lemma saver_inv_clear: "preserves saver_inv clear"
proof -
  have "m\<lparr>storage := [], writes := [], blobs := []\<rparr> = empty_mem" for m :: mem
    by (simp add: empty_mem_def)
  then show ?thesis
    unfolding clear_def by (intro preserves_modify) (simp add: saver_inv_def ledger_ok_def ledger_size_def)
qed

lemma saver_inv_stats: "parent_laws P \<Longrightarrow> preserves saver_inv (stats P cfg now)"
  unfolding stats_def by (intro inv_intros saver_inv_purge)

lemmas saver_inv_ops = saver_inv_get_tuple saver_inv_list saver_inv_put saver_inv_put_writes
  saver_inv_delete_thread saver_inv_delta saver_inv_purge saver_inv_clear saver_inv_stats

lemma saver_inv_exec: "parent_laws P \<Longrightarrow> saver_inv s \<Longrightarrow> saver_inv (saver_exec P cfg ev s)"
  by (cases ev) (auto simp: run_op_def purge_expired_def intro: preservesD saver_inv_ops)

text \<open>
  Every reachable state of a saver: any sequence of operations from the empty saver. The step
  relation only moves when the parent class keeps its laws, so that the interpretation holds
  for all of them at once.
\<close>

definition saver_step :: "parent_ops \<Rightarrow> checkpoint_config \<Rightarrow> saver \<Rightarrow> saver \<Rightarrow> bool" where
  "saver_step P cfg s s' \<longleftrightarrow> parent_laws P \<and> (\<exists>ev. s' = saver_exec P cfg ev s)"

definition saver_run :: "parent_ops \<Rightarrow> checkpoint_config \<Rightarrow> saver_event list \<Rightarrow> saver" where
  "saver_run P cfg evs = fold (saver_exec P cfg) evs new_saver"

interpretation saver_system: transition_system "\<lambda>s. s = new_saver" "saver_step P cfg" saver_inv for P cfg
  by unfold_locales (auto simp: saver_step_def intro: saver_inv_new saver_inv_exec)

lemma saver_run_steps: "parent_laws P \<Longrightarrow> (saver_step P cfg)\<^sup>*\<^sup>* s (fold (saver_exec P cfg) evs s)"
proof (induction evs arbitrary: s)
  case (Cons ev evs)
  have "saver_step P cfg s (saver_exec P cfg ev s)" using Cons.prems by (auto simp: saver_step_def)
  then show ?case using Cons by (auto intro: converse_rtranclp_into_rtranclp)
qed simp

lemma saver_inv_run: "parent_laws P \<Longrightarrow> saver_inv (saver_run P cfg evs)"
  unfolding saver_run_def by (rule saver_system.steps_inv [OF saver_run_steps saver_inv_new])

end
