(* ===== verification/SaverLimits.thy ===== *)
theory SaverLimits
  imports SaverInvariant
begin

text \<open>
  What the limits of the saver amount to: which threads an operation may remove and in which
  order, what the removal leaves of a thread, and the bounds on threads, checkpoints and bytes.
\<close>


section \<open>Removal of whole threads\<close>

definition same_thread :: "mem \<Rightarrow> mem \<Rightarrow> string \<Rightarrow> bool" where
  "same_thread m m' t \<longleftrightarrow>
     dict_get (storage m') t = dict_get (storage m) t \<and>
     (\<forall>ns c. dict_get (writes m') (t, ns, c) = dict_get (writes m) (t, ns, c)) \<and>
     (\<forall>ns ch v. dict_get (blobs m') (t, ns, ch, v) = dict_get (blobs m) (t, ns, ch, v))"

definition no_thread :: "mem \<Rightarrow> string \<Rightarrow> bool" where
  "no_thread m t \<longleftrightarrow>
     dict_get (storage m) t = None \<and> (\<forall>ns c. dict_get (writes m) (t, ns, c) = None) \<and>
     (\<forall>ns ch v. dict_get (blobs m) (t, ns, ch, v) = None)"

lemma same_thread_refl [simp]: "same_thread m m t"
  by (simp add: same_thread_def)

lemma same_thread_trans: "same_thread m m' t \<Longrightarrow> same_thread m' m'' t \<Longrightarrow> same_thread m m'' t"
  by (simp add: same_thread_def)

lemma same_thread_stored: "same_thread m m' t \<Longrightarrow> stored m' (t, ns, c) = stored m (t, ns, c)"
  by (simp add: same_thread_def stored_def)

lemma same_thread_payload: "same_thread m m' t \<Longrightarrow> key_thread k = t \<Longrightarrow> payload m' k = payload m k"
  by (cases k) (auto simp: same_thread_def stored_def pending_def dict_get_or_def)

lemma same_thread_namespaces: "same_thread m m' t \<Longrightarrow> namespaces_of m' t = namespaces_of m t"
  by (simp add: same_thread_def namespaces_of_def dict_has_iff dict_get_or_def)

lemma same_thread_checkpoints: "same_thread m m' t \<Longrightarrow> checkpoints_of m' t = checkpoints_of m t"
  by (simp add: same_thread_def checkpoints_of_def dict_has_iff stored_def)

lemma no_thread_payload: "no_thread m t \<Longrightarrow> key_thread k = t \<Longrightarrow> payload m k = None"
  by (cases k) (auto simp: no_thread_def stored_def pending_def dict_get_or_def)

lemma no_thread_checkpoints: "no_thread m t \<Longrightarrow> checkpoints_of m t = {}"
  by (simp add: no_thread_def checkpoints_of_def dict_has_iff stored_def)

lemma checkpoints_of_empty_no_thread: "namespaces_of m t = {} \<Longrightarrow> checkpoints_of m t = {}"
  by (auto simp: namespaces_of_def checkpoints_of_def stored_def dict_has_iff dict_get_or_def
      split: option.splits)

text \<open>The state after dropping some threads, and what has become of each thread.\<close>

abbreviation drop_threads :: "parent_ops \<Rightarrow> string list \<Rightarrow> saver \<Rightarrow> saver" where
  "drop_threads P ts s \<equiv> fold (delete_thread_locked P) ts s"

lemma same_thread_delete:
  "parent_laws P \<Longrightarrow> mem_wf m \<Longrightarrow> u \<noteq> t \<Longrightarrow> same_thread m (super_delete_thread P t m) u"
  by (simp add: same_thread_def delete_law)

lemma no_thread_delete: "parent_laws P \<Longrightarrow> mem_wf m \<Longrightarrow> no_thread (super_delete_thread P t m) t"
  by (simp add: no_thread_def delete_law)

lemma no_thread_delete_other:
  "parent_laws P \<Longrightarrow> mem_wf m \<Longrightarrow> no_thread m u \<Longrightarrow> no_thread (super_delete_thread P t m) u"
  by (simp add: no_thread_def delete_law)

lemma drop_threads_mem_wf: "parent_laws P \<Longrightarrow> mem_wf (mem_of s) \<Longrightarrow> mem_wf (mem_of (drop_threads P ts s))"
  by (induction ts arbitrary: s) (simp_all add: delete_law(1))

lemma drop_threads_other:
  "parent_laws P \<Longrightarrow> mem_wf (mem_of s) \<Longrightarrow> u \<notin> set ts \<Longrightarrow>
     same_thread (mem_of s) (mem_of (drop_threads P ts s)) u"
proof (induction ts arbitrary: s)
  case (Cons t ts)
  have "same_thread (mem_of s) (mem_of (delete_thread_locked P t s)) u"
    using Cons.prems by (simp add: same_thread_delete)
  moreover have "same_thread (mem_of (delete_thread_locked P t s)) (mem_of (drop_threads P ts (delete_thread_locked P t s))) u"
    using Cons.prems by (intro Cons.IH) (simp_all add: delete_law(1))
  ultimately show ?case by (auto intro: same_thread_trans)
qed simp

lemma drop_threads_keeps_none:
  "parent_laws P \<Longrightarrow> mem_wf (mem_of s) \<Longrightarrow> no_thread (mem_of s) u \<Longrightarrow> no_thread (mem_of (drop_threads P ts s)) u"
  by (induction ts arbitrary: s) (simp_all add: delete_law(1) no_thread_delete_other)

lemma drop_threads_gone:
  "parent_laws P \<Longrightarrow> mem_wf (mem_of s) \<Longrightarrow> u \<in> set ts \<Longrightarrow> no_thread (mem_of (drop_threads P ts s)) u"
proof (induction ts arbitrary: s)
  case (Cons t ts)
  show ?case
  proof (cases "u = t")
    case True
    then have "no_thread (mem_of (delete_thread_locked P t s)) u"
      using Cons.prems by (simp add: no_thread_delete)
    then show ?thesis using Cons.prems by (simp add: drop_threads_keeps_none delete_law(1))
  qed (use Cons in \<open>simp add: delete_law(1)\<close>)
qed simp

lemma drop_threads_access:
  "last_access (drop_threads P ts s) = filter (\<lambda>p. fst p \<notin> set ts) (last_access s)"
  by (induction ts arbitrary: s) (auto simp: dict_pop_filter intro!: filter_cong)

lemma drop_threads_has: "dict_has (last_access (drop_threads P ts s)) u \<longleftrightarrow> dict_has (last_access s) u \<and> u \<notin> set ts"
  by (auto simp: drop_threads_access dict_has_def)

lemma drop_threads_ledger:
  "ledger_size (drop_threads P ts s) k = (if key_thread k \<in> set ts then None else ledger_size s k)"
  by (induction ts arbitrary: s) (auto simp: ledger_size_delete)


section \<open>Expiry\<close>

definition expired_threads :: "checkpoint_config \<Rightarrow> rat \<Rightarrow> saver \<Rightarrow> string list" where
  "expired_threads cfg now s =
     map fst (filter (\<lambda>(_, accessed). accessed \<le> now - idle_ttl_seconds cfg) (last_access s))"

definition expired :: "checkpoint_config \<Rightarrow> rat \<Rightarrow> saver \<Rightarrow> string \<Rightarrow> bool" where
  "expired cfg now s t \<longleftrightarrow>
     (\<exists>accessed. dict_get (last_access s) t = Some accessed \<and> accessed \<le> now - idle_ttl_seconds cfg)"

lemma purge_eq:
  "purge_expired_locked P cfg now s =
     (Inr (int (length (expired_threads cfg now s))), drop_threads P (expired_threads cfg now s) s)"
  by (simp add: purge_expired_locked_def expired_threads_def Let_def)

lemma set_expired_threads:
  assumes "dict_wf (last_access s)"
  shows "t \<in> set (expired_threads cfg now s) \<longleftrightarrow> expired cfg now s t"
proof -
  have "(t, a) \<in> set (last_access s) \<longleftrightarrow> dict_get (last_access s) t = Some a" for a
    using assms by (simp add: dict_wf_def map_of_eq_Some_iff)
  then show ?thesis by (force simp: expired_threads_def expired_def)
qed

lemma wp_purge:
  "wp (purge_expired_locked P cfg now) Q s \<longleftrightarrow>
     Q (Inr (int (length (expired_threads cfg now s)))) (drop_threads P (expired_threads cfg now s) s)"
  by (simp add: wp_iff purge_eq)


section \<open>Room for a thread\<close>

text \<open>The loop drops the shortest prefix of the access order that leaves a free place.\<close>

lemma make_room_loop_prefix:
  assumes "0 < max_threads cfg" "dict_wf (last_access s)"
  shows "\<exists>k. make_room_loop P cfg s = (Inr (), drop_threads P (take k (dict_keys (last_access s))) s) \<and>
     int (length (last_access (snd (make_room_loop P cfg s)))) < max_threads cfg \<and>
     (k = 0 \<or> int (length (last_access s)) = max_threads cfg - 1 + int k)"
  using assms
proof (induction P cfg s rule: make_room_loop.induct)
  case (1 P cfg s)
  show ?case
  proof (cases "int (length (last_access s)) \<ge> max_threads cfg")
    case True
    then obtain t a rest where la: "last_access s = (t, a) # rest"
      using "1.prems"(1) by (cases "last_access s") auto
    let ?s = "delete_thread_locked P t s"
    have rest: "last_access ?s = rest"
      using "1.prems"(2) by (simp add: la dict_wf_def dict_pop_absent dict_has_def)
    have wf: "dict_wf (last_access ?s)" using "1.prems"(2) by simp
    obtain k where k: "make_room_loop P cfg ?s = (Inr (), drop_threads P (take k (dict_keys rest)) ?s)"
        "int (length (last_access (snd (make_room_loop P cfg ?s)))) < max_threads cfg"
        "k = 0 \<or> int (length rest) = max_threads cfg - 1 + int k"
      using "1.IH" [OF True la refl "1.prems"(1) wf] unfolding rest by blast
    have "make_room_loop P cfg s = make_room_loop P cfg ?s"
      using True by (subst make_room_loop.simps) (simp add: la)
    moreover have "take (Suc k) (dict_keys (last_access s)) = t # take k (dict_keys rest)"
      by (simp add: la)
    moreover have "int (length (last_access s)) = max_threads cfg - 1 + int (Suc k)"
    proof (cases "k = 0")
      case True
      then have "int (length rest) < max_threads cfg" using k(1,2) rest by simp
      then show ?thesis using True \<open>int (length (last_access s)) \<ge> max_threads cfg\<close> by (simp add: la)
    qed (use k(3) in \<open>simp add: la\<close>)
    ultimately show ?thesis using k(1,2) by (intro exI [of _ "Suc k"]) simp
  next
    case False
    then have "make_room_loop P cfg s = (Inr (), s)" by (subst make_room_loop.simps) simp
    then show ?thesis using False by (intro exI [of _ 0]) simp
  qed
qed


section \<open>Room for bytes\<close>

definition other_threads :: "string \<Rightarrow> saver \<Rightarrow> string list" where
  "other_threads t s = filter (\<lambda>u. u \<noteq> t) (dict_keys (last_access s))"

definition bytes_fit :: "parent_ops \<Rightarrow> checkpoint_config \<Rightarrow> int \<Rightarrow> string \<Rightarrow> saver \<Rightarrow> nat \<Rightarrow> bool" where
  "bytes_fit P cfg n t s j \<longleftrightarrow>
     serialized_bytes (drop_threads P (take j (other_threads t s)) s) + n \<le> max_total_bytes cfg"

lemma find_filter: "find p xs = (case filter p xs of [] \<Rightarrow> None | x # _ \<Rightarrow> Some x)"
  by (induction xs) auto

lemma other_threads_delete:
  assumes "dict_wf (last_access s)" "other_threads t s = u # us"
  shows "other_threads t (delete_thread_locked P u s) = us"
proof -
  have "distinct (u # us)"
    using assms by (metis distinct_filter dict_wf_def other_threads_def)
  then have "u \<notin> set us" by simp
  moreover have "other_threads t (delete_thread_locked P u s) = filter (\<lambda>x. x \<noteq> u) (other_threads t s)"
    by (simp add: other_threads_def dict_keys_pop conj_commute)
  ultimately show ?thesis using assms(2) by (auto simp: filter_id_conv)
qed

text \<open>
  \<open>_make_room_for_bytes_locked\<close> drops the shortest prefix of the other threads, least recently
  used first, after which the bytes fit; if none fits, all of them go and the call is refused.
\<close>

lemma make_room_for_bytes_cases:
  assumes "dict_wf (last_access s)"
  obtains (fits) k where "k \<le> length (other_threads t s)" "bytes_fit P cfg n t s k"
      "\<And>j. j < k \<Longrightarrow> \<not> bytes_fit P cfg n t s j"
      "make_room_for_bytes_locked P cfg n t s = (Inr (), drop_threads P (take k (other_threads t s)) s)"
  | (refused) "\<And>j. \<not> bytes_fit P cfg n t s j"
      "make_room_for_bytes_locked P cfg n t s =
        (Inl (CheckpointCapacityError ''operation exceeds the in-memory checkpoint byte budget''),
         drop_threads P (other_threads t s) s)"
  using assms
proof (induction "other_threads t s" arbitrary: s thesis)
  case Nil
  have find: "find (\<lambda>u. u \<noteq> t) (dict_keys (last_access s)) = None"
    using Nil.hyps by (simp add: find_filter other_threads_def)
  show ?case
  proof (cases "serialized_bytes s + n > max_total_bytes cfg")
    case True
    then have "make_room_for_bytes_locked P cfg n t s =
        (Inl (CheckpointCapacityError ''operation exceeds the in-memory checkpoint byte budget''), s)"
      by (subst make_room_for_bytes_locked.simps) (simp add: find)
    then show ?thesis using Nil True by (intro Nil.prems(2)) (auto simp: bytes_fit_def)
  next
    case False
    then have "make_room_for_bytes_locked P cfg n t s = (Inr (), s)"
      by (subst make_room_for_bytes_locked.simps) simp
    then show ?thesis using False by (intro Nil.prems(1) [of 0]) (auto simp: bytes_fit_def)
  qed
next
  case (Cons u us)
  let ?s = "delete_thread_locked P u s"
  have us: "us = other_threads t ?s"
    using other_threads_delete [OF Cons.prems(3) Cons.hyps(2) [symmetric]] by simp
  have find: "find (\<lambda>u. u \<noteq> t) (dict_keys (last_access s)) = Some u"
    using Cons.hyps(2) [symmetric] by (simp add: find_filter other_threads_def)
  have shift: "bytes_fit P cfg n t s (Suc j) \<longleftrightarrow> bytes_fit P cfg n t ?s j" for j
    by (simp add: bytes_fit_def us [symmetric] Cons.hyps(2) [symmetric])
  show ?case
  proof (cases "bytes_fit P cfg n t s 0")
    case True
    then have "make_room_for_bytes_locked P cfg n t s = (Inr (), s)"
      by (subst make_room_for_bytes_locked.simps) (simp add: bytes_fit_def)
    then show ?thesis using True by (intro Cons.prems(1) [of 0]) auto
  next
    case False
    then have step: "make_room_for_bytes_locked P cfg n t s = make_room_for_bytes_locked P cfg n t ?s"
      by (subst make_room_for_bytes_locked.simps) (simp add: bytes_fit_def find)
    have wf: "dict_wf (last_access ?s)" using Cons.prems(3) by simp
    show ?thesis
    proof (rule Cons.hyps(1) [OF us])
      fix k assume k: "k \<le> length (other_threads t ?s)" "bytes_fit P cfg n t ?s k"
        "\<And>j. j < k \<Longrightarrow> \<not> bytes_fit P cfg n t ?s j"
        "make_room_for_bytes_locked P cfg n t ?s = (Inr (), drop_threads P (take k (other_threads t ?s)) ?s)"
      show ?thesis
      proof (rule Cons.prems(1) [of "Suc k"])
        show "\<not> bytes_fit P cfg n t s j" if "j < Suc k" for j
          using that k(3) False by (cases j) (simp_all add: shift)
      qed (use k in \<open>simp_all add: shift step us [symmetric] Cons.hyps(2) [symmetric]\<close>)
    next
      assume "\<And>j. \<not> bytes_fit P cfg n t ?s j"
        and "make_room_for_bytes_locked P cfg n t ?s =
          (Inl (CheckpointCapacityError ''operation exceeds the in-memory checkpoint byte budget''),
           drop_threads P (other_threads t ?s) ?s)"
      then show ?thesis
        using False by (intro Cons.prems(2), rename_tac j, case_tac j)
          (simp_all add: step us [symmetric] Cons.hyps(2) [symmetric] shift)
    qed (rule wf)
  qed
qed



section \<open>Admission\<close>

lemma drop_threads_append: "drop_threads P us (drop_threads P ts s) = drop_threads P (ts @ us) s"
  by simp

lemma drop_threads_length: "length (last_access (drop_threads P ts s)) \<le> length (last_access s)"
  by (simp add: drop_threads_access)

lemma drop_threads_wf: "dict_wf (last_access s) \<Longrightarrow> dict_wf (last_access (drop_threads P ts s))"
  by (simp add: drop_threads_access dict_wf_def distinct_map_filter)

lemma saver_inv_drop: "parent_laws P \<Longrightarrow> saver_inv s \<Longrightarrow> saver_inv (drop_threads P ts s)"
  by (rule saver_inv_fold_delete)

text \<open>
  \<open>t\<close> has a place among the threads, and the threads dropped for it (\<open>t\<close> itself only if it had
  expired) are gone as a whole.
\<close>

definition placed :: "parent_ops \<Rightarrow> checkpoint_config \<Rightarrow> rat \<Rightarrow> string \<Rightarrow> saver \<Rightarrow> saver \<Rightarrow> bool" where
  "placed P cfg now t s s' \<longleftrightarrow>
     (\<exists>ts. s' = drop_threads P ts s \<and> (t \<in> set ts \<longrightarrow> expired cfg now s t)) \<and>
     (dict_has (last_access s') t \<or> int (length (last_access s')) < max_threads cfg)"

definition admitted ::
  "parent_ops \<Rightarrow> checkpoint_config \<Rightarrow> rat \<Rightarrow> string \<Rightarrow> string \<Rightarrow> string \<Rightarrow> int \<Rightarrow> saver \<Rightarrow> saver \<Rightarrow> bool" where
  "admitted P cfg now t ns c n s s' \<longleftrightarrow>
     placed P cfg now t s s' \<and> serialized_bytes s' + n \<le> max_total_bytes cfg \<and>
     (ns \<in> namespaces_of (mem_of s') t \<or>
        int (card (namespaces_of (mem_of s') t)) < max_namespaces_per_thread cfg) \<and>
     ((ns, c) \<in> checkpoints_of (mem_of s') t \<or>
        int (card (checkpoints_of (mem_of s') t)) < max_checkpoints_per_thread cfg)"

lemma placed_trans:
  assumes "placed P cfg now t s s'" "t \<notin> set ts"
  shows "placed P cfg now t s (drop_threads P ts s')"
proof -
  obtain us where us: "s' = drop_threads P us s" "t \<in> set us \<longrightarrow> expired cfg now s t"
    using assms(1) by (auto simp: placed_def)
  have "drop_threads P ts s' = drop_threads P (us @ ts) s" using us(1) by simp
  moreover have "t \<in> set (us @ ts) \<longrightarrow> expired cfg now s t" using us(2) assms(2) by simp
  moreover have "dict_has (last_access (drop_threads P ts s')) t \<or>
      int (length (last_access (drop_threads P ts s'))) < max_threads cfg"
    using assms drop_threads_length [of P ts s'] by (auto simp: placed_def drop_threads_has)
  ultimately show ?thesis unfolding placed_def by blast
qed

lemma wp_place:
  assumes cfg: "config_ok cfg" and s: "dict_wf (last_access s)"
  shows "wp (bind_op (purge_expired_locked P cfg now) (\<lambda>_. make_room_for_thread_locked P cfg t))
    (\<lambda>r s'. r = Inr () \<and> placed P cfg now t s s') s"
proof -
  let ?E = "expired_threads cfg now s"
  let ?s = "drop_threads P ?E s"
  have expired: "t \<in> set ?E \<longrightarrow> expired cfg now s t"
    using set_expired_threads [OF s] by simp
  have run: "bind_op (purge_expired_locked P cfg now) (\<lambda>_. make_room_for_thread_locked P cfg t) s =
      make_room_for_thread_locked P cfg t ?s"
    by (simp add: bind_op_def purge_eq)
  show ?thesis
  proof (cases "dict_has (last_access ?s) t")
    case True
    then have "make_room_for_thread_locked P cfg t ?s = (Inr (), ?s)"
      by (simp only: make_room_for_thread_locked_def if_True)
    then show ?thesis using True expired by (auto simp only: wp_iff run placed_def fst_conv snd_conv)
  next
    case False
    have "0 < max_threads cfg" using cfg by (simp add: config_ok_def)
    then obtain k where e: "make_room_loop P cfg ?s = (Inr (), drop_threads P (take k (dict_keys (last_access ?s))) ?s)"
        and l: "int (length (last_access (snd (make_room_loop P cfg ?s)))) < max_threads cfg"
      using make_room_loop_prefix [of cfg ?s P] drop_threads_wf [OF s] by blast
    let ?ts = "?E @ take k (dict_keys (last_access ?s))"
    have room: "make_room_for_thread_locked P cfg t ?s = (Inr (), drop_threads P ?ts s)"
      using False e by (simp only: make_room_for_thread_locked_def if_False drop_threads_append)
    have "t \<notin> set (take k (dict_keys (last_access ?s)))"
      using False by (auto simp: dict_has_def dest: in_set_takeD)
    then have "t \<in> set ?ts \<longrightarrow> expired cfg now s t" using expired by simp
    moreover have "int (length (last_access (drop_threads P ?ts s))) < max_threads cfg"
      using l by (simp only: e snd_conv drop_threads_append)
    ultimately show ?thesis unfolding wp_iff run room placed_def fst_conv snd_conv by blast
  qed
qed

text \<open>
  The exits of admission: a capacity error, or the state in which the operation may store; on
  both, only whole threads have been dropped.
\<close>

lemma admit_alt:
  "admit P cfg now t ns c n =
     bind_op (bind_op (purge_expired_locked P cfg now) (\<lambda>_. make_room_for_thread_locked P cfg t)) (\<lambda>_.
     bind_op (read_op (known_namespaces_locked t)) (\<lambda>namespaces.
     bind_op (raise_if (ns \<notin> namespaces \<and> int (card namespaces) \<ge> max_namespaces_per_thread cfg)
        (CheckpointCapacityError ''thread exceeds max_namespaces_per_thread'')) (\<lambda>_.
     bind_op (read_op (known_checkpoints_locked t)) (\<lambda>checkpoints.
     bind_op (raise_if ((ns, c) \<notin> checkpoints \<and> int (card checkpoints) \<ge> max_checkpoints_per_thread cfg)
        (CheckpointCapacityError (''thread exceeds max_checkpoints_per_thread; delete the '' @
                                  ''thread or use a persistent checkpointer''))) (\<lambda>_.
       make_room_for_bytes_locked P cfg n t)))))"
  by (rule ext) (simp add: admit_def bind_op_def split: prod.split sum.split)

lemma wp_room_for_bytes:
  assumes P: "parent_laws P" and s: "saver_inv s" and pl: "placed P cfg now t s0 s"
    and ns: "ns \<in> namespaces_of (mem_of s) t \<or>
        int (card (namespaces_of (mem_of s) t)) < max_namespaces_per_thread cfg"
    and ck: "(ns, c) \<in> checkpoints_of (mem_of s) t \<or>
        int (card (checkpoints_of (mem_of s) t)) < max_checkpoints_per_thread cfg"
  shows "wp (make_room_for_bytes_locked P cfg n t)
    (\<lambda>r s'. case r of Inl e \<Rightarrow> placed P cfg now t s0 s' \<and> (\<exists>m. e = CheckpointCapacityError m)
              | Inr _ \<Rightarrow> admitted P cfg now t ns c n s0 s') s"
proof -
  have away: "t \<notin> set (take k (other_threads t s))" for k
    by (auto simp: other_threads_def dest: in_set_takeD)
  have same: "same_thread (mem_of s) (mem_of (drop_threads P (take k (other_threads t s)) s)) t" for k
    by (rule drop_threads_other [OF P saver_invD(2) [OF s] away])
  have pl': "placed P cfg now t s0 (drop_threads P (take k (other_threads t s)) s)" for k
    by (rule placed_trans [OF pl away])
  show ?thesis
  proof (cases rule: make_room_for_bytes_cases [OF saver_invD(3) [OF s], where P = P and cfg = cfg and n = n and t = t,
        case_names fits refused])
    case (fits k)
    then show ?thesis
      using pl' [of k] ns ck
      by (simp add: wp_iff admitted_def bytes_fit_def same_thread_namespaces [OF same]
          same_thread_checkpoints [OF same])
  next
    case refused
    then show ?thesis using pl' [of "length (other_threads t s)"] by (simp add: wp_iff)
  qed
qed

lemma wp_admit:
  assumes P: "parent_laws P" and s: "saver_inv s" and cfg: "config_ok cfg"
  shows "wp (admit P cfg now t ns c n)
    (\<lambda>r s'. case r of Inl e \<Rightarrow> placed P cfg now t s s' \<and> (\<exists>m. e = CheckpointCapacityError m)
              | Inr _ \<Rightarrow> admitted P cfg now t ns c n s s') s"
  unfolding admit_alt
proof (rule wp_bindI [OF wp_place [OF cfg saver_invD(3) [OF s]]])
  fix x :: unit and s'
  assume pl: "Inr x = Inr () \<and> placed P cfg now t s s'"
  then obtain ts where "s' = drop_threads P ts s" by (auto simp: placed_def)
  then have s': "saver_inv s'" using saver_inv_drop [OF P s] by simp
  show "wp (bind_op (read_op (known_namespaces_locked t)) (\<lambda>namespaces.
     bind_op (raise_if (ns \<notin> namespaces \<and> int (card namespaces) \<ge> max_namespaces_per_thread cfg)
        (CheckpointCapacityError ''thread exceeds max_namespaces_per_thread'')) (\<lambda>_.
     bind_op (read_op (known_checkpoints_locked t)) (\<lambda>checkpoints.
     bind_op (raise_if ((ns, c) \<notin> checkpoints \<and> int (card checkpoints) \<ge> max_checkpoints_per_thread cfg)
        (CheckpointCapacityError (''thread exceeds max_checkpoints_per_thread; delete the '' @
                                  ''thread or use a persistent checkpointer''))) (\<lambda>_.
       make_room_for_bytes_locked P cfg n t)))))
    (\<lambda>r s'. case r of Inl e \<Rightarrow> placed P cfg now t s s' \<and> (\<exists>m. e = CheckpointCapacityError m)
              | Inr _ \<Rightarrow> admitted P cfg now t ns c n s s') s'"
    using pl wp_room_for_bytes [OF P s', of cfg now t s ns c n]
    by (simp add: wp_bind wp_simps known_namespaces_eq known_checkpoints_eq saver_invD(2) [OF s'] not_le not_less)
qed simp



section \<open>Bytes\<close>

definition value_missing :: "pydict \<Rightarrow> string \<Rightarrow> bool" where
  "value_missing checkpoint channel \<longleftrightarrow>
     (case py_get_or checkpoint ''channel_values'' (PDict []) of
        PDict d \<Rightarrow> sget d channel = None
      | _ \<Rightarrow> True)"

definition missing_values :: "pydict \<Rightarrow> (string \<times> pyval) list \<Rightarrow> nat" where
  "missing_values checkpoint new_versions = length (filter (\<lambda>(channel, _). value_missing checkpoint channel) new_versions)"

lemma channel_blob_size:
  assumes "estimate_channel_size P (py_get_or checkpoint ''channel_values'' (PDict [])) channel = Inr k"
  shows "serialized_size (channel_blob P checkpoint channel) =
    k + (if value_missing checkpoint channel then serialized_size (empty_blob P) else 0)"
  using assms
  by (auto simp: estimate_channel_size_def channel_blob_def value_missing_def bind_sum_eq_Inr
      split: pyval.splits option.splits)

lemma channel_blobs_size:
  "estimate_channel_sizes P (py_get_or checkpoint ''channel_values'' (PDict [])) nv = Inr k \<Longrightarrow>
     sum_list (map (\<lambda>(channel, _). serialized_size (channel_blob P checkpoint channel)) nv) =
       k + int (missing_values checkpoint nv) * serialized_size (empty_blob P)"
proof (induction nv arbitrary: k)
  case (Cons p nv)
  obtain channel version where p: "p = (channel, version)" by (cases p)
  obtain a b where ab: "k = a + b"
      "estimate_channel_size P (py_get_or checkpoint ''channel_values'' (PDict [])) channel = Inr a"
      "estimate_channel_sizes P (py_get_or checkpoint ''channel_values'' (PDict [])) nv = Inr b"
    using Cons.prems by (auto simp: p bind_sum_eq_Inr)
  have "int (missing_values checkpoint (p # nv)) =
      (if value_missing checkpoint channel then 1 else 0) + int (missing_values checkpoint nv)"
    by (simp add: missing_values_def p)
  then show ?case
    using Cons.IH [OF ab(3)] channel_blob_size [OF ab(2)] by (simp add: p ab(1) algebra_simps)
qed (simp add: missing_values_def)

lemma blob_entries_put:
  assumes "put_effect P config checkpoint metadata nv t ns c m m'" "set nv' \<subseteq> set nv"
  shows "map snd (blob_entries m' t ns nv') =
    map (\<lambda>(channel, _). serialized_size (channel_blob P checkpoint channel)) nv'"
  using assms(2)
proof (induction nv')
  case (Cons p nv')
  obtain channel version where p: "p = (channel, version)" by (cases p)
  have "dict_get (blobs m') (t, ns, channel, version) = Some (channel_blob P checkpoint channel)"
    using Cons.prems put_effectD(5) [OF assms(1)] by (simp add: p)
  then have "blob_entries m' t ns (p # nv') =
      (BlobKey t ns channel version, serialized_size (channel_blob P checkpoint channel)) # blob_entries m' t ns nv'"
    by (simp add: blob_entries_def p)
  then show ?case using Cons by (simp add: p)
qed (simp add: blob_entries_def)

text \<open>What a stored checkpoint adds to the total: its estimate, and the blobs without a value.\<close>

lemma committed_put_bytes:
  assumes s: "saver_inv s" and eff: "put_effect P config checkpoint metadata nv t ns c (mem_of s) m'"
    and e: "stored m' (t, ns, c) = Some e"
    and est: "estimate_checkpoint_size P config checkpoint metadata nv = Inr n"
  shows "serialized_bytes (committed_put later t ns c e nv m' s) \<le>
    serialized_bytes s + n + int (missing_values checkpoint nv) * serialized_size (empty_blob P)"
proof -
  let ?cv = "py_get_or checkpoint ''channel_values'' (PDict [])"
  let ?kns = "checkpoint_entries m' t ns c e nv"
  obtain a b parent where ab: "stored m' (t, ns, c) = Some (a, b, parent)"
      "dumps_typed P (PDict (checkpoint_copy checkpoint)) = Inr a"
      "dumps_typed P (PDict (get_checkpoint_metadata P config metadata)) = Inr b"
    by (rule put_effect_stored [OF eff])
  then obtain k where k: "estimate_channel_sizes P ?cv nv = Inr k" "n = entry_size e + k"
    using est e by (auto simp: estimate_checkpoint_size_def bind_sum_eq_Inr Let_def entry_size_def)
  have kns: "0 \<le> x" if "(k, x) \<in> set ?kns" for k x
    using that by (auto simp: checkpoint_entries_def dest!: blob_entries_payload payload_nonneg)
  have "serialized_bytes (committed_put later t ns c e nv m' s) \<le>
      serialized_bytes s + sum_list (map snd ?kns)"
    unfolding committed_put_def touch_frame
    using ledger.total_fold_set_le [of "s\<lparr>mem_of := m'\<rparr>" ?kns] kns payload_nonneg [of "mem_of s"]
    by (simp add: saver_invD(4) [OF s])
  also have "sum_list (map snd ?kns) = n + int (missing_values checkpoint nv) * serialized_size (empty_blob P)"
    using blob_entries_put [OF eff subset_refl] channel_blobs_size [OF k(1)]
    by (simp add: checkpoint_entries_def k(2))
  finally show ?thesis by simp
qed

text \<open>The sizes of the entries a batch of writes enters, against the estimate.\<close>

lemma write_batch_size:
  "write_batch P task_id task_path ws es \<Longrightarrow> sum_write_sizes P ws = Inr sz \<Longrightarrow>
     sum_list (map (\<lambda>(_, w). write_size w) es) \<le> sz + int (length ws) * int (utf8_len task_path)"
proof (induction arbitrary: sz rule: write_batch.induct)
  case (batch_skip ws es w)
  then obtain b rest where "sz = serialized_size b + int (utf8_len (fst w)) + rest" "sum_write_sizes P ws = Inr rest"
    by (cases w) (auto simp: bind_sum_eq_Inr)
  then show ?case using batch_skip.IH [of rest] serialized_size_nonneg [of b]
    by (simp add: algebra_simps del: serialized_size_nonneg)
next
  case (batch_take v b ws es channel index)
  then obtain rest where "sz = serialized_size b + int (utf8_len channel) + rest" "sum_write_sizes P ws = Inr rest"
    by (auto simp: bind_sum_eq_Inr)
  then show ?case using batch_take.IH [of rest] by (simp add: write_size_def algebra_simps)
qed simp

lemma sum_filter_le_Cons:
  fixes f :: "'a \<Rightarrow> int"
  assumes "distinct xs" "\<And>x. x \<in> set xs \<Longrightarrow> 0 \<le> f x" "\<And>x. x \<in> set xs \<Longrightarrow> A x \<Longrightarrow> B x \<or> x = y" "0 \<le> f y"
  shows "sum_list (map f (filter A xs)) \<le> sum_list (map f (filter B xs)) + f y"
proof -
  have "(\<Sum>x\<in>set (filter A xs). f x) \<le> (\<Sum>x\<in>insert y (set (filter B xs)). f x)"
    using assms(2-4) by (intro sum_mono2) auto
  also have "\<dots> \<le> (\<Sum>x\<in>set (filter B xs). f x) + f y"
    using assms(4) by (cases "y \<in> set (filter B xs)") (simp_all add: insert_absorb)
  finally show ?thesis using assms(1) by (simp add: sum_list_distinct_conv_sum_set)
qed

lemma changed_entries_size:
  fixes f :: "'v \<Rightarrow> int"
  assumes "\<And>w. 0 \<le> f w" "dict_wf d"
  shows "sum_list (map (f \<circ> snd) (filter (\<lambda>(k, w). dict_get d k \<noteq> Some w) (fold (\<lambda>(k, w) d. dict_set d k w) es d)))
    \<le> sum_list (map (\<lambda>(_, w). f w) es)"
  using assms(2)
proof (induction es arbitrary: d)
  case Nil
  then have "filter (\<lambda>(k, w). dict_get d k \<noteq> Some w) d = []"
    by (auto simp: filter_empty_conv dict_wf_def)
  then show ?case by simp
next
  case (Cons p es)
  obtain k w where p: "p = (k, w)" by (cases p)
  let ?d' = "fold (\<lambda>(k, w) d. dict_set d k w) es (dict_set d k w)"
  have wf: "dict_wf (fold (\<lambda>(k, w) d. dict_set d k w) es d)" if "dict_wf d" for d
    using that by (induction es arbitrary: d) auto
  have "dict_wf ?d'" by (rule wf [OF dict_wf_set [OF Cons.prems]])
  then have "distinct ?d'" unfolding dict_wf_def by (rule distinct_map [THEN iffD1, THEN conjunct1])
  then have "sum_list (map (f \<circ> snd) (filter (\<lambda>(k, w). dict_get d k \<noteq> Some w) ?d')) \<le>
      sum_list (map (f \<circ> snd) (filter (\<lambda>(k', w'). dict_get (dict_set d k w) k' \<noteq> Some w') ?d')) + (f \<circ> snd) (k, w)"
    by (intro sum_filter_le_Cons) (auto simp: assms(1) dict_get_set split: if_splits)
  also have "\<dots> \<le> sum_list (map (\<lambda>(_, w). f w) es) + f w"
    using Cons.IH [OF dict_wf_set [OF Cons.prems]] by (simp add: comp_def)
  finally show ?case by (simp add: p comp_def add.commute)
qed

lemma committed_writes_bytes:
  assumes s: "saver_inv s" and eff: "put_writes_effect P ws task_id task_path (t, ns, c) (mem_of s) m'"
    and est: "sum_write_sizes P ws = Inr sz"
  shows "serialized_bytes (committed_writes later t ns c m' s) \<le>
    serialized_bytes s + sz + int (length ws) * int (utf8_len task_path)"
proof -
  let ?kns = "write_entries m' t ns c" and ?s = "s\<lparr>mem_of := m'\<rparr>"
  let ?d = "pending (mem_of s) (t, ns, c)" and ?d' = "pending m' (t, ns, c)"
  obtain es where es: "write_batch P task_id task_path ws es" "?d' = fold (\<lambda>(k, w) d. dict_set d k w) es ?d"
    by (rule put_writes_effect_batch [OF eff])
  have "serialized_bytes (committed_writes later t ns c m' s) \<le>
      serialized_bytes s + sum_list (map snd (filter (\<lambda>(k, n). ledger_size ?s k \<noteq> Some n) ?kns))"
    unfolding committed_writes_def touch_frame
    using ledger.total_fold_set_changed [of ?s ?kns] payload_nonneg [of "mem_of s"]
      write_entries_distinct [OF put_writes_effectD(1) [OF eff]]
    by (simp add: saver_invD(4) [OF s])
  also have "sum_list (map snd (filter (\<lambda>(k, n). ledger_size ?s k \<noteq> Some n) ?kns)) \<le>
      sum_list (map (write_size \<circ> snd) (filter (\<lambda>(k, w). dict_get ?d k \<noteq> Some w) ?d'))"
  proof -
    have *: "sum_list (map snd (filter (\<lambda>(k, n). ledger_size ?s k \<noteq> Some n)
          (map (\<lambda>((task, index), w). (WriteKey t ns c task index, write_size w)) xs))) \<le>
        sum_list (map (write_size \<circ> snd) (filter (\<lambda>(k, w). dict_get ?d k \<noteq> Some w) xs))" for xs
      by (induction xs) (auto simp: saver_invD(4) [OF s] intro: add_increasing)
    show ?thesis unfolding write_entries_def by (rule *)
  qed
  also have "\<dots> \<le> sum_list (map (\<lambda>(_, w). write_size w) es)"
    unfolding es(2) by (rule changed_entries_size) (simp_all add: pending_wf saver_invD(2) [OF s])
  also have "\<dots> \<le> sz + int (length ws) * int (utf8_len task_path)"
    by (rule write_batch_size [OF es(1) est])
  finally show ?thesis by simp
qed



section \<open>The limits in every state\<close>

lemma length_touch:
  "dict_wf (last_access s) \<Longrightarrow> length (last_access (touch_locked now t s)) =
     (if dict_has (last_access s) t then length (last_access s) else Suc (length (last_access s)))"
  using length_dict_pop [of "last_access s" t]
  by (simp add: touch_locked_def dict_move_to_end dict_pop_absent)

lemma touch_last: "last_access (touch_locked now t s) = dict_pop (last_access s) t @ [(t, now)]"
  by (simp add: touch_locked_def dict_move_to_end)

lemma drop_threads_same: "dict_wf (last_access s) \<Longrightarrow> placed P cfg now t s s' \<Longrightarrow> length (last_access s') \<le> length (last_access s)"
  by (auto simp: placed_def drop_threads_length)

definition limits_kept :: "checkpoint_config \<Rightarrow> saver \<Rightarrow> bool" where
  "limits_kept cfg s \<longleftrightarrow>
     saver_inv s \<and> int (length (last_access s)) \<le> max_threads cfg \<and>
     (\<forall>t. int (card (checkpoints_of (mem_of s) t)) \<le> max_checkpoints_per_thread cfg)"

lemma limits_new: "config_ok cfg \<Longrightarrow> limits_kept cfg new_saver"
  by (simp add: limits_kept_def saver_inv_new)
    (simp add: new_saver_def config_ok_def checkpoints_of_def empty_mem_def stored_def dict_has_def)

lemma drop_threads_checkpoints:
  "parent_laws P \<Longrightarrow> saver_inv s \<Longrightarrow>
     checkpoints_of (mem_of (drop_threads P ts s)) t =
       (if t \<in> set ts then {} else checkpoints_of (mem_of s) t)"
  by (simp add: drop_threads_gone saver_invD(2) no_thread_checkpoints
      same_thread_checkpoints [OF drop_threads_other])

lemma limits_drop: "parent_laws P \<Longrightarrow> limits_kept cfg s \<Longrightarrow> 0 < max_checkpoints_per_thread cfg \<Longrightarrow> limits_kept cfg (drop_threads P ts s)"
  using drop_threads_length [of P ts s]
  by (auto simp: limits_kept_def saver_inv_drop drop_threads_checkpoints)

lemma checkpoints_put:
  assumes "put_effect P config checkpoint metadata nv t ns c m m'"
  shows "checkpoints_of m' u = (if u = t then insert (ns, c) (checkpoints_of m t) else checkpoints_of m u)"
proof -
  obtain a b parent where "stored m' (t, ns, c) = Some (a, b, parent)" by (rule put_effect_stored [OF assms])
  then have "stored m' k \<noteq> None \<longleftrightarrow> k = (t, ns, c) \<or> stored m k \<noteq> None" for k
    using put_effectD(2) [OF assms, of k] by (cases "k = (t, ns, c)") simp_all
  then show ?thesis
    using put_effectD(4) [OF assms] unfolding checkpoints_of_def dict_has_iff by auto
qed

lemma checkpoints_put_writes:
  assumes "put_writes_effect P ws task_id task_path (t, ns, c) m m'"
  shows "checkpoints_of m' u \<subseteq> (if u = t then insert (ns, c) (checkpoints_of m t) else checkpoints_of m u)"
  using put_writes_effectD(2,5) [OF assms] unfolding checkpoints_of_def dict_has_iff by auto

lemma checkpoints_bound_insert:
  assumes "finite (checkpoints_of m t)" "A \<subseteq> insert x (checkpoints_of m t)"
    and "int (card (checkpoints_of m t)) \<le> k" "x \<in> checkpoints_of m t \<or> int (card (checkpoints_of m t)) < k"
  shows "int (card A) \<le> k"
proof -
  have "card A \<le> card (insert x (checkpoints_of m t))" using assms(1,2) by (intro card_mono) auto
  also have "\<dots> \<le> (if x \<in> checkpoints_of m t then card (checkpoints_of m t) else Suc (card (checkpoints_of m t)))"
    using assms(1) by (simp add: insert_absorb)
  finally show ?thesis using assms(3,4) by (auto split: if_splits)
qed

lemma mem_of_committed_put [simp]: "mem_of (committed_put later t ns c e nv m' s) = m'"
  by (simp add: committed_put_def)

lemma mem_of_committed_writes [simp]: "mem_of (committed_writes later t ns c m' s) = m'"
  by (simp add: committed_writes_def)

lemma last_access_committed_put [simp]:
  "last_access (committed_put later t ns c e nv m' s) = last_access (touch_locked later t s)"
  by (simp add: committed_put_def touch_locked_def)

lemma last_access_committed_writes [simp]:
  "last_access (committed_writes later t ns c m' s) = last_access (touch_locked later t s)"
  by (simp add: committed_writes_def touch_locked_def)

lemma limits_admitted_touch:
  assumes "saver_inv s'" "admitted P cfg now t ns c n s s'" "int (length (last_access s')) \<le> max_threads cfg"
  shows "int (length (last_access (touch_locked later t s'))) \<le> max_threads cfg"
  using assms saver_invD(3) [OF assms(1)] by (auto simp: admitted_def placed_def length_touch)

lemma limits_placed:
  assumes "parent_laws P" "limits_kept cfg s" "config_ok cfg" "placed P cfg now t s s'"
  shows "limits_kept cfg s'"
  using assms limits_drop by (auto simp: placed_def config_ok_def)

lemma limits_commit:
  assumes l: "limits_kept cfg s" and adm: "admitted P cfg now t ns c n s0 s" and inv: "saver_inv s'"
    and cps: "\<And>u. checkpoints_of (mem_of s') u \<subseteq>
      (if u = t then insert (ns, c) (checkpoints_of (mem_of s) t) else checkpoints_of (mem_of s) u)"
    and acc: "last_access s' = last_access (touch_locked later t s)"
  shows "limits_kept cfg s'"
  unfolding limits_kept_def
proof (intro conjI allI inv)
  have s: "saver_inv s" and q: "int (card (checkpoints_of (mem_of s) u)) \<le> max_checkpoints_per_thread cfg"
    and fin: "finite (checkpoints_of (mem_of s) u)" for u
    using l finite_checkpoints_of [OF saver_invD(2)] by (simp_all add: limits_kept_def)
  show "int (length (last_access s')) \<le> max_threads cfg"
    using limits_admitted_touch [OF s adm] l by (simp add: acc limits_kept_def)
  show "int (card (checkpoints_of (mem_of s') u)) \<le> max_checkpoints_per_thread cfg" for u
  proof (cases "u = t")
    case True
    have c: "checkpoints_of (mem_of s') t \<subseteq> insert (ns, c) (checkpoints_of (mem_of s) t)" using cps [of t] by simp
    have d: "(ns, c) \<in> checkpoints_of (mem_of s) t \<or>
        int (card (checkpoints_of (mem_of s) t)) < max_checkpoints_per_thread cfg"
      using adm by (simp add: admitted_def)
    show ?thesis unfolding True by (rule checkpoints_bound_insert [OF fin c q d])
  next
    case False
    then have "checkpoints_of (mem_of s') u \<subseteq> checkpoints_of (mem_of s) u" using cps [of u] by simp
    then show ?thesis using card_mono [OF fin] q [of u] by (meson of_nat_mono order_trans)
  qed
qed

lemma limits_committed_put:
  assumes "limits_kept cfg s" "admitted P cfg now t ns c n s0 s"
    and eff: "put_effect P config checkpoint metadata nv t ns c (mem_of s) m'" and "stored m' (t, ns, c) = Some e"
  shows "limits_kept cfg (committed_put later t ns c e nv m' s)"
proof (rule limits_commit [OF assms(1,2)])
  show "saver_inv (committed_put later t ns c e nv m' s)"
    using assms(1) by (intro saver_inv_committed_put [OF _ eff assms(4)]) (simp add: limits_kept_def)
qed (simp_all add: checkpoints_put [OF eff])

lemma limits_committed_writes:
  assumes "limits_kept cfg s" "admitted P cfg now t ns c n s0 s"
    and eff: "put_writes_effect P ws task_id task_path (t, ns, c) (mem_of s) m'"
  shows "limits_kept cfg (committed_writes later t ns c m' s)"
proof (rule limits_commit [OF assms(1,2)])
  show "saver_inv (committed_writes later t ns c m' s)"
    using assms(1) by (intro saver_inv_committed_writes [OF _ eff]) (simp add: limits_kept_def)
qed (simp_all only: mem_of_committed_writes last_access_committed_writes checkpoints_put_writes [OF eff])

lemma wp_admit_limits:
  assumes P: "parent_laws P" and cfg: "config_ok cfg" and l: "limits_kept cfg s"
    and r: "\<And>e s'. limits_kept cfg s' \<Longrightarrow> Q (Inl e) s'"
    and a: "\<And>s'. limits_kept cfg s' \<Longrightarrow> admitted P cfg now t ns c n s s' \<Longrightarrow> Q (Inr ()) s'"
  shows "wp (admit P cfg now t ns c n) Q s"
proof (rule wp_mono [OF wp_admit [OF P _ cfg]])
  show "saver_inv s" using l by (simp add: limits_kept_def)
  fix x :: "exc + unit" and s'
  assume x: "case x of Inl e \<Rightarrow> placed P cfg now t s s' \<and> (\<exists>m. e = CheckpointCapacityError m)
      | Inr _ \<Rightarrow> admitted P cfg now t ns c n s s'"
  show "Q x s'"
  proof (cases x)
    case (Inl e)
    then have "placed P cfg now t s s'" using x by simp
    then show ?thesis unfolding Inl by (rule r [OF limits_placed [OF P l cfg]])
  next
    case (Inr u)
    then have a': "admitted P cfg now t ns c n s s'" using x by simp
    then have "placed P cfg now t s s'" by (simp add: admitted_def)
    then show ?thesis using a [OF limits_placed [OF P l cfg] a'] Inr by (cases u) simp
  qed
qed

lemma limits_put:
  assumes P: "parent_laws P" and cfg: "config_ok cfg"
  shows "preserves (limits_kept cfg) (put P cfg now later config checkpoint metadata nv)"
proof (rule preservesI)
  fix s assume l: "limits_kept cfg s"
  then have s: "saver_inv s" by (simp add: limits_kept_def)
  show "wp (put P cfg now later config checkpoint metadata nv) (\<lambda>_. limits_kept cfg) s"
    by (rule wp_put [OF P s], rule l, rule wp_admit_limits [OF P cfg l]) (simp_all add: limits_committed_put)
qed

lemma limits_put_writes:
  assumes P: "parent_laws P" and cfg: "config_ok cfg"
  shows "preserves (limits_kept cfg) (put_writes P cfg now later config ws task_idv task_path)"
proof (rule preservesI)
  fix s assume l: "limits_kept cfg s"
  then have s: "saver_inv s" by (simp add: limits_kept_def)
  show "wp (put_writes P cfg now later config ws task_idv task_path) (\<lambda>_. limits_kept cfg) s"
    by (rule wp_put_writes [OF P s], rule l, rule wp_admit_limits [OF P cfg l]) (simp_all add: limits_committed_writes)
qed


subsection \<open>Reading, deleting, clearing\<close>

lemma limits_touch_tracked:
  "limits_kept cfg s \<Longrightarrow> dict_has (last_access s) t \<Longrightarrow> limits_kept cfg (touch_locked now t s)"
  using saver_invD(3) [of s] by (simp add: limits_kept_def saver_inv_touch length_touch)

lemma limits_same:
  "limits_kept cfg s \<Longrightarrow> mem_wf m \<Longrightarrow> same_contents (mem_of s) m \<Longrightarrow> limits_kept cfg (s\<lparr>mem_of := m\<rparr>)"
  by (simp add: limits_kept_def saver_inv_same) (simp add: same_contents_def)

lemma stored_tracked:
  assumes "saver_inv s" "stored (mem_of s) (t, ns, c) \<noteq> None"
  shows "dict_has (last_access s) t"
  using saver_invD(5) [OF assms(1), of "CheckpointKey t ns c"] assms(2) by simp

lemma limits_purge: "parent_laws P \<Longrightarrow> config_ok cfg \<Longrightarrow> preserves (limits_kept cfg) (purge_expired_locked P cfg now)"
  by (rule preservesI) (simp add: wp_purge limits_drop config_ok_def)

text \<open>
  A reader of one thread: when it has found something, the thread is tracked, so the touch that
  follows adds no entry to the access order.
\<close>

lemma limits_read_touch:
  assumes m: "reads_only m" and l: "limits_kept cfg s"
    and found: "wp m (\<lambda>r _. \<forall>x. r = Inr x \<longrightarrow> p x \<longrightarrow> (\<exists>ns c. stored (mem_of s) (t, ns, c) \<noteq> None)) (mem_of s)"
    and plain: "\<And>x. \<not> p x \<Longrightarrow> k x = ret x" and touch: "\<And>x. p x \<Longrightarrow> k x = bind_op (modify_op (touch_locked later t)) (\<lambda>_. ret x)"
  shows "wp (bind_op (on_mem m) k) (\<lambda>_. limits_kept cfg) s"
  unfolding wp_bind wp_on_mem
proof (rule wp_mono [OF wp_conj [OF reads_only_wp [OF m] found]])
  have s: "saver_inv s" using l by (simp add: limits_kept_def)
  then show "mem_wf (mem_of s)" by (rule saver_invD(2))
  fix r m'
  assume r: "(mem_wf m' \<and> same_contents (mem_of s) m') \<and>
    (\<forall>x. r = Inr x \<longrightarrow> p x \<longrightarrow> (\<exists>ns c. stored (mem_of s) (t, ns, c) \<noteq> None))"
  then have l': "limits_kept cfg (s\<lparr>mem_of := m'\<rparr>)" using limits_same [OF l] by simp
  show "case r of Inl e \<Rightarrow> limits_kept cfg (s\<lparr>mem_of := m'\<rparr>)
      | Inr x \<Rightarrow> wp (k x) (\<lambda>_. limits_kept cfg) (s\<lparr>mem_of := m'\<rparr>)"
  proof (cases r)
    case (Inr x)
    show ?thesis
    proof (cases "p x")
      case True
      then obtain ns c where "stored (mem_of s) (t, ns, c) \<noteq> None" using r Inr by blast
      then have "dict_has (last_access (s\<lparr>mem_of := m'\<rparr>)) t" using stored_tracked [OF s] by simp
      then show ?thesis using l' limits_touch_tracked [OF l'] by (simp add: Inr touch [OF True] wp_bind wp_simps)
    qed (use l' in \<open>simp add: Inr plain wp_simps\<close>)
  qed (use l' in simp)
qed

lemma limits_get_tuple:
  assumes P: "parent_laws P" and cfg: "config_ok cfg"
  shows "preserves (limits_kept cfg) (get_tuple P cfg now later config)"
proof (cases "validated_location cfg config")
  case (Inl e)
  then show ?thesis by (simp add: get_tuple_def preserves_def wp_bind wp_simps)
next
  case (Inr loc)
  obtain t ns where loc: "loc = (t, ns)" by (cases loc)
  have at: "config_location config = Some (t, ns)" using validated_location_config Inr loc by simp
  have read: "wp (bind_op (on_mem (super_get_tuple P config)) (\<lambda>item.
      case item of None \<Rightarrow> ret None | Some _ \<Rightarrow> bind_op (modify_op (touch_locked later t)) (\<lambda>_. ret item)))
      (\<lambda>_. limits_kept cfg) s" if l: "limits_kept cfg s" for s
  proof (rule limits_read_touch [where p = "\<lambda>x. x \<noteq> None", OF parent_lawsD(1) [OF P] l])
    have "mem_wf (mem_of s)" using l by (simp add: limits_kept_def saver_invD)
    from parent_lawsD(7) [OF P, unfolded finds_stored_def, rule_format, OF this at]
    have "wp (super_get_tuple P config)
        (\<lambda>r _. \<forall>x. r = Inr (Some x) \<longrightarrow> (\<exists>ns c. stored (mem_of s) (t, ns, c) \<noteq> None)) (mem_of s)" by blast
    then show "wp (super_get_tuple P config)
        (\<lambda>r _. \<forall>x. r = Inr x \<longrightarrow> x \<noteq> None \<longrightarrow> (\<exists>ns c. stored (mem_of s) (t, ns, c) \<noteq> None)) (mem_of s)"
      by (rule wp_mono) blast
  qed (auto split: option.split)
  have "preserves (limits_kept cfg) (bind_op (purge_expired_locked P cfg now) (\<lambda>_.
     bind_op (read_op (\<lambda>s. dict_has (storage (mem_of s)) t)) (\<lambda>present.
       if \<not> present then ret None
       else bind_op (on_mem (super_get_tuple P config)) (\<lambda>item.
         case item of None \<Rightarrow> ret None | Some _ \<Rightarrow> bind_op (modify_op (touch_locked later t)) (\<lambda>_. ret item)))))"
    by (intro preserves_bind preserves_if limits_purge [OF P cfg] preserves_basic preservesI read)
  then show ?thesis by (simp add: get_tuple_def Inr loc preserves_def wp_bind [of "pure_op r" for r] wp_simps)
qed

lemma list_locations_Some:
  assumes "list_locations cfg config before = Inr (Some t)"
  obtains c ns where "config = Some c" "config_location c = Some (t, ns)"
  using assms validated_location_config
  by (cases config) (auto simp: list_locations_def bind_sum_eq_Inr)

lemma limits_read:
  assumes m: "reads_only m"
  shows "preserves (limits_kept cfg) (on_mem m)"
proof (rule preservesI)
  fix s assume l: "limits_kept cfg s"
  then have "mem_wf (mem_of s)" by (simp add: limits_kept_def saver_invD)
  then show "wp (on_mem m) (\<lambda>_. limits_kept cfg) s"
    unfolding wp_on_mem by (rule wp_mono [OF reads_only_wp [OF m]]) (simp add: limits_same l)
qed

lemma limits_list:
  assumes P: "parent_laws P" and cfg: "config_ok cfg"
  shows "preserves (limits_kept cfg) (list_checkpoints P cfg now later config f b n)"
proof (cases "list_locations cfg config b")
  case (Inl e)
  then show ?thesis by (simp add: list_checkpoints_def preserves_def wp_bind wp_simps)
next
  case (Inr loc)
  have read: "preserves (limits_kept cfg) (bind_op (on_mem (super_list P config f b n)) (\<lambda>items.
         case loc of None \<Rightarrow> ret items
         | Some t \<Rightarrow> if items = [] then ret items
             else bind_op (modify_op (touch_locked later t)) (\<lambda>_. ret items)))"
  proof (cases loc)
    case None
    then show ?thesis by (auto intro!: preserves_bind limits_read parent_lawsD(2) [OF P] preserves_basic)
  next
    case (Some t)
    obtain c ns where c: "config = Some c" "config_location c = Some (t, ns)"
      using list_locations_Some Inr Some by metis
    show ?thesis
    proof (rule preservesI)
      fix s assume l: "limits_kept cfg s"
      show "wp (bind_op (on_mem (super_list P config f b n)) (\<lambda>items.
         case loc of None \<Rightarrow> ret items
         | Some t \<Rightarrow> if items = [] then ret items
             else bind_op (modify_op (touch_locked later t)) (\<lambda>_. ret items))) (\<lambda>_. limits_kept cfg) s"
      proof (rule limits_read_touch [where p = "\<lambda>x. x \<noteq> []", OF parent_lawsD(2) [OF P] l])
        have "mem_wf (mem_of s)" using l by (simp add: limits_kept_def saver_invD)
        from parent_lawsD(7) [OF P, unfolded finds_stored_def, rule_format, OF this c(2)]
        show "wp (super_list P config f b n)
            (\<lambda>r _. \<forall>x. r = Inr x \<longrightarrow> x \<noteq> [] \<longrightarrow> (\<exists>ns c. stored (mem_of s) (t, ns, c) \<noteq> None)) (mem_of s)"
          unfolding c(1) by blast
      qed (simp_all add: Some)
    qed
  qed
  have "preserves (limits_kept cfg) (bind_op (purge_expired_locked P cfg now) (\<lambda>_.
     bind_op (read_op (\<lambda>s. case loc of None \<Rightarrow> True | Some t \<Rightarrow> dict_has (storage (mem_of s)) t)) (\<lambda>present.
       if \<not> present then ret []
       else bind_op (on_mem (super_list P config f b n)) (\<lambda>items.
         case loc of None \<Rightarrow> ret items
         | Some t \<Rightarrow> if items = [] then ret items
             else bind_op (modify_op (touch_locked later t)) (\<lambda>_. ret items)))))"
    by (intro preserves_bind [OF limits_purge [OF P cfg]] preserves_bind [OF preserves_basic(4)] preserves_if
        preserves_basic read)
  then show ?thesis by (simp add: list_checkpoints_def Inr preserves_def wp_bind [of "pure_op r" for r] wp_simps)
qed

lemma limits_delete_thread:
  assumes "parent_laws P" "config_ok cfg"
  shows "preserves (limits_kept cfg) (delete_thread P cfg v)"
  using limits_drop [OF assms(1), where ts = "[t]" for t] assms(2) unfolding delete_thread_def
  by (intro inv_intros preserves_modify) (simp add: config_ok_def)

lemma clear_run: "clear s = (Inr (), new_saver\<lparr>mem_of := (mem_of s)\<lparr>storage := [], writes := [], blobs := []\<rparr>\<rparr>)"
  by (simp add: clear_def modify_op_def new_saver_def)

lemma limits_clear:
  assumes "config_ok cfg"
  shows "preserves (limits_kept cfg) clear"
proof (rule preservesI)
  fix s
  have "m\<lparr>storage := [], writes := [], blobs := []\<rparr> = empty_mem" for m :: mem
    by (simp add: empty_mem_def)
  then have "clear s = (Inr (), new_saver)" by (simp add: clear_run new_saver_def)
  then show "wp clear (\<lambda>_. limits_kept cfg) s" using limits_new [OF assms] by (simp add: wp_iff)
qed

lemma limits_stats: "parent_laws P \<Longrightarrow> config_ok cfg \<Longrightarrow> preserves (limits_kept cfg) (stats P cfg now)"
  unfolding stats_def by (intro inv_intros limits_purge)

lemmas limits_ops = limits_put limits_put_writes limits_get_tuple limits_list limits_delete_thread
  limits_purge limits_clear limits_stats

fun reads_delta :: "saver_event \<Rightarrow> bool" where
  "reads_delta (GetDelta _ _ _ _) = True"
| "reads_delta _ = False"

lemma limits_exec:
  assumes "parent_laws P" "config_ok cfg" "\<not> reads_delta ev" "limits_kept cfg s"
  shows "limits_kept cfg (saver_exec P cfg ev s)"
  using assms by (cases ev) (auto simp: run_op_def purge_expired_def intro: preservesD limits_ops)

lemma limits_run:
  assumes "parent_laws P" "config_ok cfg" "\<And>ev. ev \<in> set evs \<Longrightarrow> \<not> reads_delta ev"
  shows "limits_kept cfg (saver_run P cfg evs)"
proof -
  have "limits_kept cfg (fold (saver_exec P cfg) evs s)" if "limits_kept cfg s" for s
    using assms(3) that by (induction evs arbitrary: s) (simp_all add: limits_exec [OF assms(1,2)])
  then show ?thesis unfolding saver_run_def using limits_new [OF assms(2)] by blast
qed

end
