(* ===== verification/ReferenceParent.thy ===== *)
theory ReferenceParent
  imports SaverLimits
begin

text \<open>
  A parent class that keeps the laws: a small in-memory saver over the three containers, with a
  serializer of its own. LangGraph's class is not in the repository and is not modelled here;
  this one shows that the laws can hold together, and runs the examples.
\<close>


section \<open>Operations\<close>

fun ref_bytes :: "pyval \<Rightarrow> bytes" where
  "ref_bytes (PBool b) = [1, if b then 1 else 0]"
| "ref_bytes (PInt n) = [2, word_of_int n]"
| "ref_bytes (PStr s) = 3 # map (\<lambda>c. word_of_nat (of_char c)) s"
| "ref_bytes (PList vs) = 4 # concat (map ref_bytes vs)"
| "ref_bytes (PTuple vs) = 5 # concat (map ref_bytes vs)"
| "ref_bytes (PDict d) = 6 # concat (map (\<lambda>(k, v). ref_bytes k @ ref_bytes v) d)"
| "ref_bytes _ = [0]"

fun ref_dumps :: "pyval \<Rightarrow> exc + serialized" where
  "ref_dumps (PObj _) = Inl (TypeError ''not serializable'')"
| "ref_dumps v = Inr (''ref'', ref_bytes v)"

definition ref_blob :: "pydict \<Rightarrow> string \<Rightarrow> serialized" where
  "ref_blob checkpoint channel =
     (case py_get_or checkpoint ''channel_values'' (PDict []) of
        PDict d \<Rightarrow>
          (case sget d channel of
             None \<Rightarrow> (''empty'', [])
           | Some v \<Rightarrow> (case ref_dumps v of Inl _ \<Rightarrow> (''empty'', []) | Inr b \<Rightarrow> b))
      | _ \<Rightarrow> (''empty'', []))"

definition ref_checkpoints :: "mem \<Rightarrow> string \<Rightarrow> string \<Rightarrow> (string, checkpoint_entry) dict" where
  "ref_checkpoints m t ns = dict_get_or (dict_get_or (storage m) t []) ns []"

definition ref_configurable :: "pydict \<Rightarrow> pydict" where
  "ref_configurable config = (case py_get config ''configurable'' of PDict d \<Rightarrow> d | _ \<Rightarrow> [])"

definition ref_tuple :: "string \<Rightarrow> string \<Rightarrow> string \<Rightarrow> checkpoint_tuple" where
  "ref_tuple t ns c =
     \<lparr>tuple_config = [(PStr ''configurable'', PDict [(PStr ''thread_id'', PStr t),
         (PStr ''checkpoint_ns'', PStr ns), (PStr ''checkpoint_id'', PStr c)])],
      tuple_checkpoint = [(PStr ''id'', PStr c)], tuple_metadata = None, tuple_parent_config = None\<rparr>"

definition ref_get_tuple :: "pydict \<Rightarrow> (mem, exc, checkpoint_tuple option) op" where
  "ref_get_tuple config m =
     (case config_location config of
        None \<Rightarrow> (Inl (KeyError ''thread_id''), m)
      | Some (t, ns) \<Rightarrow>
          (let cps = ref_checkpoints m t ns in
           (Inr (case py_get (ref_configurable config) ''checkpoint_id'' of
                   PStr c \<Rightarrow> if dict_has cps c then Some (ref_tuple t ns c) else None
                 | _ \<Rightarrow> if cps = [] then None else Some (ref_tuple t ns (fst (last cps)))), m)))"

definition ref_list ::
  "pydict option \<Rightarrow> pydict option \<Rightarrow> pydict option \<Rightarrow> int option \<Rightarrow> (mem, exc, checkpoint_tuple list) op" where
  "ref_list config flt before_config limit m =
     (let items = concat (map (\<lambda>(t, nss). concat (map (\<lambda>(ns, cps). map (\<lambda>(c, _). (t, ns, c)) cps) nss)) (storage m));
          chosen = (case config of
                      None \<Rightarrow> items
                    | Some c \<Rightarrow> (case config_location c of
                                  None \<Rightarrow> []
                                | Some (t, ns) \<Rightarrow> map (\<lambda>(c, _). (t, ns, c)) (ref_checkpoints m t ns)))
      in (Inr (map (\<lambda>(t, ns, c). ref_tuple t ns c)
            (case limit of None \<Rightarrow> chosen | Some n \<Rightarrow> take (nat n) chosen)), m))"

definition ref_store :: "string \<Rightarrow> string \<Rightarrow> string \<Rightarrow> checkpoint_entry \<Rightarrow> mem \<Rightarrow> mem" where
  "ref_store t ns c e m =
     m\<lparr>storage := dict_set (storage m) t
         (dict_set (dict_get_or (storage m) t []) ns (dict_set (ref_checkpoints m t ns) c e))\<rparr>"

definition ref_put ::
  "pydict \<Rightarrow> pydict \<Rightarrow> pydict \<Rightarrow> (string \<times> pyval) list \<Rightarrow> (mem, exc, pydict) op" where
  "ref_put config checkpoint metadata nv m =
     (case (config_location config, sget checkpoint ''id'') of
        (Some (t, ns), Some (PStr c)) \<Rightarrow>
          (let m' = ref_store t ns c
                 ((''ref'', ref_bytes (PDict (checkpoint_copy checkpoint))), (''ref'', ref_bytes (PDict metadata)),
                  py_get (ref_configurable config) ''checkpoint_id'') m
           in (Inr (tuple_config (ref_tuple t ns c)),
               m'\<lparr>blobs := fold (\<lambda>(channel, version) d. dict_set d (t, ns, channel, version) (ref_blob checkpoint channel))
                             nv (blobs m')\<rparr>))
      | _ \<Rightarrow> (Inl (KeyError ''configurable''), m))"

fun ref_batch ::
  "string \<Rightarrow> string \<Rightarrow> int \<Rightarrow> (string \<times> pyval) list \<Rightarrow> ((string \<times> int) \<times> write_entry) list" where
  "ref_batch task_id task_path i [] = []"
| "ref_batch task_id task_path i ((channel, v) # rest) =
     (case ref_dumps v of
        Inl _ \<Rightarrow> ref_batch task_id task_path (i + 1) rest
      | Inr b \<Rightarrow> ((task_id, i), (task_id, channel, b, task_path)) # ref_batch task_id task_path (i + 1) rest)"

definition ref_put_writes ::
  "pydict \<Rightarrow> (string \<times> pyval) list \<Rightarrow> string \<Rightarrow> string \<Rightarrow> (mem, exc, unit) op" where
  "ref_put_writes config ws task_id task_path m =
     (case (config_location config, py_get (ref_configurable config) ''checkpoint_id'') of
        (Some (t, ns), PStr c) \<Rightarrow>
          (Inr (), m\<lparr>writes := dict_set (writes m) (t, ns, c)
              (fold (\<lambda>(k, w) d. dict_set d k w) (ref_batch task_id task_path 0 ws) (pending m (t, ns, c)))\<rparr>)
      | _ \<Rightarrow> (Inl (KeyError ''configurable''), m))"

definition ref_delete_thread :: "string \<Rightarrow> mem \<Rightarrow> mem" where
  "ref_delete_thread t m =
     \<lparr>storage = dict_pop (storage m) t, writes = filter (\<lambda>(k, _). fst k \<noteq> t) (writes m),
      blobs = filter (\<lambda>(k, _). fst k \<noteq> t) (blobs m)\<rparr>"

definition ref_get_delta :: "pydict \<Rightarrow> string list \<Rightarrow> (mem, exc, pydict) op" where
  "ref_get_delta config channels m = (Inr (map (\<lambda>c. (PStr c, PList [])) channels), m)"

definition reference_parent :: parent_ops where
  "reference_parent =
     \<lparr>super_get_tuple = ref_get_tuple, super_list = ref_list, super_put = ref_put,
      super_put_writes = ref_put_writes, super_delete_thread = ref_delete_thread,
      super_get_delta_channel_history = ref_get_delta, dumps_typed = ref_dumps,
      get_checkpoint_metadata = (\<lambda>config metadata. metadata), empty_blob = (''empty'', [])\<rparr>"


section \<open>Laws\<close>

lemma ref_sel [simp]:
  "super_get_tuple reference_parent = ref_get_tuple" "super_list reference_parent = ref_list"
  "super_put reference_parent = ref_put" "super_put_writes reference_parent = ref_put_writes"
  "super_delete_thread reference_parent = ref_delete_thread"
  "super_get_delta_channel_history reference_parent = ref_get_delta"
  "dumps_typed reference_parent = ref_dumps"
  "get_checkpoint_metadata reference_parent config metadata = metadata"
  "empty_blob reference_parent = (''empty'', [])"
  by (simp_all add: reference_parent_def)

lemma ref_blob_channel: "channel_blob reference_parent checkpoint channel = ref_blob checkpoint channel"
  by (auto simp: channel_blob_def ref_blob_def split: pyval.split option.split sum.split)

lemma same_contents_refl [simp]: "same_contents m m"
  by (simp add: same_contents_def)

lemma ref_reads:
  "reads_only (ref_get_tuple c)" "reads_only (ref_list c' f b n)" "reads_only (ref_get_delta c chs)"
  by (auto simp: reads_only_def wp_iff ref_get_tuple_def ref_list_def ref_get_delta_def Let_def
      split: option.split)

lemma ref_checkpoints_stored: "dict_get (ref_checkpoints m t ns) c = stored m (t, ns, c)"
  by (simp add: ref_checkpoints_def stored_def dict_get_or_def split: option.split)

lemma ref_checkpoints_mem: "(c, e) \<in> set (ref_checkpoints m t ns) \<Longrightarrow> \<exists>ns c. stored m (t, ns, c) \<noteq> None"
  using ref_checkpoints_stored [of m t ns c]
  by (metis (no_types, lifting) domIff dom_map_of_conv_image_fst fst_conv image_iff)

lemma ref_finds_stored: "finds_stored reference_parent"
  unfolding finds_stored_def
proof (intro allI impI conjI)
  fix config t ns m f b n
  assume c: "config_location config = Some (t, ns)"
  have found: "\<exists>ns c. stored m (t, ns, c) \<noteq> None" if "ref_checkpoints m t ns \<noteq> []"
    using that by (intro ref_checkpoints_mem [of "fst (hd (ref_checkpoints m t ns))" "snd (hd (ref_checkpoints m t ns))" m t ns]) simp
  have "\<exists>ns c. stored m (t, ns, c) \<noteq> None" if "fst (ref_get_tuple config m) = Inr (Some x)" for x
  proof (rule found)
    show "ref_checkpoints m t ns \<noteq> []"
      using that c by (auto simp: ref_get_tuple_def dict_has_def split: pyval.splits if_splits)
  qed
  then show "wp (super_get_tuple reference_parent config)
      (\<lambda>r _. \<forall>x. r = Inr (Some x) \<longrightarrow> (\<exists>ns c. stored m (t, ns, c) \<noteq> None)) m"
    unfolding wp_iff ref_sel by blast
  have "\<exists>ns c. stored m (t, ns, c) \<noteq> None" if "fst (ref_list (Some config) f b n m) = Inr xs" "xs \<noteq> []" for xs
    by (rule found) (use that c in \<open>auto simp: ref_list_def Let_def split: option.splits\<close>)
  then show "wp (super_list reference_parent (Some config) f b n)
      (\<lambda>r _. \<forall>xs. r = Inr xs \<longrightarrow> xs \<noteq> [] \<longrightarrow> (\<exists>ns c. stored m (t, ns, c) \<noteq> None)) m"
    unfolding wp_iff ref_sel by blast
qed

lemma dict_get_filter:
  "dict_get (filter (\<lambda>(k, _). q k) d) k = (if q k then dict_get d k else None)"
  by (induction d) auto

lemma mem_wf_delete: "mem_wf m \<Longrightarrow> mem_wf (ref_delete_thread t m)"
  by (auto simp: mem_wf_def ref_delete_thread_def dict_wf_def distinct_map_filter distinct_delete dict_pop_filter)

lemma ref_deletes: "deletes_thread ref_delete_thread"
  unfolding deletes_thread_def
  by (intro allI impI conjI mem_wf_delete)
    (simp_all add: ref_delete_thread_def dict_get_filter [where q = "\<lambda>k. fst k \<noteq> t" for t] dict_simps)

lemma set_dict_set: "set (dict_set d k v) \<subseteq> insert (k, v) (set d)"
  by (induction d) auto

lemma dict_get_or_mem: "dict_get_or d k v = v \<or> (k, dict_get_or d k v) \<in> set d"
  by (auto simp: dict_get_or_def split: option.split dest: map_of_SomeD)

lemma ref_checkpoints_wf: "mem_wf m \<Longrightarrow> dict_wf (ref_checkpoints m t ns)"
  using dict_get_or_mem [of "storage m" t "[]"] dict_get_or_mem [of "dict_get_or (storage m) t []" ns "[]"]
  unfolding mem_wf_def ref_checkpoints_def by fastforce

lemma mem_wf_store: "mem_wf m \<Longrightarrow> mem_wf (ref_store t ns c e m)"
proof -
  assume wf: "mem_wf m"
  let ?nss = "dict_get_or (storage m) t []"
  have nss: "dict_wf ?nss" "\<forall>(ns, checkpoints) \<in> set ?nss. dict_wf checkpoints"
    using wf dict_get_or_mem [of "storage m" t "[]"] by (force simp: mem_wf_def)+
  let ?new = "dict_set ?nss ns (dict_set (ref_checkpoints m t ns) c e)"
  have "dict_wf ?new" "\<forall>(ns, checkpoints) \<in> set ?new. dict_wf checkpoints"
    using nss ref_checkpoints_wf [OF wf] set_dict_set [of ns "dict_set (ref_checkpoints m t ns) c e" ?nss]
    by fastforce+
  then show ?thesis
    using wf set_dict_set [of t ?new "storage m"] unfolding mem_wf_def ref_store_def by fastforce
qed

lemma mem_wf_blobs: "mem_wf m \<Longrightarrow> dict_wf b \<Longrightarrow> mem_wf (m\<lparr>blobs := b\<rparr>)"
  by (simp add: mem_wf_def)

lemma blobs_fold_wf: "dict_wf d \<Longrightarrow> dict_wf (fold (\<lambda>(channel, version) d. dict_set d (t, ns, channel, version) (f channel)) nv d)"
  by (induction nv arbitrary: d) auto

lemma blobs_fold_get:
  "dict_get (fold (\<lambda>(channel, version) d. dict_set d (t, ns, channel, version) (f channel)) nv d) (t', ns', channel, version) =
     (if t' = t \<and> ns' = ns \<and> (channel, version) \<in> set nv then Some (f channel)
      else dict_get d (t', ns', channel, version))"
proof (induction nv arbitrary: d)
  case (Cons p nv)
  obtain ch v where p: "p = (ch, v)" by (cases p)
  have "dict_get (fold (\<lambda>(channel, version) d. dict_set d (t, ns, channel, version) (f channel)) (p # nv) d) (t', ns', channel, version) =
      (if t' = t \<and> ns' = ns \<and> (channel, version) \<in> set nv then Some (f channel)
       else dict_get (dict_set d (t, ns, ch, v) (f ch)) (t', ns', channel, version))"
    using Cons.IH [of "dict_set d (t, ns, ch, v) (f ch)"] by (simp add: p)
  also have "\<dots> = (if t' = t \<and> ns' = ns \<and> (channel, version) \<in> set (p # nv) then Some (f channel)
      else dict_get d (t', ns', channel, version))"
    by (auto simp: dict_get_set p)
  finally show ?case .
qed simp

lemma stored_ref_store: "stored (ref_store t ns c e m) k = (if k = (t, ns, c) then Some e else stored m k)"
  by (cases k) (auto simp: stored_def ref_store_def ref_checkpoints_def dict_get_set dict_get_or_def split: option.split)

lemma namespaces_ref_store: "namespaces_of (ref_store t ns c e m) t = insert ns (namespaces_of m t)"
  by (auto simp: namespaces_of_def ref_store_def dict_get_or_set dict_has_set)

lemma stored_blobs [simp]: "stored (m\<lparr>blobs := b\<rparr>) k = stored m k"
  by (simp add: stored_def)

lemma namespaces_blobs [simp]: "namespaces_of (m\<lparr>blobs := b\<rparr>) t = namespaces_of m t"
  by (simp add: namespaces_of_def)

lemma ref_dumps_dict [simp]: "ref_dumps (PDict d) = Inr (''ref'', ref_bytes (PDict d))"
  by simp

lemma ref_put_effect:
  assumes "mem_wf m"
  shows "put_effect reference_parent config checkpoint metadata nv t ns c m
     ((ref_store t ns c ((''ref'', ref_bytes (PDict (checkpoint_copy checkpoint))), (''ref'', ref_bytes (PDict metadata)), p) m)
       \<lparr>blobs := fold (\<lambda>(channel, version) d. dict_set d (t, ns, channel, version) (ref_blob checkpoint channel)) nv (blobs m)\<rparr>)"
    (is "put_effect _ _ _ _ _ _ _ _ _ (?m\<lparr>blobs := ?b\<rparr>)")
proof -
  have "mem_wf (?m\<lparr>blobs := ?b\<rparr>)"
    using assms by (intro mem_wf_blobs mem_wf_store blobs_fold_wf) (simp_all add: mem_wf_def)
  moreover have "writes ?m = writes m" "dict_get (storage ?m) u = dict_get (storage m) u" if "u \<noteq> t" for u
    using that by (simp_all add: ref_store_def dict_get_set)
  moreover have "writes ?m = writes m" by (simp add: ref_store_def)
  ultimately show ?thesis
    unfolding put_effect_def
    by (simp add: stored_ref_store namespaces_ref_store blobs_fold_get ref_blob_channel split_paired_all)
qed

lemma ref_puts: "puts_checkpoint reference_parent"
  unfolding puts_checkpoint_def
proof (intro allI impI)
  fix config checkpoint metadata nv t ns c n m
  assume "mem_wf m" "config_location config = Some (t, ns)" "sget checkpoint ''id'' = Some (PStr c)"
  moreover have "blobs (ref_store t ns c e m) = blobs m" for e by (simp add: ref_store_def)
  ultimately show "wp (super_put reference_parent config checkpoint metadata nv)
      (\<lambda>r m'. case r of Inl _ \<Rightarrow> m' = m
              | Inr _ \<Rightarrow> put_effect reference_parent config checkpoint metadata nv t ns c m m') m"
    by (simp add: wp_iff ref_put_def Let_def ref_put_effect del: ref_bytes.simps)
qed

lemma ref_batch_write_batch: "write_batch reference_parent task_id task_path ws (ref_batch task_id task_path i ws)"
  by (induction task_id task_path i ws rule: ref_batch.induct)
    (auto intro: write_batch.intros split: sum.split)

lemma fold_set_wf: "dict_wf d \<Longrightarrow> dict_wf (fold (\<lambda>(k, w) d. dict_set d k w) es d)"
  by (induction es arbitrary: d) auto

lemma ref_puts_writes: "puts_writes reference_parent"
  unfolding puts_writes_def
proof (intro allI impI)
  fix config ws task_id task_path t ns d c n m
  assume wf: "mem_wf m" and at: "config_location config = Some (t, ns)"
    "py_get config ''configurable'' = PDict d" "py_get d ''checkpoint_id'' = PStr c"
  let ?es = "ref_batch task_id task_path 0 ws"
  let ?d = "fold (\<lambda>(k, w) d. dict_set d k w) ?es (pending m (t, ns, c))"
  have "dict_wf ?d" by (intro fold_set_wf pending_wf wf)
  then have "mem_wf (m\<lparr>writes := dict_set (writes m) (t, ns, c) ?d\<rparr>)"
    using wf set_dict_set [of "(t, ns, c)" ?d "writes m"] unfolding mem_wf_def by fastforce
  then have "put_writes_effect reference_parent ws task_id task_path (t, ns, c) m
      (m\<lparr>writes := dict_set (writes m) (t, ns, c) ?d\<rparr>)"
    unfolding put_writes_effect_def
    by (auto simp: dict_get_set pending_def dict_get_or_set intro: ref_batch_write_batch exI [of _ ?es])
  then show "wp (super_put_writes reference_parent config ws task_id task_path)
      (\<lambda>r m'. case r of Inl _ \<Rightarrow> m' = m
              | Inr _ \<Rightarrow> put_writes_effect reference_parent ws task_id task_path (t, ns, c) m m') m"
    using at by (simp add: wp_iff ref_put_writes_def ref_configurable_def)
qed

lemma reference_laws: "parent_laws reference_parent"
  using ref_finds_stored ref_reads ref_deletes ref_puts ref_puts_writes by (simp add: parent_laws_def)

end
