(* ===== verification/SaverProperties.thy ===== *)
theory SaverProperties
  imports ReferenceParent
begin

text \<open>
  The exits of \<open>put\<close> and \<open>put_writes\<close> as inductive relations, and the properties of the bounded
  saver, with examples on the reference parent.
\<close>


section \<open>The exits of the two writers\<close>

inductive put_outcome ::
  "parent_ops \<Rightarrow> checkpoint_config \<Rightarrow> rat \<Rightarrow> rat \<Rightarrow> pydict \<Rightarrow> pydict \<Rightarrow> pydict \<Rightarrow> (string \<times> pyval) list \<Rightarrow> saver \<Rightarrow>
     exc + pydict \<Rightarrow> saver \<Rightarrow> bool"
  for P cfg now later config checkpoint metadata nv s where
  put_rejected: "put_arguments P cfg config checkpoint metadata nv = Inl e \<Longrightarrow>
     put_outcome P cfg now later config checkpoint metadata nv s (Inl e) s"
| put_refused: "put_arguments P cfg config checkpoint metadata nv = Inr (t, ns, c, n) \<Longrightarrow>
     placed P cfg now t s s' \<Longrightarrow>
     put_outcome P cfg now later config checkpoint metadata nv s (Inl (CheckpointCapacityError msg)) s'"
| put_failed: "put_arguments P cfg config checkpoint metadata nv = Inr (t, ns, c, n) \<Longrightarrow>
     admitted P cfg now t ns c n s s' \<Longrightarrow>
     put_outcome P cfg now later config checkpoint metadata nv s (Inl e) s'"
| put_done: "put_arguments P cfg config checkpoint metadata nv = Inr (t, ns, c, n) \<Longrightarrow>
     saver_inv s1 \<Longrightarrow> admitted P cfg now t ns c n s s1 \<Longrightarrow>
     put_effect P config checkpoint metadata nv t ns c (mem_of s1) m' \<Longrightarrow>
     stored m' (t, ns, c) = Some e \<Longrightarrow>
     put_outcome P cfg now later config checkpoint metadata nv s (Inr x) (committed_put later t ns c e nv m' s1)"

lemma wp_admit_inv:
  assumes P: "parent_laws P" and s: "saver_inv s" and cfg: "config_ok cfg"
    and r: "\<And>m s'. placed P cfg now t s s' \<Longrightarrow> Q (Inl (CheckpointCapacityError m)) s'"
    and a: "\<And>s'. saver_inv s' \<Longrightarrow> admitted P cfg now t ns c n s s' \<Longrightarrow> Q (Inr ()) s'"
  shows "wp (admit P cfg now t ns c n) Q s"
proof (rule wp_mono [OF wp_conj [OF wp_admit [OF P s cfg] preserves_wp [OF saver_inv_admit [OF P] s]]])
  fix x :: "exc + unit" and s'
  assume x: "(case x of Inl e \<Rightarrow> placed P cfg now t s s' \<and> (\<exists>m. e = CheckpointCapacityError m)
      | Inr _ \<Rightarrow> admitted P cfg now t ns c n s s') \<and> saver_inv s'"
  show "Q x s'"
  proof (cases x)
    case (Inl e)
    then show ?thesis using x r by auto
  next
    case (Inr u)
    then show ?thesis using x a by (cases u) simp
  qed
qed

lemma put_outcomes:
  assumes P: "parent_laws P" and s: "saver_inv s" and cfg: "config_ok cfg"
    and run: "put P cfg now later config checkpoint metadata nv s = (r, s')"
  shows "put_outcome P cfg now later config checkpoint metadata nv s r s'"
proof -
  let ?Q = "put_outcome P cfg now later config checkpoint metadata nv s"
  have "wp (put P cfg now later config checkpoint metadata nv) ?Q s"
  proof (rule wp_put [OF P s])
    show "?Q (Inl e) s" if "put_arguments P cfg config checkpoint metadata nv = Inl e" for e
      using that by (rule put_rejected)
    show "wp (admit P cfg now t ns c n)
        (\<lambda>r s'. case r of Inl e \<Rightarrow> ?Q (Inl e) s'
          | Inr _ \<Rightarrow> saver_inv s' \<longrightarrow> (\<forall>x. ?Q (Inl x) s') \<and>
              (\<forall>x m' e. put_effect P config checkpoint metadata nv t ns c (mem_of s') m' \<longrightarrow>
                 stored m' (t, ns, c) = Some e \<longrightarrow> ?Q (Inr x) (committed_put later t ns c e nv m' s'))) s"
      if "put_arguments P cfg config checkpoint metadata nv = Inr (t, ns, c, n)" for t ns c n
      using that by (intro wp_admit_inv [OF P s cfg]) (auto intro: put_outcome.intros)
  qed
  then show ?thesis by (simp add: wp_iff run)
qed

inductive writes_outcome ::
  "parent_ops \<Rightarrow> checkpoint_config \<Rightarrow> rat \<Rightarrow> rat \<Rightarrow> pydict \<Rightarrow> (string \<times> pyval) list \<Rightarrow> pyval \<Rightarrow> string \<Rightarrow> saver \<Rightarrow>
     exc + unit \<Rightarrow> saver \<Rightarrow> bool"
  for P cfg now later config ws task_idv task_path s where
  writes_rejected: "put_writes_arguments P cfg config ws task_idv task_path = Inl e \<Longrightarrow>
     writes_outcome P cfg now later config ws task_idv task_path s (Inl e) s"
| writes_refused: "put_writes_arguments P cfg config ws task_idv task_path = Inr (t, ns, c, task_id, n) \<Longrightarrow>
     placed P cfg now t s s' \<Longrightarrow>
     writes_outcome P cfg now later config ws task_idv task_path s (Inl (CheckpointCapacityError msg)) s'"
| writes_failed: "put_writes_arguments P cfg config ws task_idv task_path = Inr (t, ns, c, task_id, n) \<Longrightarrow>
     admitted P cfg now t ns c n s s' \<Longrightarrow>
     writes_outcome P cfg now later config ws task_idv task_path s (Inl e) s'"
| writes_done: "put_writes_arguments P cfg config ws task_idv task_path = Inr (t, ns, c, task_id, n) \<Longrightarrow>
     saver_inv s1 \<Longrightarrow> admitted P cfg now t ns c n s s1 \<Longrightarrow>
     put_writes_effect P ws task_id task_path (t, ns, c) (mem_of s1) m' \<Longrightarrow>
     writes_outcome P cfg now later config ws task_idv task_path s (Inr ()) (committed_writes later t ns c m' s1)"

lemma put_writes_outcomes:
  assumes P: "parent_laws P" and s: "saver_inv s" and cfg: "config_ok cfg"
    and run: "put_writes P cfg now later config ws task_idv task_path s = (r, s')"
  shows "writes_outcome P cfg now later config ws task_idv task_path s r s'"
proof -
  let ?Q = "writes_outcome P cfg now later config ws task_idv task_path s"
  have "wp (put_writes P cfg now later config ws task_idv task_path) ?Q s"
  proof (rule wp_put_writes [OF P s])
    show "?Q (Inl e) s" if "put_writes_arguments P cfg config ws task_idv task_path = Inl e" for e
      using that by (rule writes_rejected)
    show "wp (admit P cfg now t ns c n)
        (\<lambda>r s'. case r of Inl e \<Rightarrow> ?Q (Inl e) s'
          | Inr _ \<Rightarrow> saver_inv s' \<longrightarrow> (\<forall>x. ?Q (Inl x) s') \<and>
              (\<forall>m'. put_writes_effect P ws task_id task_path (t, ns, c) (mem_of s') m' \<longrightarrow>
                 ?Q (Inr ()) (committed_writes later t ns c m' s'))) s"
      if "put_writes_arguments P cfg config ws task_idv task_path = Inr (t, ns, c, task_id, n)" for t ns c task_id n
      using that by (intro wp_admit_inv [OF P s cfg]) (auto intro: writes_outcome.intros)
  qed
  then show ?thesis by (simp add: wp_iff run)
qed

inductive_cases put_outcome_InrE: "put_outcome P cfg now later config checkpoint metadata nv s (Inr x) s'"
inductive_cases put_outcome_InlE: "put_outcome P cfg now later config checkpoint metadata nv s (Inl e) s'"
inductive_cases writes_outcome_InrE: "writes_outcome P cfg now later config ws task_idv task_path s (Inr x) s'"
inductive_cases writes_outcome_InlE: "writes_outcome P cfg now later config ws task_idv task_path s (Inl e) s'"

lemmas put_Inr = put_outcome_InrE [consumes 1, case_names stored_it]
lemmas put_Inl = put_outcome_InlE [consumes 1, case_names rejected refused failed]
lemmas writes_Inr = writes_outcome_InrE [consumes 1, case_names stored_it]
lemmas writes_Inl = writes_outcome_InlE [consumes 1, case_names rejected refused failed]

text \<open>What an operation may do to the other threads: keep them as they are or drop them whole.\<close>

lemma placed_threads:
  assumes "parent_laws P" "saver_inv s" "placed P cfg now t s s'"
  shows "same_thread (mem_of s) (mem_of s') u \<or> (no_thread (mem_of s') u \<and> (u = t \<longrightarrow> expired cfg now s t))"
proof -
  obtain ts where ts: "s' = drop_threads P ts s" "t \<in> set ts \<longrightarrow> expired cfg now s t"
    using assms(3) by (auto simp: placed_def)
  show ?thesis
    using drop_threads_other [OF assms(1) saver_invD(2) [OF assms(2)], of u ts]
      drop_threads_gone [OF assms(1) saver_invD(2) [OF assms(2)], of u ts] ts by auto
qed

lemma admitted_placed: "admitted P cfg now t ns c n s s' \<Longrightarrow> placed P cfg now t s s'"
  by (simp add: admitted_def)

lemma same_thread_put:
  "put_effect P config checkpoint metadata nv t ns c m m' \<Longrightarrow> u \<noteq> t \<Longrightarrow> same_thread m m' u"
  by (simp add: same_thread_def put_effectD)

lemma same_thread_put_writes:
  "put_writes_effect P ws task_id task_path (t, ns, c) m m' \<Longrightarrow> u \<noteq> t \<Longrightarrow> same_thread m m' u"
  by (simp add: same_thread_def put_writes_effectD)


lemma mem_of_delete_list [simp]: "no_thread m t \<Longrightarrow> stored m (t, ns, c) = None"
  by (simp add: no_thread_def stored_def)


section \<open>Examples\<close>

definition small_args :: checkpoint_config_args where
  "small_args =
     \<lparr>arg_idle_ttl_seconds = PInt 10, arg_max_threads = PInt 2, arg_max_namespaces_per_thread = PInt 2,
      arg_max_checkpoints_per_thread = PInt 2, arg_max_checkpoint_bytes = PInt 60,
      arg_max_pending_write_bytes = PInt 40, arg_max_total_bytes = PInt 60,
      arg_max_thread_id_length = PInt 8, arg_max_checkpoint_namespace_length = PInt 8\<rparr>"

definition small_config :: checkpoint_config where
  "small_config =
     \<lparr>idle_ttl_seconds = 10, max_threads = 2, max_namespaces_per_thread = 2, max_checkpoints_per_thread = 2,
      max_checkpoint_bytes = 60, max_pending_write_bytes = 40, max_total_bytes = 60,
      max_thread_id_length = 8, max_checkpoint_namespace_length = 8\<rparr>"

lemma small_config_ok: "config_ok small_config"
  by (simp add: config_ok_def small_config_def)

lemma make_small_config: "make_checkpoint_config small_args = Inr small_config"
  by (simp add: make_checkpoint_config_def positive_integer_fields_def small_args_def small_config_def Let_def)

definition at_thread :: "string \<Rightarrow> pydict" where
  "at_thread t = [(PStr ''configurable'', PDict [(PStr ''thread_id'', PStr t)])]"

definition at_checkpoint :: "string \<Rightarrow> string \<Rightarrow> pydict" where
  "at_checkpoint t c =
     [(PStr ''configurable'', PDict [(PStr ''thread_id'', PStr t), (PStr ''checkpoint_id'', PStr c)])]"

definition a_checkpoint :: "string \<Rightarrow> pydict" where
  "a_checkpoint c = [(PStr ''id'', PStr c), (PStr ''channel_values'', PDict [(PStr ''x'', PInt 7)])]"

abbreviation put_at :: "rat \<Rightarrow> string \<Rightarrow> string \<Rightarrow> saver_event" where
  "put_at time t c \<equiv> Put time time (at_thread t) (a_checkpoint c) [] [(''x'', PInt 1)]"

definition one_thread :: saver where
  "one_thread = saver_run reference_parent small_config [put_at 0 ''a'' ''c1'']"



section \<open>Accounting and limits\<close>

lemma one_thread_inv: "saver_inv one_thread"
  unfolding one_thread_def by (rule saver_inv_run [OF reference_laws])

text \<open>
  C1: After any sequence of operations, whatever their arguments, results and exceptions, the
  size ledger has exactly one entry for each stored checkpoint, blob and pending write, with
  its size, and none for anything else; \<open>_serialized_bytes\<close> is the sum of the ledger; and
  every thread with stored data is in the access order.
\<close>

theorem saver_accounting:
  assumes "parent_laws P"
  shows "let s = saver_run P cfg evs in
    serialized_bytes s = dict_sum (sizes s) \<and> dict_wf (sizes s) \<and>
    (\<forall>k. dict_get (sizes s) k = payload (mem_of s) k) \<and>
    (\<forall>k. payload (mem_of s) k \<noteq> None \<longrightarrow> dict_has (last_access s) (key_thread k))"
  using saver_inv_run [OF assms, of cfg evs]
  by (simp add: Let_def saver_inv_def ledger_ok_def ledger_size_def)

theorem saver_accounting_witness:
  "serialized_bytes (saver_run reference_parent small_config [put_at 0 ''a'' ''c1'', put_at 1 ''b'' ''c1'']) = 38 \<and>
   dict_sum (sizes (saver_run reference_parent small_config [put_at 0 ''a'' ''c1'', put_at 1 ''b'' ''c1''])) = 38"
proof -
  let ?s = "saver_run reference_parent small_config [put_at 0 ''a'' ''c1'', put_at 1 ''b'' ''c1'']"
  have "serialized_bytes ?s = 38" by code_simp
  then show ?thesis using saver_accounting [OF reference_laws, of small_config "[put_at 0 ''a'' ''c1'', put_at 1 ''b'' ''c1'']"]
    by (simp add: Let_def)
qed

text \<open>
  C12: With any validated configuration, after any sequence of operations other than
  \<open>get_delta_channel_history\<close>, at most \<open>max_threads\<close> threads are tracked and no thread has more
  than \<open>max_checkpoints_per_thread\<close> checkpoints, those that only have pending writes included.
\<close>

theorem saver_limits:
  assumes "parent_laws P" "make_checkpoint_config a = Inr cfg" "\<forall>ev\<in>set evs. \<not> reads_delta ev"
  shows "int (length (last_access (saver_run P cfg evs))) \<le> max_threads cfg \<and>
    int (card (checkpoints_of (mem_of (saver_run P cfg evs)) t)) \<le> max_checkpoints_per_thread cfg"
  using limits_run [OF assms(1) config_ok_make [OF assms(2)]] assms(3)
  by (simp add: limits_kept_def)

theorem saver_limits_witness:
  "int (length (last_access (saver_run reference_parent small_config
      [put_at 0 ''a'' ''c1'', put_at 1 ''b'' ''c1'', put_at 2 ''c'' ''c1'']))) \<le> 2 \<and>
   dict_keys (last_access (saver_run reference_parent small_config
      [put_at 0 ''a'' ''c1'', put_at 1 ''b'' ''c1'', put_at 2 ''c'' ''c1''])) = [''b'', ''c'']"
proof -
  let ?evs = "[put_at 0 ''a'' ''c1'', put_at 1 ''b'' ''c1'', put_at 2 ''c'' ''c1'']"
  have "\<forall>ev\<in>set ?evs. \<not> reads_delta ev" by simp
  from saver_limits [OF reference_laws make_small_config this]
  have "int (length (last_access (saver_run reference_parent small_config ?evs))) \<le> 2"
    by (simp add: small_config_def)
  moreover have "dict_keys (last_access (saver_run reference_parent small_config ?evs)) = [''b'', ''c'']" by code_simp
  ultimately show ?thesis by blast
qed

text \<open>
  \<open>get_delta_channel_history\<close> is left out of the previous property for a reason: it marks a
  thread as used without asking whether the thread exists, so calls for unknown threads
  make the access order longer than \<open>max_threads\<close>, and the statistics count them as threads.
\<close>

theorem delta_history_exceeds_max_threads:
  "\<exists>P evs. parent_laws P \<and>
     int (length (last_access (saver_run P small_config evs))) > max_threads small_config \<and>
     (\<forall>k. stored (mem_of (saver_run P small_config evs)) k = None)"
proof (intro exI conjI allI)
  let ?evs = "[GetDelta 0 0 (at_thread ''a'') [''x''], GetDelta 0 0 (at_thread ''b'') [''x''],
    GetDelta 0 0 (at_thread ''c'') [''x'']]"
  show "parent_laws reference_parent" by (rule reference_laws)
  show "max_threads small_config < int (length (last_access (saver_run reference_parent small_config ?evs)))"
    by code_simp
  have "storage (mem_of (saver_run reference_parent small_config ?evs)) = []" by code_simp
  then show "stored (mem_of (saver_run reference_parent small_config ?evs)) k = None" for k
    by (cases k) (simp add: stored_def)
qed


section \<open>Byte budgets\<close>

text \<open>
  C27: After a successful \<open>put\<close> the total is within \<open>max_total_bytes\<close>, but for the blobs the
  parent stores for new channel versions without a value: the estimate does not count them,
  the ledger does. The example has one of them and ends above the budget.
\<close>

theorem put_total_bytes:
  assumes "parent_laws P" "saver_inv s" "config_ok cfg"
    and "put P cfg now later config checkpoint metadata nv s = (Inr x, s')"
  shows "serialized_bytes s' \<le>
    max_total_bytes cfg + int (missing_values checkpoint nv) * serialized_size (empty_blob P)"
  using put_outcomes [OF assms]
proof (cases rule: put_Inr)
  case (stored_it t ns c n s1 m' e)
  then show ?thesis
    using committed_put_bytes [OF stored_it(3,5,6) put_arguments_Inr(4) [OF stored_it(2)], of later]
    by (simp add: admitted_def)
qed

theorem put_total_bytes_witness:
  "\<exists>x s'. put reference_parent (small_config\<lparr>max_total_bytes := 19, max_checkpoint_bytes := 19, max_pending_write_bytes := 19\<rparr>) 0 0
       (at_thread ''a'') (a_checkpoint ''c1'') [] [(''x'', PInt 1), (''y'', PInt 1)] new_saver = (Inr x, s') \<and>
     serialized_bytes s' = 24 \<and> serialized_bytes s' \<le> 19 + 1 * 5"
proof -
  let ?cfg = "small_config\<lparr>max_total_bytes := 19, max_checkpoint_bytes := 19, max_pending_write_bytes := 19\<rparr>"
  let ?nv = "[(''x'', PInt 1), (''y'', PInt 1)]"
  let ?run = "put reference_parent ?cfg 0 0 (at_thread ''a'') (a_checkpoint ''c1'') [] ?nv new_saver"
  have "\<not> isl (fst ?run)" and b: "serialized_bytes (snd ?run) = 24" by code_simp+
  then obtain x s' where run: "?run = (Inr x, s')" by (cases ?run; cases "fst ?run") auto
  have "config_ok ?cfg" by (simp add: config_ok_def small_config_def)
  note t = put_total_bytes [OF reference_laws saver_inv_new this run]
  have "missing_values (a_checkpoint ''c1'') ?nv = 1" by code_simp
  moreover have "serialized_size (''empty'', []) = 5" by code_simp
  ultimately have "serialized_bytes s' \<le> 19 + 1 * 5" using t by (simp add: small_config_def)
  then show ?thesis using run b by simp
qed

text \<open>
  After a successful \<open>put_writes\<close> the total is within \<open>max_total_bytes\<close>, less the length of
  the task id, plus the length of the task path for every write but one: the estimate counts
  the path once and the id once, the ledger counts the path for every write and the id never.
\<close>

theorem put_writes_total_bytes:
  assumes "parent_laws P" "saver_inv s" "config_ok cfg"
    and "put_writes P cfg now later config ws (PStr task_id) task_path s = (Inr x, s')"
  shows "serialized_bytes s' \<le>
    max_total_bytes cfg - int (utf8_len task_id) + (int (length ws) - 1) * int (utf8_len task_path)"
  using put_writes_outcomes [OF assms]
proof (cases rule: writes_Inr)
  case (stored_it t ns c task_id' n s1 m')
  obtain sz where sz: "task_id' = task_id" "sum_write_sizes P ws = Inr sz"
      "n = sz + int (utf8_len task_id) + int (utf8_len task_path)"
    using put_writes_arguments_Inr [OF stored_it(2)] by auto
  then show ?thesis
    using committed_writes_bytes [OF stored_it(3,5) sz(2), of later] stored_it(1,4) sz(1,3)
    by (simp add: admitted_def algebra_simps)
qed

theorem put_writes_total_bytes_witness:
  "\<exists>s'. put_writes reference_parent (small_config\<lparr>max_total_bytes := 40, max_checkpoint_bytes := 40\<rparr>) 0 0
       (at_checkpoint ''a'' ''c1'') [(''x'', PInt 1), (''y'', PInt 2), (''z'', PInt 3)] (PStr ''t'') ''path/to/node'' new_saver =
       (Inr (), s') \<and>
     serialized_bytes s' = 54 \<and> serialized_bytes s' \<le> 40 - 1 + (3 - 1) * 12"
proof -
  let ?cfg = "small_config\<lparr>max_total_bytes := 40, max_checkpoint_bytes := 40\<rparr>"
  let ?ws = "[(''x'', PInt 1), (''y'', PInt 2), (''z'', PInt 3)]"
  let ?run = "put_writes reference_parent ?cfg 0 0 (at_checkpoint ''a'' ''c1'') ?ws (PStr ''t'') ''path/to/node'' new_saver"
  have "\<not> isl (fst ?run)" and b: "serialized_bytes (snd ?run) = 54" by code_simp+
  then obtain s' where run: "?run = (Inr (), s')" by (cases ?run; cases "fst ?run") auto
  have "config_ok ?cfg" by (simp add: config_ok_def small_config_def)
  note t = put_writes_total_bytes [OF reference_laws saver_inv_new this run]
  have "int (utf8_len ''t'') = 1" "int (utf8_len ''path/to/node'') = 12" by code_simp+
  then have "serialized_bytes s' \<le> 40 - 1 + (3 - 1) * 12" using t by (simp add: small_config_def)
  then show ?thesis using run b by simp
qed



section \<open>What the writers do\<close>

text \<open>The checkpoints and pending writes of a thread that an admission kept.\<close>

lemma admitted_keeps:
  assumes "parent_laws P" "saver_inv s" "admitted P cfg now t ns c n s s1" "\<not> expired cfg now s t"
  shows "same_thread (mem_of s) (mem_of s1) t"
  using placed_threads [OF assms(1,2) admitted_placed [OF assms(3)], of t] assms(4) by blast

lemma other_thread_put:
  assumes P: "parent_laws P" and s: "saver_inv s" and adm: "admitted P cfg now t ns c n s s1"
    and eff: "put_effect P config checkpoint metadata nv t ns c (mem_of s1) m'" and u: "u \<noteq> t"
  shows "same_thread (mem_of s) m' u \<or> no_thread m' u"
proof -
  have "same_thread (mem_of s1) m' u" by (rule same_thread_put [OF eff u])
  moreover have "same_thread (mem_of s) (mem_of s1) u \<or> no_thread (mem_of s1) u"
    using placed_threads [OF P s admitted_placed [OF adm], of u] by blast
  ultimately show ?thesis by (auto intro: same_thread_trans simp: same_thread_def no_thread_def)
qed

lemma touched_last:
  "last (dict_keys (last_access (touch_locked later t s))) = t \<and> dict_get (last_access (touch_locked later t s)) t = Some later"
  by (simp add: touch_last dict_get_pop map_add_def)

text \<open>
  C26: A \<open>put\<close> that returns has stored the serialized checkpoint and metadata under the thread,
  namespace and id it was given, and the blob of every new channel version; the thread is now
  the most recently used, with the time of the call; unless it had expired it keeps its other
  checkpoints and all its pending writes; every other thread is untouched or gone as a whole.
\<close>

theorem put_stores:
  assumes "parent_laws P" "saver_inv s" "config_ok cfg"
    and "put P cfg now later config checkpoint metadata nv s = (Inr x, s')"
  shows "\<exists>t ns c a b parent. validated_location cfg config = Inr (t, ns) \<and> sget checkpoint ''id'' = Some (PStr c) \<and>
    dumps_typed P (PDict (checkpoint_copy checkpoint)) = Inr a \<and>
    dumps_typed P (PDict (get_checkpoint_metadata P config metadata)) = Inr b \<and>
    stored (mem_of s') (t, ns, c) = Some (a, b, parent) \<and>
    (\<forall>(channel, version) \<in> set nv.
       dict_get (blobs (mem_of s')) (t, ns, channel, version) = Some (channel_blob P checkpoint channel)) \<and>
    last (dict_keys (last_access s')) = t \<and> dict_get (last_access s') t = Some later \<and>
    (\<not> expired cfg now s t \<longrightarrow> (\<forall>ns' c'. pending (mem_of s') (t, ns', c') = pending (mem_of s) (t, ns', c') \<and>
       ((ns', c') \<noteq> (ns, c) \<longrightarrow> stored (mem_of s') (t, ns', c') = stored (mem_of s) (t, ns', c')))) \<and>
    (\<forall>u. u \<noteq> t \<longrightarrow> same_thread (mem_of s) (mem_of s') u \<or> no_thread (mem_of s') u)"
  using put_outcomes [OF assms]
proof (cases rule: put_Inr)
  case (stored_it t ns c n s1 m' e)
  note args = put_arguments_Inr [OF stored_it(2)]
  obtain a b parent where ab: "stored m' (t, ns, c) = Some (a, b, parent)"
      "dumps_typed P (PDict (checkpoint_copy checkpoint)) = Inr a"
      "dumps_typed P (PDict (get_checkpoint_metadata P config metadata)) = Inr b"
    by (rule put_effect_stored [OF stored_it(5)])
  show ?thesis
  proof (intro exI conjI)
    show "validated_location cfg config = Inr (t, ns)" "sget checkpoint ''id'' = Some (PStr c)" by (fact args)+
    show "stored (mem_of s') (t, ns, c) = Some (a, b, parent)" using ab(1) by (simp add: stored_it(1))
    show "\<forall>(channel, version) \<in> set nv.
        dict_get (blobs (mem_of s')) (t, ns, channel, version) = Some (channel_blob P checkpoint channel)"
      by (auto simp: stored_it(1) put_effectD(5) [OF stored_it(5)])
    show "last (dict_keys (last_access s')) = t" "dict_get (last_access s') t = Some later"
      using touched_last by (simp_all add: stored_it(1))
    show "\<not> expired cfg now s t \<longrightarrow> (\<forall>ns' c'. pending (mem_of s') (t, ns', c') = pending (mem_of s) (t, ns', c') \<and>
        ((ns', c') \<noteq> (ns, c) \<longrightarrow> stored (mem_of s') (t, ns', c') = stored (mem_of s) (t, ns', c')))"
      using admitted_keeps [OF assms(1,2) stored_it(4)] put_effectD(2,3) [OF stored_it(5)]
      by (auto simp: stored_it(1) same_thread_def stored_def pending_def dict_get_or_def)
    show "\<forall>u. u \<noteq> t \<longrightarrow> same_thread (mem_of s) (mem_of s') u \<or> no_thread (mem_of s') u"
      using other_thread_put [OF assms(1,2) stored_it(4,5)] by (simp add: stored_it(1))
  qed (fact ab(2,3))+
qed

lemma right_result: "\<not> isl (fst p) \<Longrightarrow> \<exists>x s'. p = (Inr x, s')"
  by (cases p; cases "fst p") auto

theorem put_stores_witness:
  "\<exists>x s'. put reference_parent small_config 1 1 (at_thread ''b'') (a_checkpoint ''c2'') [] [(''x'', PInt 1)] one_thread = (Inr x, s') \<and>
     stored (mem_of s') (''b'', [], ''c2'') \<noteq> None \<and> last (dict_keys (last_access s')) = ''b'' \<and>
     stored (mem_of s') (''a'', [], ''c1'') \<noteq> None"
proof -
  let ?run = "put reference_parent small_config 1 1 (at_thread ''b'') (a_checkpoint ''c2'') [] [(''x'', PInt 1)] one_thread"
  have "\<not> isl (fst ?run)" and a: "stored (mem_of (snd ?run)) (''a'', [], ''c1'') \<noteq> None" by code_simp+
  then obtain x s' where run: "?run = (Inr x, s')" using right_result by blast
  have "validated_location small_config (at_thread ''b'') = Inr (''b'', [])"
    "sget (a_checkpoint ''c2'') ''id'' = Some (PStr ''c2'')" by code_simp+
  then have "stored (mem_of s') (''b'', [], ''c2'') \<noteq> None \<and> last (dict_keys (last_access s')) = ''b''"
    using put_stores [OF reference_laws one_thread_inv small_config_ok run] by force
  then show ?thesis using run a by simp
qed

text \<open>
  C25: A \<open>put\<close> or \<open>put_writes\<close> that raises has stored nothing: every thread is exactly as it was
  or has been removed as a whole, and the thread the call was for is only removed when it had
  expired.
\<close>

theorem failed_write_is_atomic:
  assumes "parent_laws P" "saver_inv s" "config_ok cfg"
    and "put P cfg now later config checkpoint metadata nv s = (Inl e, s') \<or>
      put_writes P cfg now later config ws task_id task_path s = (Inl e, s')"
  shows "(\<forall>u. same_thread (mem_of s) (mem_of s') u \<or> no_thread (mem_of s') u) \<and>
    (\<forall>t ns. validated_location cfg config = Inr (t, ns) \<and> \<not> expired cfg now s t \<longrightarrow> same_thread (mem_of s) (mem_of s') t)"
proof -
  have placed: "?thesis" if "placed P cfg now t s s'" "validated_location cfg config = Inr (t, ns)" for t ns
    using placed_threads [OF assms(1,2) that(1)] that(2) by auto
  from assms(4) show ?thesis
  proof
    assume "put P cfg now later config checkpoint metadata nv s = (Inl e, s')"
    from put_outcomes [OF assms(1-3) this] show ?thesis
    proof (cases rule: put_Inl)
      case (refused t ns c n msg)
      then show ?thesis by (intro placed [OF _ put_arguments_Inr(1)])
    next
      case (failed t ns c n)
      then show ?thesis by (intro placed [OF admitted_placed put_arguments_Inr(1)])
    qed simp
  next
    assume "put_writes P cfg now later config ws task_id task_path s = (Inl e, s')"
    from put_writes_outcomes [OF assms(1-3) this] show ?thesis
    proof (cases rule: writes_Inl)
      case (refused t ns c task n msg)
      show ?thesis by (rule put_writes_arguments_Inr [OF refused(2)]) (rule placed [OF refused(3)])
    next
      case (failed t ns c task n)
      show ?thesis by (rule put_writes_arguments_Inr [OF failed(1)]) (rule placed [OF admitted_placed [OF failed(2)]])
    qed simp
  qed
qed

text \<open>A refused batch: the third checkpoint of a thread that may have two.\<close>

theorem failed_write_is_atomic_witness:
  "\<exists>s e s'. put reference_parent small_config 2 2 (at_thread ''a'') (a_checkpoint ''c3'') [] [(''x'', PInt 1)] s =
       (Inl e, s') \<and> stored (mem_of s) (''a'', [], ''c2'') \<noteq> None \<and> same_thread (mem_of s) (mem_of s') ''a''"
proof -
  let ?s = "saver_run reference_parent small_config [put_at 0 ''a'' ''c1'', put_at 1 ''a'' ''c2'']"
  let ?run = "put reference_parent small_config 2 2 (at_thread ''a'') (a_checkpoint ''c3'') [] [(''x'', PInt 1)] ?s"
  have "isl (fst ?run)" and st: "stored (mem_of ?s) (''a'', [], ''c2'') \<noteq> None" by code_simp+
  then obtain e s' where run: "?run = (Inl e, s')" by (cases ?run; cases "fst ?run") auto
  have loc: "validated_location small_config (at_thread ''a'') = Inr (''a'', [])"
    "dict_get (last_access ?s) ''a'' = Some 1" by code_simp+
  then have "\<not> expired small_config 2 ?s ''a''" by (simp add: expired_def small_config_def)
  then have "same_thread (mem_of ?s) (mem_of s') ''a''"
    using failed_write_is_atomic [OF reference_laws saver_inv_run [OF reference_laws] small_config_ok disjI1, OF run] loc
    by blast
  then show ?thesis using run st by blast
qed

end
