(* ===== verification/SaverLifecycle.thy ===== *)
theory SaverLifecycle
  imports SaverProperties
begin

text \<open>
  The life of a thread in the bounded saver: how it is admitted, expires, is evicted in the
  order of use and is deleted, what the statistics say of it, and which configurations bound it.
\<close>


section \<open>Eviction\<close>

text \<open>
  C22: Eviction follows the order of use. \<open>_make_room_for_bytes_locked\<close> removes the least
  recently used threads other than the protected one, no more of them than it takes for the
  bytes to fit, and refuses only when even removing all of them is not enough; the loop of
  \<open>_make_room_for_thread_locked\<close> removes exactly the oldest threads in excess of
  \<open>max_threads - 1\<close>.
\<close>

theorem eviction_is_lru:
  assumes "dict_wf (last_access s)" "0 < max_threads cfg"
  shows "(\<exists>k \<le> length (other_threads t s).
      snd (make_room_for_bytes_locked P cfg n t s) = drop_threads P (take k (other_threads t s)) s \<and>
      (\<forall>j < k. \<not> bytes_fit P cfg n t s j) \<and>
      (case fst (make_room_for_bytes_locked P cfg n t s) of
         Inr _ \<Rightarrow> bytes_fit P cfg n t s k
       | Inl _ \<Rightarrow> k = length (other_threads t s) \<and> \<not> bytes_fit P cfg n t s k)) \<and>
    (\<exists>k. make_room_loop P cfg s = (Inr (), drop_threads P (take k (dict_keys (last_access s))) s) \<and>
      int (length (last_access (snd (make_room_loop P cfg s)))) < max_threads cfg \<and>
      (k = 0 \<or> int (length (last_access s)) = max_threads cfg - 1 + int k))"
proof (intro conjI make_room_loop_prefix assms)
  show "\<exists>k \<le> length (other_threads t s).
      snd (make_room_for_bytes_locked P cfg n t s) = drop_threads P (take k (other_threads t s)) s \<and>
      (\<forall>j < k. \<not> bytes_fit P cfg n t s j) \<and>
      (case fst (make_room_for_bytes_locked P cfg n t s) of
         Inr _ \<Rightarrow> bytes_fit P cfg n t s k
       | Inl _ \<Rightarrow> k = length (other_threads t s) \<and> \<not> bytes_fit P cfg n t s k)"
  proof (cases rule: make_room_for_bytes_cases [OF assms(1), where P = P and cfg = cfg and n = n and t = t,
        case_names fits refused])
    case (fits k)
    then show ?thesis by (intro exI [of _ k]) simp
  next
    case refused
    then show ?thesis by (intro exI [of _ "length (other_threads t s)"]) simp
  qed
qed

theorem eviction_is_lru_witness:
  "\<exists>k \<le> 2. snd (make_room_for_bytes_locked reference_parent small_config 30 ''c''
       (saver_run reference_parent small_config [put_at 0 ''a'' ''c1'', put_at 1 ''b'' ''c1''])) =
     drop_threads reference_parent (take k [''a'', ''b''])
       (saver_run reference_parent small_config [put_at 0 ''a'' ''c1'', put_at 1 ''b'' ''c1''])"
proof -
  let ?s = "saver_run reference_parent small_config [put_at 0 ''a'' ''c1'', put_at 1 ''b'' ''c1'']"
  have others: "other_threads ''c'' ?s = [''a'', ''b'']" and wf: "dict_wf (last_access ?s)" by code_simp+
  have "length [''a'', ''b''] = 2" "0 < max_threads small_config" by code_simp+
  then show ?thesis
    using eviction_is_lru [OF wf, THEN conjunct1, of small_config "''c''" reference_parent 30]
    unfolding others by metis
qed


section \<open>Expiry and deletion\<close>

text \<open>
  \<open>purge_expired\<close> removes exactly the threads whose last use is at least
  \<open>idle_ttl_seconds\<close> ago, returns their number, and leaves every other thread alone.
\<close>

theorem purge_removes_expired:
  assumes "parent_laws P" "saver_inv s" "purge_expired P cfg now s = (r, s')"
  shows "r = Inr (int (card {t. expired cfg now s t})) \<and>
    (\<forall>t. dict_get (last_access s') t = (if expired cfg now s t then None else dict_get (last_access s) t)) \<and>
    (\<forall>t. if expired cfg now s t then no_thread (mem_of s') t \<and> (\<forall>k. key_thread k = t \<longrightarrow> dict_get (sizes s') k = None)
         else same_thread (mem_of s) (mem_of s') t)"
proof -
  let ?E = "expired_threads cfg now s"
  have E: "t \<in> set ?E \<longleftrightarrow> expired cfg now s t" for t by (rule set_expired_threads [OF saver_invD(3) [OF assms(2)]])
  have run: "r = Inr (int (length ?E))" "s' = drop_threads P ?E s"
    using assms(3) by (simp_all add: purge_expired_def purge_eq)
  have "distinct ?E"
    using saver_invD(3) [OF assms(2)] by (simp add: expired_threads_def dict_wf_def distinct_map_filter)
  then have "length ?E = card {t. expired cfg now s t}" by (simp add: distinct_card [symmetric] E [symmetric])
  moreover have "dict_get (last_access s') t = (if expired cfg now s t then None else dict_get (last_access s) t)" for t
    using dict_get_filter [of "\<lambda>u. u \<notin> set ?E" "last_access s" t]
    by (simp add: run(2) drop_threads_access E case_prod_unfold)
  moreover have "no_thread (mem_of s') t" "key_thread k = t \<Longrightarrow> dict_get (sizes s') k = None"
    if "expired cfg now s t" for t k
    using drop_threads_gone [OF assms(1) saver_invD(2) [OF assms(2)], of t ?E]
      drop_threads_ledger [of P ?E s k] that by (simp_all add: run(2) E ledger_size_def)
  moreover have "same_thread (mem_of s) (mem_of s') t" if "\<not> expired cfg now s t" for t
    using drop_threads_other [OF assms(1) saver_invD(2) [OF assms(2)], of t ?E] that by (simp add: run(2) E)
  ultimately show ?thesis using run(1) by simp
qed

theorem purge_removes_expired_witness:
  "fst (purge_expired reference_parent small_config 10 one_thread) = Inr 1 \<and>
   dict_get (last_access (snd (purge_expired reference_parent small_config 10 one_thread))) ''a'' = None"
proof -
  have "dict_get (last_access one_thread) ''a'' = Some 0" by code_simp
  then have "expired small_config 10 one_thread ''a''" by (simp add: expired_def small_config_def)
  moreover have "fst (purge_expired reference_parent small_config 10 one_thread) = Inr 1" by code_simp
  ultimately show ?thesis
    using purge_removes_expired [OF reference_laws one_thread_inv prod.collapse [symmetric], of small_config 10] by simp
qed

text \<open>
  C24: \<open>delete_thread\<close> on a valid identifier leaves no checkpoint, blob, pending write, ledger
  entry or access time of the thread, and everything else as it was; on an invalid one it
  raises and changes nothing.
\<close>

theorem delete_thread_complete:
  assumes "parent_laws P" "saver_inv s" "delete_thread P cfg v s = (r, s')"
  shows "case validated_identifier v ''thread_id'' (max_thread_id_length cfg) False of
      Inl e \<Rightarrow> r = Inl e \<and> s' = s
    | Inr t \<Rightarrow> r = Inr () \<and> no_thread (mem_of s') t \<and> \<not> dict_has (last_access s') t \<and>
        (\<forall>k. dict_get (sizes s') k = (if key_thread k = t then None else dict_get (sizes s) k)) \<and>
        (\<forall>u. u \<noteq> t \<longrightarrow> same_thread (mem_of s) (mem_of s') u \<and>
               dict_get (last_access s') u = dict_get (last_access s) u)"
proof (cases "validated_identifier v ''thread_id'' (max_thread_id_length cfg) False")
  case (Inl e)
  then show ?thesis using assms(3) by (simp add: delete_thread_def bind_op_def pure_op_def)
next
  case (Inr t)
  then have run: "r = Inr ()" "s' = delete_thread_locked P t s"
    using assms(3) by (simp_all add: delete_thread_def bind_op_def pure_op_def modify_op_def)
  note wf = saver_invD(2) [OF assms(2)]
  have "dict_get (sizes s') k = (if key_thread k = t then None else dict_get (sizes s) k)" for k
    using ledger_size_delete [of P t s k] by (simp add: run(2) ledger_size_def)
  then show ?thesis
    using no_thread_delete [OF assms(1) wf, of t] same_thread_delete [OF assms(1) wf]
    by (simp add: Inr run dict_has_pop dict_get_pop)
qed

theorem delete_thread_complete_witness:
  "\<exists>s'. delete_thread reference_parent small_config (PStr ''a'') one_thread = (Inr (), s') \<and>
     no_thread (mem_of s') ''a'' \<and> \<not> dict_has (last_access s') ''a'' \<and> serialized_bytes one_thread = 19"
proof -
  have v: "validated_identifier (PStr ''a'') ''thread_id'' (max_thread_id_length small_config) False = Inr ''a''"
    and b: "serialized_bytes one_thread = 19" by code_simp+
  obtain r s' where run: "delete_thread reference_parent small_config (PStr ''a'') one_thread = (r, s')"
    by (cases "delete_thread reference_parent small_config (PStr ''a'') one_thread")
  from delete_thread_complete [OF reference_laws one_thread_inv this] show ?thesis using run b by (simp add: v)
qed

text \<open>
  C40: A lookup for a thread that has expired finds nothing, whatever the parent class would
  have found, and leaves no trace of the thread.
\<close>

theorem expired_thread_unreadable:
  assumes "parent_laws P" "saver_inv s" "validated_location cfg config = Inr (t, ns)" "expired cfg now s t"
    and "get_tuple P cfg now later config s = (r, s')"
  shows "r = Inr None \<and> no_thread (mem_of s') t \<and> \<not> dict_has (last_access s') t"
proof -
  let ?s = "drop_threads P (expired_threads cfg now s) s"
  have t: "t \<in> set (expired_threads cfg now s)"
    using assms(4) set_expired_threads [OF saver_invD(3) [OF assms(2)]] by blast
  have gone: "no_thread (mem_of ?s) t" by (rule drop_threads_gone [OF assms(1) saver_invD(2) [OF assms(2)] t])
  then have "\<not> dict_has (storage (mem_of ?s)) t" by (simp add: no_thread_def dict_has_iff)
  then have "get_tuple P cfg now later config s = (Inr None, ?s)"
    by (simp add: get_tuple_def bind_op_def pure_op_def read_op_def ret_def assms(3) purge_eq)
  then show ?thesis using assms(5) gone t by (simp add: drop_threads_has)
qed

theorem expired_thread_unreadable_witness:
  "fst (get_tuple reference_parent small_config 10 10 (at_thread ''a'') one_thread) = Inr None \<and>
   (\<exists>x. fst (get_tuple reference_parent small_config 9 9 (at_thread ''a'') one_thread) = Inr (Some x))"
proof -
  have loc: "validated_location small_config (at_thread ''a'') = Inr (''a'', [])"
    and a: "dict_get (last_access one_thread) ''a'' = Some 0" by code_simp+
  have "expired small_config 10 one_thread ''a''" using a by (simp add: expired_def small_config_def)
  note expired_thread_unreadable [OF reference_laws one_thread_inv loc this prod.collapse [symmetric]]
  moreover have "(case fst (get_tuple reference_parent small_config 9 9 (at_thread ''a'') one_thread) of
      Inr (Some x) \<Rightarrow> True | _ \<Rightarrow> False)" by code_simp
  ultimately show ?thesis by (auto split: sum.splits option.splits)
qed



section \<open>Admission of a new thread\<close>

lemma only_absent_thread:
  assumes "saver_inv s" "\<And>u. dict_has (last_access s) u \<Longrightarrow> u = t" "no_thread (mem_of s) t"
  shows "serialized_bytes s = 0"
proof -
  have "dict_get (sizes s) k = None" for k
    using saver_invD(4,5) [OF assms(1), of k] assms(2) [of "key_thread k"] no_thread_payload [OF assms(3)]
    by (cases "payload (mem_of s) k") (auto simp: ledger_size_def)
  then have "sizes s = []" by (metis list.exhaust map_of_eq_None_iff list.set_intros(1) image_eqI list.set_map)
  then show ?thesis using saver_invD(1) [OF assms(1)] by (simp add: ledger_ok_def)
qed

lemma no_thread_namespaces: "no_thread m t \<Longrightarrow> namespaces_of m t = {}"
  by (simp add: no_thread_def namespaces_of_def dict_has_iff dict_get_or_def)

lemma placed_keeps_absent:
  assumes "parent_laws P" "saver_inv s" "placed P cfg now t s s'" "no_thread (mem_of s) u"
  shows "no_thread (mem_of s') u"
  using placed_threads [OF assms(1-3), of u] assms(4) by (auto simp: same_thread_def no_thread_def)

lemma room_for_absent_thread:
  assumes P: "parent_laws P" and s: "saver_inv s" and t: "no_thread (mem_of s) t" and n: "n \<le> max_total_bytes cfg"
  shows "\<exists>s'. make_room_for_bytes_locked P cfg n t s = (Inr (), s')"
proof (cases rule: make_room_for_bytes_cases [OF saver_invD(3) [OF s], where P = P and cfg = cfg and n = n and t = t,
        case_names fits refused])
  case refused
  let ?s = "drop_threads P (other_threads t s) s"
  have "serialized_bytes ?s = 0"
  proof (rule only_absent_thread)
    show "saver_inv ?s" by (rule saver_inv_drop [OF P s])
    show "no_thread (mem_of ?s) t" by (rule drop_threads_keeps_none [OF P saver_invD(2) [OF s] t])
    show "dict_has (last_access ?s) u \<Longrightarrow> u = t" for u
      by (simp add: drop_threads_has) (simp add: other_threads_def dict_has_def)
  qed
  then show ?thesis using refused(1) [of "length (other_threads t s)"] n by (simp add: bytes_fit_def)
qed blast

lemma admit_absent_thread:
  assumes P: "parent_laws P" and s: "saver_inv s" and cfg: "config_ok cfg"
    and t: "no_thread (mem_of s) t" and n: "n \<le> max_total_bytes cfg"
  shows "\<exists>s'. admit P cfg now t ns c n s = (Inr (), s')"
proof -
  let ?place = "bind_op (purge_expired_locked P cfg now) (\<lambda>_. make_room_for_thread_locked P cfg t)"
  obtain s1 where run: "?place s = (Inr (), s1)" and pl: "placed P cfg now t s s1"
    using wp_place [OF cfg saver_invD(3) [OF s], of P now t] by (cases "?place s") (auto simp: wp_iff)
  have "saver_inv (snd (?place s))"
    by (rule preservesD [OF preserves_bind [OF saver_inv_purge [OF P] saver_inv_make_room_for_thread [OF P]] s])
  then have s1: "saver_inv s1" by (simp add: run)
  have t1: "no_thread (mem_of s1) t" by (rule placed_keeps_absent [OF P s pl t])
  have ns: "known_namespaces_locked t s1 = {}" by (simp add: known_namespaces_eq no_thread_namespaces [OF t1])
  have cs: "known_checkpoints_locked t s1 = {}"
    by (simp add: known_checkpoints_eq saver_invD(2) [OF s1] no_thread_checkpoints [OF t1])
  have pos: "0 < max_namespaces_per_thread cfg" "0 < max_checkpoints_per_thread cfg"
    using cfg by (simp_all add: config_ok_def)
  have "admit P cfg now t ns c n s = make_room_for_bytes_locked P cfg n t s1"
    using pos by (simp add: admit_alt bind_op_def [of ?place] run)
      (simp add: bind_op_def read_op_def raise_if_def ret_def ns cs)
  then show ?thesis using room_for_absent_thread [OF P s1 t1 n] by simp
qed

text \<open>
  C23: A thread the saver holds nothing of is always admitted: when its first checkpoint passes
  validation, \<open>put\<close> does not fail for lack of capacity, however full the saver is. It makes
  room, calls the parent's \<open>put\<close>, and fails only if that fails.
\<close>

theorem new_thread_never_refused:
  assumes "parent_laws P" "saver_inv s" "make_checkpoint_config a = Inr cfg"
    and "put_arguments P cfg config checkpoint metadata nv = Inr (t, ns, c, n)" "no_thread (mem_of s) t"
  shows "\<exists>s1. admit P cfg now t ns c n s = (Inr (), s1) \<and>
    isl (fst (put P cfg now later config checkpoint metadata nv s)) =
      isl (fst (super_put P config checkpoint metadata nv (mem_of s1)))"
proof -
  have cfg: "config_ok cfg" by (rule config_ok_make [OF assms(3)])
  have n: "n \<le> max_total_bytes cfg"
    using put_arguments_Inr(5) [OF assms(4)] cfg by (simp add: config_ok_def)
  obtain s1 where run: "admit P cfg now t ns c n s = (Inr (), s1)"
    using admit_absent_thread [OF assms(1,2) cfg assms(5) n] by blast
  have s1: "saver_inv s1" using preservesD [OF saver_inv_admit [OF assms(1)] assms(2), of cfg now t ns c n] by (simp add: run)
  have law: "wp (super_put P config checkpoint metadata nv)
      (\<lambda>r m'. case r of Inl _ \<Rightarrow> m' = mem_of s1 | Inr _ \<Rightarrow> put_effect P config checkpoint metadata nv t ns c (mem_of s1) m') (mem_of s1)"
    by (rule put_law [OF assms(1) saver_invD(2) [OF s1] assms(4)])
  obtain r m' where p: "super_put P config checkpoint metadata nv (mem_of s1) = (r, m')"
    by (cases "super_put P config checkpoint metadata nv (mem_of s1)")
  have "isl (fst (put P cfg now later config checkpoint metadata nv s)) = isl r"
  proof (cases r)
    case (Inr x)
    then obtain e where "stored m' (t, ns, c) = Some e"
      using law put_effect_stored unfolding wp_iff p by (metis fst_conv snd_conv sum.simps(6))
    then show ?thesis
      by (simp add: put_def bind_op_def pure_op_def assms(4) run on_mem_def p Inr record_checkpoint_sizes_locked_def
          modify_op_def ret_def)
  qed (simp add: put_def bind_op_def pure_op_def assms(4) run on_mem_def p)
  then show ?thesis using run p by auto
qed

theorem new_thread_never_refused_witness:
  "\<exists>s1. admit reference_parent small_config 2 ''c'' [] ''c1'' 19
     (saver_run reference_parent small_config [put_at 0 ''a'' ''c1'', put_at 1 ''b'' ''c1'']) = (Inr (), s1)"
proof -
  let ?s = "saver_run reference_parent small_config [put_at 0 ''a'' ''c1'', put_at 1 ''b'' ''c1'']"
  have args: "put_arguments reference_parent small_config (at_thread ''c'') (a_checkpoint ''c1'') [] [(''x'', PInt 1)] =
      Inr (''c'', [], ''c1'', 19)" by code_simp
  have "dict_get (storage (mem_of ?s)) ''c'' = None" "writes (mem_of ?s) = []"
    "filter (\<lambda>(k, _). fst k = ''c'') (blobs (mem_of ?s)) = []" by code_simp+
  moreover from this(3) have "dict_get (blobs (mem_of ?s)) (''c'', ns, ch, v) = None" for ns ch v
    by (auto simp: filter_empty_conv map_of_eq_None_iff)
  ultimately have "no_thread (mem_of ?s) ''c''" by (simp add: no_thread_def)
  from new_thread_never_refused [OF reference_laws saver_inv_run [OF reference_laws] make_small_config args this]
  show ?thesis by blast
qed


section \<open>Statistics\<close>

lemma card_dict_keys: "dict_wf d \<Longrightarrow> card {k. dict_get d k \<noteq> None} = length d"
proof -
  assume "dict_wf d"
  then have "card (set (dict_keys d)) = length d" by (metis dict_wf_def distinct_card length_map)
  moreover have "{k. dict_get d k \<noteq> None} = set (dict_keys d)" by (auto simp: map_of_eq_None_iff)
  ultimately show ?thesis by simp
qed

lemma finite_dict_keys: "finite {k. dict_get d k \<noteq> None}"
proof -
  have "{k. dict_get d k \<noteq> None} = set (dict_keys d)" by (auto simp: map_of_eq_None_iff)
  then show ?thesis by simp
qed

text \<open>Counting the keys of a dictionary of dictionaries.\<close>

lemma card_nested_keys:
  assumes "dict_wf d" "\<forall>(k, x) \<in> set d. finite (A x) \<and> int (card (A x)) = f x"
  shows "finite {(k, y). \<exists>x. dict_get d k = Some x \<and> y \<in> A x} \<and>
    int (card {(k, y). \<exists>x. dict_get d k = Some x \<and> y \<in> A x}) = sum_list (map (\<lambda>(_, x). f x) d)"
  using assms
proof (induction d)
  case (Cons p d)
  obtain k0 x0 where p: "p = (k0, x0)" by (cases p)
  let ?S = "\<lambda>d. {(k, y). \<exists>x. dict_get d k = Some x \<and> y \<in> A x}"
  have wf: "dict_wf d" and new: "dict_get d k0 = None"
    using Cons.prems(1) by (simp_all add: dict_wf_def p map_of_eq_None_iff)
  then have IH: "finite (?S d)" "int (card (?S d)) = sum_list (map (\<lambda>(_, x). f x) d)"
    using Cons.IH Cons.prems(2) by simp_all
  have x0: "finite (A x0)" "int (card (A x0)) = f x0" using Cons.prems(2) by (simp_all add: p)
  have split: "?S (p # d) = Pair k0 ` A x0 \<union> ?S d" using new by (auto simp: p split: if_splits)
  have disj: "Pair k0 ` A x0 \<inter> ?S d = {}" using new by auto
  have "card (Pair k0 ` A x0) = card (A x0)" by (simp add: card_image inj_on_def)
  then have "int (card (?S (p # d))) = f x0 + int (card (?S d))"
    unfolding split using card_Un_disjoint [OF _ IH(1) disj] x0 by simp
  then show ?case using IH x0 split by (simp add: p)
qed simp

lemma namespace_checkpoints_card:
  assumes "mem_wf m" "(t, nss) \<in> set (storage m)"
  shows "finite {(ns, c). \<exists>cs. dict_get nss ns = Some cs \<and> c \<in> {c. dict_get cs c \<noteq> None}} \<and>
    int (card {(ns, c). \<exists>cs. dict_get nss ns = Some cs \<and> c \<in> {c. dict_get cs c \<noteq> None}}) =
      sum_list (map (\<lambda>(_, cs). int (length cs)) nss)"
proof (rule card_nested_keys)
  have wf: "dict_wf nss \<and> (\<forall>(ns, checkpoints) \<in> set nss. dict_wf checkpoints)"
    using assms by (auto simp: mem_wf_def)
  then show "dict_wf nss" by simp
  show "\<forall>(ns, cs) \<in> set nss. finite {c. dict_get cs c \<noteq> None} \<and> int (card {c. dict_get cs c \<noteq> None}) = int (length cs)"
  proof (clarify, intro conjI)
    fix ns cs assume "(ns, cs) \<in> set nss"
    then have "dict_wf cs" using wf by blast
    then show "int (card {c. dict_get cs c \<noteq> None}) = int (length cs)" by (simp only: card_dict_keys)
  qed (rule finite_dict_keys)
qed

lemma sum_list_concat: "sum_list (concat xss) = sum_list (map sum_list xss)" for xss :: "int list list"
  by (induction xss) simp_all

lemma checkpoint_count_card:
  assumes "mem_wf m"
  shows "checkpoint_count m = int (card {k. stored m k \<noteq> None})"
proof -
  let ?A = "\<lambda>nss. {(ns, c). \<exists>cs. dict_get nss ns = Some cs \<and> c \<in> {c. dict_get cs c \<noteq> None}}"
  have "dict_wf (storage m)" using assms by (simp add: mem_wf_def)
  moreover have "\<forall>(t, nss) \<in> set (storage m). finite (?A nss) \<and>
      int (card (?A nss)) = sum_list (map (\<lambda>(_, cs). int (length cs)) nss)"
    using namespace_checkpoints_card [OF assms] by blast
  ultimately have "int (card {(t, y). \<exists>nss. dict_get (storage m) t = Some nss \<and> y \<in> ?A nss}) =
      sum_list (map (\<lambda>(_, nss). sum_list (map (\<lambda>(_, cs). int (length cs)) nss)) (storage m))"
    by (rule card_nested_keys [THEN conjunct2])
  also have "\<dots> = checkpoint_count m"
    by (simp add: checkpoint_count_def sum_list_concat case_prod_unfold comp_def)
  also have "{(t, y). \<exists>nss. dict_get (storage m) t = Some nss \<and> y \<in> ?A nss} = {k. stored m k \<noteq> None}"
    by (auto simp: stored_def split: option.splits)
  finally show ?thesis by simp
qed

lemma pending_write_count_card:
  assumes "mem_wf m"
  shows "pending_write_count m = int (card {(k, i). dict_get (pending m k) i \<noteq> None})"
proof -
  let ?A = "\<lambda>d. {i. dict_get d i \<noteq> None}"
  have "dict_wf (writes m)" using assms by (simp add: mem_wf_def)
  moreover have "\<forall>(k, d) \<in> set (writes m). finite (?A d) \<and> int (card (?A d)) = int (length d)"
  proof (clarify, intro conjI)
    fix t ns c d assume "((t, ns, c), d) \<in> set (writes m)"
    then have "dict_wf d" using assms by (auto simp: mem_wf_def)
    then show "int (card (?A d)) = int (length d)" by (simp only: card_dict_keys)
  qed (rule finite_dict_keys)
  ultimately have "int (card {(k, i). \<exists>d. dict_get (writes m) k = Some d \<and> i \<in> ?A d}) =
      sum_list (map (\<lambda>(_, d). int (length d)) (writes m))"
    by (rule card_nested_keys [THEN conjunct2])
  moreover have "{(k, i). \<exists>d. dict_get (writes m) k = Some d \<and> i \<in> ?A d} = {(k, i). dict_get (pending m k) i \<noteq> None}"
    by (auto simp: pending_def dict_get_or_def split: option.splits)
  ultimately show ?thesis by (simp add: pending_write_count_def)
qed

text \<open>
  \<open>stats\<close> is exact: after dropping the expired threads it returns the number of threads
  that remain in the access order, of stored checkpoints, of pending writes, and the sum of the
  ledger.
\<close>

theorem stats_exact:
  assumes "parent_laws P" "saver_inv s" "stats P cfg now s = (r, s')"
  shows "r = Inr \<lparr>stat_threads = int (card {t. dict_has (last_access s') t}),
      stat_checkpoints = int (card {k. stored (mem_of s') k \<noteq> None}),
      stat_pending_writes = int (card {(k, i). dict_get (pending (mem_of s') k) i \<noteq> None}),
      stat_serialized_bytes = dict_sum (sizes s')\<rparr> \<and>
    {t. dict_has (last_access s') t} = {t. dict_has (last_access s) t \<and> \<not> expired cfg now s t}"
proof -
  let ?E = "expired_threads cfg now s"
  have s': "s' = drop_threads P ?E s" and r: "r = Inr \<lparr>stat_threads = int (length (last_access s')),
      stat_checkpoints = checkpoint_count (mem_of s'), stat_pending_writes = pending_write_count (mem_of s'),
      stat_serialized_bytes = serialized_bytes s'\<rparr>"
    using assms(3) by (auto simp: stats_def bind_op_def purge_eq read_op_def)
  have inv: "saver_inv s'" unfolding s' by (rule saver_inv_drop [OF assms(1,2)])
  have "card {t. dict_has (last_access s') t} = length (last_access s')"
    using card_dict_keys [OF saver_invD(3) [OF inv]] by (simp only: dict_has_iff)
  moreover have "{t. dict_has (last_access s') t} = {t. dict_has (last_access s) t \<and> \<not> expired cfg now s t}"
    using set_expired_threads [OF saver_invD(3) [OF assms(2)]] by (auto simp: s' drop_threads_has)
  ultimately show ?thesis
    using checkpoint_count_card [OF saver_invD(2) [OF inv]] pending_write_count_card [OF saver_invD(2) [OF inv]]
      saver_invD(1) [OF inv] by (simp add: r ledger_ok_def)
qed

theorem stats_exact_witness:
  "\<exists>x. fst (stats reference_parent small_config 5 (saver_run reference_parent small_config
       [put_at 0 ''a'' ''c1'', put_at 1 ''a'' ''c2''])) = Inr x \<and>
     stat_checkpoints x = 2 \<and> stat_serialized_bytes x = 33 \<and>
     int (card {k. stored (mem_of (snd (stats reference_parent small_config 5 (saver_run reference_parent small_config
       [put_at 0 ''a'' ''c1'', put_at 1 ''a'' ''c2''])))) k \<noteq> None}) = 2"
proof -
  let ?s = "saver_run reference_parent small_config [put_at 0 ''a'' ''c1'', put_at 1 ''a'' ''c2'']"
  let ?run = "stats reference_parent small_config 5 ?s"
  have "\<not> isl (fst ?run)" and c: "stat_checkpoints (projr (fst ?run)) = 2" "stat_serialized_bytes (projr (fst ?run)) = 33"
    by code_simp+
  then obtain x s' where run: "?run = (Inr x, s')" using right_result by blast
  from stats_exact [OF reference_laws saver_inv_run [OF reference_laws] this] show ?thesis using run c by simp
qed


section \<open>Configuration\<close>

text \<open>
  \<open>InMemoryCheckpointConfig\<close> accepts exactly the arguments whose time to live is a finite
  number above zero, whose other fields are integers above zero (no \<open>bool\<close>), and whose byte
  limits per operation do not exceed the total; it stores what it was given.
\<close>

theorem config_validation:
  "make_checkpoint_config a = Inr c \<longleftrightarrow>
     positive_number (arg_idle_ttl_seconds a) = Some (idle_ttl_seconds c) \<and>
     a = (args_of_config c)\<lparr>arg_idle_ttl_seconds := arg_idle_ttl_seconds a\<rparr> \<and> config_ok c"
proof
  assume m: "make_checkpoint_config a = Inr c"
  then have "positive_number (arg_idle_ttl_seconds a) = Some (idle_ttl_seconds c) \<and>
      a = (args_of_config c)\<lparr>arg_idle_ttl_seconds := arg_idle_ttl_seconds a\<rparr>"
    by (cases a) (auto simp: make_checkpoint_config_def positive_integer_fields_def args_of_config_def Let_def
        bind_sum_eq_Inr check_positive_fields_iff Cons_eq_map_conv positive_int_iff split: option.splits if_splits)
  then show "positive_number (arg_idle_ttl_seconds a) = Some (idle_ttl_seconds c) \<and>
      a = (args_of_config c)\<lparr>arg_idle_ttl_seconds := arg_idle_ttl_seconds a\<rparr> \<and> config_ok c"
    using config_ok_make [OF m] by simp
next
  assume r: "positive_number (arg_idle_ttl_seconds a) = Some (idle_ttl_seconds c) \<and>
      a = (args_of_config c)\<lparr>arg_idle_ttl_seconds := arg_idle_ttl_seconds a\<rparr> \<and> config_ok c"
  then obtain v where a: "a = (args_of_config c)\<lparr>arg_idle_ttl_seconds := v\<rparr>"
    and v: "positive_number v = Some (idle_ttl_seconds c)" by auto
  show "make_checkpoint_config a = Inr c"
    using r v unfolding a
    by (simp add: make_checkpoint_config_def positive_integer_fields_def args_of_config_def config_ok_def Let_def)
qed

end
