(* ===== verification/ServerConfig.thy ===== *)
theory ServerConfig
  imports Streaming SaverLifecycle
begin

text \<open>
  \<open>config.py\<close> and \<open>dependencies.py\<close>: the assistants a server exposes, the graphs it builds for
  them, and how a request finds its configuration. A graph factory is a parameter of the
  assistant; whether a checkpoint saver is configured is its argument.
\<close>


section \<open>Assistants\<close>

fun check_identifiers :: "(string \<times> string) list \<Rightarrow> exc + unit" where
  "check_identifiers [] = Inr ()"
| "check_identifiers ((field_name, v) # rest) =
     (if v = [] then Inl (ValueError (field_name @ '' must not be empty''))
      else if length v > 256 then Inl (ValueError (field_name @ '' exceeds its maximum length''))
      else if \<not> isprintable v then Inl (ValueError (field_name @ '' must contain only printable characters''))
      else check_identifiers rest)"

text \<open>\<open>AssistantConfig(...)\<close>: the fields as given, after \<open>__post_init__\<close>.\<close>

definition make_assistant :: "'w assistant_config \<Rightarrow> exc + 'w assistant_config" where
  "make_assistant a =
     bind_sum (check_identifiers [(''assistant_id'', ac_assistant_id a), (''graph_id'', ac_graph_id a)]) (\<lambda>_. Inr a)"

definition create_graph :: "'w assistant_config \<Rightarrow> bool \<Rightarrow> exc + 'w graph_ops" where
  "create_graph a has_checkpointer =
     bind_sum (ac_factory a has_checkpointer) (\<lambda>graph.
       if g_ainvoke graph = None then Inl (TypeError ''checkpointed_graph_factory must return an async graph'')
       else if g_astream graph = None then Inl (TypeError ''checkpointed_graph_factory must return a streaming graph'')
       else Inr graph)"


section \<open>The server's configuration\<close>

record 'w server_args =
  sa_assistants :: "(string, 'w assistant_config) dict"
  sa_checkpointer :: "'w checkpointer_ops option"
  sa_request_authorizer :: "(pyval \<Rightarrow> ('w, exc, unit) op) option"
  sa_thread_store :: "'w store_ops"
  sa_max_concurrent_runs :: pyval
  sa_run_timeout_seconds :: pyval

text \<open>\<open>LangGraphServerConfig\<close>; its \<open>run_coordinator\<close> is mutable and lives in the server's state.\<close>

record 'w server_config =
  cfg_assistants :: "(string, 'w assistant_config) dict"
  cfg_checkpointer :: "'w checkpointer_ops option"
  cfg_request_authorizer :: "(pyval \<Rightarrow> ('w, exc, unit) op) option"
  cfg_thread_store :: "'w store_ops"
  cfg_run_timeout_seconds :: "rat option"
  cfg_graphs :: "(string, 'w graph_ops) dict"

definition run_timeout :: "pyval \<Rightarrow> exc + rat option" where
  "run_timeout v =
     (if v = PNone then Inr None
      else case positive_number v of
             None \<Rightarrow> Inl (ValueError ''run_timeout_seconds must be a finite number above zero'')
           | Some q \<Rightarrow> Inr (Some q))"

fun check_registry :: "(string, 'w assistant_config) dict \<Rightarrow> exc + unit" where
  "check_registry [] = Inr ()"
| "check_registry ((assistant_id, a) # rest) =
     (if assistant_id \<noteq> ac_assistant_id a
      then Inl (ValueError ''assistant registry key must match AssistantConfig.assistant_id'')
      else check_registry rest)"

fun create_graphs :: "bool \<Rightarrow> (string, 'w assistant_config) dict \<Rightarrow> exc + (string, 'w graph_ops) dict" where
  "create_graphs has_checkpointer [] = Inr []"
| "create_graphs has_checkpointer ((assistant_id, a) # rest) =
     bind_sum (create_graph a has_checkpointer) (\<lambda>graph.
     bind_sum (create_graphs has_checkpointer rest) (\<lambda>graphs.
       Inr ((assistant_id, graph) # graphs)))"

definition make_server_config :: "'w server_args \<Rightarrow> exc + 'w server_config \<times> coordinator" where
  "make_server_config args =
     (case positive_int (sa_max_concurrent_runs args) of
        None \<Rightarrow> Inl (ValueError ''max_concurrent_runs must be an integer greater than zero'')
      | Some runs \<Rightarrow>
          bind_sum (run_timeout (sa_run_timeout_seconds args)) (\<lambda>seconds.
          bind_sum (check_registry (sa_assistants args)) (\<lambda>_.
          bind_sum (create_graphs (sa_checkpointer args \<noteq> None) (sa_assistants args)) (\<lambda>graphs.
          bind_sum (make_coordinator (Inr runs)) (\<lambda>c.
            Inr (\<lparr>cfg_assistants = sa_assistants args, cfg_checkpointer = sa_checkpointer args,
                  cfg_request_authorizer = sa_request_authorizer args, cfg_thread_store = sa_thread_store args,
                  cfg_run_timeout_seconds = seconds, cfg_graphs = graphs\<rparr>, c))))))"

definition get_assistant :: "'w server_config \<Rightarrow> string \<Rightarrow> 'w assistant_config option" where
  "get_assistant cfg assistant_id = dict_get (cfg_assistants cfg) assistant_id"

definition get_graph_runtime :: "'w server_config \<Rightarrow> string \<Rightarrow> exc + 'w graph_ops" where
  "get_graph_runtime cfg assistant_id =
     (case dict_get (cfg_graphs cfg) assistant_id of
        None \<Rightarrow> Inl (LookupError (''Assistant '' @ assistant_id @ '' is not configured''))
      | Some graph \<Rightarrow> Inr graph)"


section \<open>The standalone application's configuration\<close>

record 'w standalone_args =
  st_title :: string
  st_description :: string
  st_version :: string
  st_debug :: bool
  st_cors_origins :: "string list"
  st_server :: "'w server_args"
  st_max_request_body_bytes :: pyval

definition make_standalone_config :: "'w standalone_args \<Rightarrow> exc + 'w standalone_args" where
  "make_standalone_config s =
     (if st_max_request_body_bytes s \<noteq> PNone \<and> positive_int (st_max_request_body_bytes s) = None
      then Inl (ValueError ''max_request_body_bytes must be an integer greater than zero'')
      else Inr s)"

definition to_server_config :: "'w standalone_args \<Rightarrow> exc + 'w server_config \<times> coordinator" where
  "to_server_config s = make_server_config (st_server s)"


section \<open>Dependencies of the routes\<close>

text \<open>An attribute of a request's or an application's state: missing or \<open>None\<close>, a configuration, something else.\<close>

datatype 'a slot = EmptySlot | OtherSlot | ConfigSlot 'a

definition get_server_config :: "'a slot \<Rightarrow> 'a slot \<Rightarrow> exc + 'a" where
  "get_server_config request_state app_state =
     (case (case request_state of EmptySlot \<Rightarrow> app_state | _ \<Rightarrow> request_state) of
        ConfigSlot c \<Rightarrow> Inr c
      | _ \<Rightarrow> Inl (RuntimeError ''LangGraph server config is not initialized''))"

definition get_checkpointer :: "'w server_config \<Rightarrow> 'w checkpointer_ops option" where
  "get_checkpointer cfg = cfg_checkpointer cfg"

definition get_thread_store :: "'w server_config \<Rightarrow> 'w store_ops" where
  "get_thread_store cfg = cfg_thread_store cfg"

definition authorize_request :: "'w server_config \<Rightarrow> pyval \<Rightarrow> ('w, exc, unit) op" where
  "authorize_request cfg request =
     (case cfg_request_authorizer cfg of None \<Rightarrow> ret () | Some authorizer \<Rightarrow> authorizer request)"

definition get_assistant_config :: "'w server_config \<Rightarrow> string \<Rightarrow> exc + 'w assistant_config" where
  "get_assistant_config cfg assistant_id =
     (case get_assistant cfg assistant_id of
        None \<Rightarrow> Inl (HTTPException 404 (''Assistant '' @ assistant_id @ '' not found''))
      | Some a \<Rightarrow> Inr a)"


section \<open>Facts\<close>

lemma check_identifiers_Inr:
  "check_identifiers fs = Inr () \<longleftrightarrow> list_all (\<lambda>(_, v). valid_identifier 256 False v) fs"
  by (induction fs) (auto simp: valid_identifier_def split: if_splits)

lemma make_assistant_iff:
  "make_assistant a = Inr b \<longleftrightarrow>
     b = a \<and> valid_identifier 256 False (ac_assistant_id a) \<and> valid_identifier 256 False (ac_graph_id a)"
  using check_identifiers_Inr [of "[(''assistant_id'', ac_assistant_id a), (''graph_id'', ac_graph_id a)]"]
  unfolding make_assistant_def bind_sum_eq_Inr by (simp del: check_identifiers.simps) blast

lemma create_graph_Inr:
  "create_graph a b = Inr g \<longleftrightarrow> ac_factory a b = Inr g \<and> g_ainvoke g \<noteq> None \<and> g_astream g \<noteq> None"
  by (auto simp: create_graph_def bind_sum_eq_Inr)

lemma check_registry_Inr: "check_registry d = Inr u \<longleftrightarrow> list_all (\<lambda>(k, a). k = ac_assistant_id a) d"
  by (induction d) (auto split: if_splits)

lemma create_graphs_Inr:
  "create_graphs b d = Inr gs \<longleftrightarrow> list_all2 (\<lambda>(k, a) (k', g). k' = k \<and> create_graph a b = Inr g) d gs"
  by (induction d arbitrary: gs) (auto simp: bind_sum_eq_Inr list_all2_Cons1)

lemma create_graphs_lookup:
  assumes "create_graphs b d = Inr gs"
  shows "(case dict_get d k of None \<Rightarrow> dict_get gs k = None
     | Some a \<Rightarrow> \<exists>g. dict_get gs k = Some g \<and> create_graph a b = Inr g)"
  using assms unfolding create_graphs_Inr by (induction d gs rule: list_all2_induct) (auto split: option.splits)

lemma create_graphs_fails: "isl (create_graphs b d) \<longleftrightarrow> (\<exists>(k, a) \<in> set d. isl (create_graph a b))"
proof (induction d)
  case (Cons p d)
  then show ?case
    by (cases p; cases "create_graph (snd p) b"; cases "create_graphs b d") auto
qed simp

text \<open>The configuration a route may rely on: what \<open>make_server_config\<close> guarantees.\<close>

definition config_consistent :: "'w server_config \<Rightarrow> bool" where
  "config_consistent cfg \<longleftrightarrow>
     (\<forall>k. case get_assistant cfg k of
            None \<Rightarrow> dict_get (cfg_graphs cfg) k = None
          | Some a \<Rightarrow> ac_assistant_id a = k \<and>
              (\<exists>g. get_graph_runtime cfg k = Inr g \<and> g_ainvoke g \<noteq> None \<and> g_astream g \<noteq> None))"

lemma make_server_config_Inr:
  assumes "make_server_config args = Inr (cfg, c)"
  obtains runs seconds graphs where "positive_int (sa_max_concurrent_runs args) = Some runs"
    "run_timeout (sa_run_timeout_seconds args) = Inr seconds" "check_registry (sa_assistants args) = Inr ()"
    "create_graphs (sa_checkpointer args \<noteq> None) (sa_assistants args) = Inr graphs"
    "make_coordinator (Inr runs) = Inr c"
    "cfg = \<lparr>cfg_assistants = sa_assistants args, cfg_checkpointer = sa_checkpointer args,
                  cfg_request_authorizer = sa_request_authorizer args, cfg_thread_store = sa_thread_store args,
                  cfg_run_timeout_seconds = seconds, cfg_graphs = graphs\<rparr>"
  using assms unfolding make_server_config_def
  by (auto simp: bind_sum_eq_Inr split: option.splits)


lemma make_server_config_consistent:
  assumes "make_server_config args = Inr (cfg, c)"
  shows "config_consistent cfg"
  unfolding config_consistent_def
proof
  fix k
  obtain runs seconds graphs where g: "check_registry (sa_assistants args) = Inr ()"
      "create_graphs (sa_checkpointer args \<noteq> None) (sa_assistants args) = Inr graphs"
    and cfg: "cfg_assistants cfg = sa_assistants args" "cfg_graphs cfg = graphs"
    by (rule make_server_config_Inr [OF assms]) simp
  show "case get_assistant cfg k of
          None \<Rightarrow> dict_get (cfg_graphs cfg) k = None
        | Some a \<Rightarrow> ac_assistant_id a = k \<and>
            (\<exists>g. get_graph_runtime cfg k = Inr g \<and> g_ainvoke g \<noteq> None \<and> g_astream g \<noteq> None)"
  proof (cases "dict_get (sa_assistants args) k")
    case None
    then show ?thesis using create_graphs_lookup [OF g(2), of k] by (simp add: get_assistant_def cfg)
  next
    case (Some a)
    have "ac_assistant_id a = k"
      using g(1) map_of_SomeD [OF Some] by (auto simp: check_registry_Inr list_all_iff)
    then show ?thesis
      using create_graphs_lookup [OF g(2), of k] Some
      by (auto simp: get_assistant_def get_graph_runtime_def cfg create_graph_Inr)
  qed
qed

lemma make_server_config_fails:
  "isl (make_server_config args) \<longleftrightarrow>
     positive_int (sa_max_concurrent_runs args) = None \<or>
     (sa_run_timeout_seconds args \<noteq> PNone \<and> positive_number (sa_run_timeout_seconds args) = None) \<or>
     (\<exists>(k, a) \<in> set (sa_assistants args). k \<noteq> ac_assistant_id a) \<or>
     (\<exists>(k, a) \<in> set (sa_assistants args). isl (create_graph a (sa_checkpointer args \<noteq> None)))"
proof -
  let ?p = "sa_checkpointer args \<noteq> None"
  have t: "isl (run_timeout v) \<longleftrightarrow> v \<noteq> PNone \<and> positive_number v = None" for v
    by (simp add: run_timeout_def split: option.split)
  have r: "isl (check_registry d) \<longleftrightarrow> (\<exists>(k, a) \<in> set d. k \<noteq> ac_assistant_id a)" for d :: "(string, 'a assistant_config) dict"
    by (induction d) auto
  have c: "\<not> isl (make_coordinator (Inr n))" if "positive_int v = Some n" for v n
    using that by (cases v) (auto simp: make_coordinator_def split: if_splits)
  show ?thesis
    unfolding t [symmetric] r [symmetric] create_graphs_fails [symmetric]
    using c [of "sa_max_concurrent_runs args"]
    by (cases "positive_int (sa_max_concurrent_runs args)"; cases "run_timeout (sa_run_timeout_seconds args)";
        cases "check_registry (sa_assistants args)"; cases "create_graphs ?p (sa_assistants args)")
      (auto simp: make_server_config_def bind_sum_def isl_def split: sum.split)
qed

lemma server_config_facts:
  assumes "make_server_config args = Inr (cfg, c)"
  shows "config_consistent cfg" "coordinator_ok c"
proof -
  show "config_consistent cfg" by (rule make_server_config_consistent [OF assms])
  obtain runs where "make_coordinator (Inr runs) = Inr c" by (rule make_server_config_Inr [OF assms]) simp
  then show "coordinator_ok c" by (simp add: make_coordinator_ok)
qed


section \<open>Properties\<close>



text \<open>The server of the examples: one assistant on the default store and a small bounded saver.\<close>

definition demo_limits :: checkpoint_config where
  "demo_limits = small_config\<lparr>max_thread_id_length := 256, max_checkpoint_namespace_length := 256\<rparr>"

definition demo_args :: "list_cache environment server_args" where
  "demo_args =
     \<lparr>sa_assistants = [(''agent'', demo_assistant)],
      sa_checkpointer = Some (bounded_saver_ops reference_parent demo_limits), sa_request_authorizer = None,
      sa_thread_store = memory_store_ops list_libs, sa_max_concurrent_runs = PInt 2, sa_run_timeout_seconds = PNone\<rparr>"

definition demo_config :: "list_cache environment server_config" where
  "demo_config =
     \<lparr>cfg_assistants = [(''agent'', demo_assistant)],
      cfg_checkpointer = Some (bounded_saver_ops reference_parent demo_limits), cfg_request_authorizer = None,
      cfg_thread_store = memory_store_ops list_libs, cfg_run_timeout_seconds = None,
      cfg_graphs = [(''agent'', demo_graph)]\<rparr>"

lemma demo_config_made:
  "make_server_config demo_args = Inr (demo_config, \<lparr>max_concurrent_runs = 2, active = [], next_token = 0\<rparr>)"
  by (simp add: make_server_config_def demo_args_def demo_config_def run_timeout_def demo_assistant_def create_graph_def
      demo_graph_def make_coordinator_def)


end
