(* ===== verification/ThreadRoutes.thy ===== *)
theory ThreadRoutes
  imports ServerConfig
begin

text \<open>
  \<open>routes/threads.py\<close>. A helper works on the environment of the thread store and the checkpoint
  saver; a handler that takes a lease works on the server's state. What a request brings with
  it from the outside (random tokens, UUIDs, the time, whether a deadline has passed) is an
  argument, and so are the standard library's \<open>datetime.fromisoformat\<close> and pydantic's
  \<open>model_dump\<close>. Handlers run after the dependencies of \<open>dependencies.py\<close>, here \<open>endpoint\<close>.
\<close>


section \<open>Requests\<close>

record route_libs =
  rl_text :: text_libs
  rl_fromisoformat :: "string \<Rightarrow> datetime option"
  rl_model_dump :: "config_model \<Rightarrow> pydict"

record request_inputs =
  rq_token :: string
  rq_uuid :: "nat \<Rightarrow> string"
  rq_now :: "nat \<Rightarrow> datetime"
  rq_now_iso :: string

text \<open>The dependencies run before the handler, in the order configuration, authorization.\<close>

definition endpoint ::
  "'w server_config slot \<Rightarrow> 'w server_config slot \<Rightarrow> pyval \<Rightarrow> ('w server_config \<Rightarrow> ('w server, exc, 'a) op) \<Rightarrow>
     ('w server, exc, 'a) op" where
  "endpoint request_state app_state request handler =
     bind_op (pure_op (get_server_config request_state app_state)) (\<lambda>cfg.
     bind_op (on_env (authorize_request cfg request)) (\<lambda>_. handler cfg))"


section \<open>Threads from checkpoints\<close>

definition require_checkpointer :: "'w checkpointer_ops option \<Rightarrow> exc + 'w checkpointer_ops" where
  "require_checkpointer C =
     (case C of None \<Rightarrow> Inl (HTTPException 501 ''Checkpoint persistence is not configured'') | Some c \<Rightarrow> Inr c)"

definition replace_z :: "string \<Rightarrow> string" where
  "replace_z s = concat (map (\<lambda>c. if c = CHR ''Z'' then ''+00:00'' else [c]) s)"

definition parse_timestamp :: "route_libs \<Rightarrow> datetime \<Rightarrow> pyval \<Rightarrow> datetime" where
  "parse_timestamp R now v =
     (case v of
        PStr s \<Rightarrow> (case rl_fromisoformat R (replace_z s) of None \<Rightarrow> now | Some d \<Rightarrow> d)
      | _ \<Rightarrow> now)"

text \<open>\<open>dict(v)\<close> of a mapping or of a sequence of pairs.\<close>

fun as_pair :: "pyval \<Rightarrow> (pyval \<times> pyval) option" where
  "as_pair (PTuple [k, v]) = Some (k, v)"
| "as_pair (PList [k, v]) = Some (k, v)"
| "as_pair (PStr [k, v]) = Some (PStr [k], PStr [v])"
| "as_pair _ = None"

fun pairs_dict :: "pyval list \<Rightarrow> pydict \<Rightarrow> exc + pydict" where
  "pairs_dict [] d = Inr d"
| "pairs_dict (x # xs) d =
     (case as_pair x of
        None \<Rightarrow> Inl (TypeError ''cannot convert dictionary update sequence element'')
      | Some (k, v) \<Rightarrow> pairs_dict xs (dict_set d k v))"

definition py_dict :: "pyval \<Rightarrow> exc + pydict" where
  "py_dict v =
     (case v of
        PDict d \<Rightarrow> Inr d
      | PList xs \<Rightarrow> pairs_dict xs []
      | PTuple xs \<Rightarrow> pairs_dict xs []
      | PStr s \<Rightarrow> (if s = [] then Inr [] else Inl (ValueError ''dictionary update sequence element has length 1; 2 is required''))
      | _ \<Rightarrow> Inl (TypeError ''object is not iterable''))"

text \<open>The constructor of the pydantic model \<open>Thread\<close>.\<close>

definition make_thread :: "string \<Rightarrow> datetime \<Rightarrow> pydict \<Rightarrow> pydict \<Rightarrow> exc + thread" where
  "make_thread t now md vals =
     (if required_identifier t \<and> str_keyed md \<and> str_keyed vals
      then Inr \<lparr>th_thread_id = t, th_created_at = now, th_updated_at = now, th_metadata = Some md,
                th_status = ''idle'', th_values = Some vals, th_interrupts = []\<rparr>
      else Inl (ValueError ''validation error for Thread''))"

definition thread_of_tuple :: "route_libs \<Rightarrow> datetime \<Rightarrow> string \<Rightarrow> checkpoint_tuple \<Rightarrow> exc + thread" where
  "thread_of_tuple R now t item =
     (let checkpoint = tuple_checkpoint item;
          timestamp = parse_timestamp R now (py_get checkpoint ''ts'')
      in bind_sum (py_dict (py_get_or checkpoint ''channel_values'' (PDict []))) (\<lambda>vals.
           make_thread t timestamp (visible_metadata (tuple_metadata item)) vals))"

definition thread_from_checkpoint ::
  "route_libs \<Rightarrow> datetime \<Rightarrow> string \<Rightarrow> 'w checkpointer_ops option \<Rightarrow> ('w, exc, thread option) op" where
  "thread_from_checkpoint R now t C =
     (case C of
        None \<Rightarrow> ret None
      | Some c \<Rightarrow>
          bind_op (cp_aget_tuple c (lookup_config t None [])) (\<lambda>item.
            case item of
              None \<Rightarrow> ret None
            | Some x \<Rightarrow> bind_op (pure_op (thread_of_tuple R now t x)) (\<lambda>th. ret (Some th))))"


section \<open>Resolving threads\<close>

definition or_token :: "string option \<Rightarrow> string \<Rightarrow> string" where
  "or_token t token = (case t of None \<Rightarrow> token | Some t \<Rightarrow> if t = [] then token else t)"

definition get_or_create_thread ::
  "route_libs \<Rightarrow> request_inputs \<Rightarrow> string option \<Rightarrow> 'w checkpointer_ops option \<Rightarrow> 'w store_ops \<Rightarrow> pydict option \<Rightarrow>
     ('w, exc, thread) op" where
  "get_or_create_thread R rq thread_id C S md =
     (let t = or_token thread_id (rq_token rq) in
      bind_op (so_get_thread S t) (\<lambda>existing.
        case existing of
          Some th \<Rightarrow> ret th
        | None \<Rightarrow>
            bind_op (thread_from_checkpoint R (rq_now rq 0) t C) (\<lambda>checkpoint_thread.
              case checkpoint_thread of
                Some th \<Rightarrow> bind_op (so_put_thread S (th\<lparr>th_values := Some []\<rparr>)) (\<lambda>_. ret th)
              | None \<Rightarrow>
                  bind_op (pure_op (make_thread t (rq_now rq 1) (case md of None \<Rightarrow> [] | Some d \<Rightarrow> d) [])) (\<lambda>th.
                  bind_op (so_put_thread S th) (\<lambda>_. ret th)))))"

definition thread_exists ::
  "route_libs \<Rightarrow> request_inputs \<Rightarrow> string \<Rightarrow> 'w checkpointer_ops option \<Rightarrow> 'w store_ops \<Rightarrow> ('w, exc, bool) op" where
  "thread_exists R rq t C S =
     bind_op (so_get_thread S t) (\<lambda>th.
       if th \<noteq> None then ret True
       else bind_op (thread_from_checkpoint R (rq_now rq 0) t C) (\<lambda>cth. ret (cth \<noteq> None)))"

definition get_thread_assistant_id ::
  "string \<Rightarrow> 'w checkpointer_ops option \<Rightarrow> 'w store_ops \<Rightarrow> ('w, exc, string option) op" where
  "get_thread_assistant_id t C S =
     bind_op (so_get_assistant_id S t) (\<lambda>assistant_id.
       case (assistant_id, C) of
         (None, Some c) \<Rightarrow>
           bind_op (cp_aget_tuple c (lookup_config t None [])) (\<lambda>item.
             case item of
               None \<Rightarrow> ret None
             | Some x \<Rightarrow>
                 (case checkpoint_assistant_id x of
                    None \<Rightarrow> ret None
                  | Some a \<Rightarrow> bind_op (so_claim_assistant S t a) (\<lambda>_. ret (Some a))))
       | _ \<Rightarrow> ret assistant_id)"

definition claim_thread_assistant ::
  "string \<Rightarrow> string \<Rightarrow> 'w checkpointer_ops option \<Rightarrow> 'w store_ops \<Rightarrow> ('w, exc, unit) op" where
  "claim_thread_assistant t a C S =
     bind_op (get_thread_assistant_id t C S) (\<lambda>existing.
       case existing of
         Some b \<Rightarrow>
           if b \<noteq> a then raise (HTTPException 409 (belongs_to t b))
           else try_op (so_claim_assistant S t a) (\<lambda>e.
                  case e of ThreadAssistantConflictError m \<Rightarrow> Some (raise (HTTPException 409 m)) | _ \<Rightarrow> None)
       | None \<Rightarrow>
           try_op (so_claim_assistant S t a) (\<lambda>e.
             case e of ThreadAssistantConflictError m \<Rightarrow> Some (raise (HTTPException 409 m)) | _ \<Rightarrow> None))"


section \<open>Handlers\<close>

definition thread_not_found :: "string \<Rightarrow> exc" where
  "thread_not_found t = HTTPException 404 (not_found t)"

definition create_thread ::
  "route_libs \<Rightarrow> request_inputs \<Rightarrow> thread_create \<Rightarrow> 'w server_config \<Rightarrow> ('w server, exc, thread) op" where
  "create_thread R rq request cfg =
     (let C = get_checkpointer cfg; S = get_thread_store cfg;
          t = or_token (tc_thread_id request) (rq_token rq)
      in bind_op (on_env (thread_exists R rq t C S)) (\<lambda>exists.
         bind_op (raise_if (exists \<and> tc_if_exists request = Some ''raise'')
           (HTTPException 409 (''Thread '' @ t @ '' already exists''))) (\<lambda>_.
           try_op (on_env (get_or_create_thread R rq (Some t) C S (tc_metadata request))) (\<lambda>e.
             case e of
               ThreadStoreCapacityError _ \<Rightarrow> Some (raise (HTTPException 413 ''Thread metadata is too large''))
             | _ \<Rightarrow> None))))"

definition get_thread ::
  "route_libs \<Rightarrow> request_inputs \<Rightarrow> string \<Rightarrow> 'w server_config \<Rightarrow> ('w server, exc, thread) op" where
  "get_thread R rq t cfg =
     (let C = get_checkpointer cfg; S = get_thread_store cfg in
      bind_op (on_env (thread_exists R rq t C S)) (\<lambda>exists.
      bind_op (raise_if (\<not> exists) (thread_not_found t)) (\<lambda>_.
      bind_op (on_env (get_or_create_thread R rq (Some t) C S None)) (\<lambda>th.
      bind_op (on_env (thread_from_checkpoint R (rq_now rq 2) t C)) (\<lambda>cth.
        ret (case cth of
               None \<Rightarrow> th
             | Some c \<Rightarrow> th\<lparr>th_values := th_values c, th_updated_at := th_updated_at c\<rparr>))))))"

definition get_state ::
  "route_libs \<Rightarrow> request_inputs \<Rightarrow> string \<Rightarrow> 'w server_config \<Rightarrow> ('w server, exc, thread_state) op" where
  "get_state R rq t cfg =
     bind_op (pure_op (require_checkpointer (get_checkpointer cfg))) (\<lambda>saver.
     bind_op (on_env (thread_exists R rq t (Some saver) (get_thread_store cfg))) (\<lambda>exists.
     bind_op (raise_if (\<not> exists) (thread_not_found t)) (\<lambda>_.
       on_env (get_thread_state (py_str (rl_text R)) (rq_uuid rq 0) (rq_now_iso rq) t saver None []))))"


definition wrong_thread :: "string \<Rightarrow> checkpoint_ref option \<Rightarrow> bool" where
  "wrong_thread t c = (case c of None \<Rightarrow> False | Some r \<Rightarrow> ref_thread_id r \<noteq> t)"

definition thread_mismatch :: exc where
  "thread_mismatch = HTTPException 422 ''Checkpoint thread_id must match the route thread_id''"

definition get_state_checkpoint ::
  "route_libs \<Rightarrow> request_inputs \<Rightarrow> string \<Rightarrow> state_request \<Rightarrow> 'w server_config \<Rightarrow> ('w server, exc, thread_state) op" where
  "get_state_checkpoint R rq t request cfg =
     (let S = get_thread_store cfg; checkpoint = sr_checkpoint request in
      bind_op (pure_op (require_checkpointer (get_checkpointer cfg))) (\<lambda>saver.
      bind_op (raise_if (wrong_thread t checkpoint) thread_mismatch) (\<lambda>_.
      bind_op (on_env (thread_exists R rq t (Some saver) S)) (\<lambda>exists.
      bind_op (raise_if (\<not> exists) (thread_not_found t)) (\<lambda>_.
      bind_op (on_env (get_or_create_thread R rq (Some t) (Some saver) S None)) (\<lambda>_.
        try_op (on_env (get_thread_state (py_str (rl_text R)) (rq_uuid rq 0) (rq_now_iso rq) t saver
            (case checkpoint of None \<Rightarrow> None | Some c \<Rightarrow> ref_checkpoint_id c)
            (case checkpoint of None \<Rightarrow> [] | Some c \<Rightarrow> ref_checkpoint_ns c)))
          (\<lambda>e. if is_lookup_error e then Some (raise (HTTPException 404 (exc_str e))) else None)))))))"

text \<open>\<open>runnable_config["configurable"]["checkpoint_ns"] = ns\<close>\<close>

definition set_namespace :: "pydict \<Rightarrow> string \<Rightarrow> pydict" where
  "set_namespace rc ns =
     (case sget rc ''configurable'' of
        Some (PDict d) \<Rightarrow> sset rc ''configurable'' (PDict (sset d ''checkpoint_ns'' (PStr ns)))
      | _ \<Rightarrow> rc)"

text \<open>The part of \<open>update_state\<close> between the lease and its release.\<close>

definition update_under_lease ::
  "route_libs \<Rightarrow> request_inputs \<Rightarrow> ('w \<Rightarrow> bool) \<Rightarrow> string \<Rightarrow> state_update \<Rightarrow> 'w server_config \<Rightarrow> 'w checkpointer_ops \<Rightarrow>
     ('w, exc, pydict) op" where
  "update_under_lease R rq late t request cfg saver =
     (let S = get_thread_store cfg; checkpoint = su_checkpoint request in
      bind_op (get_or_create_thread R rq (Some t) (Some saver) S None) (\<lambda>_.
      bind_op (get_thread_assistant_id t (Some saver) S) (\<lambda>owner.
        case owner of
          None \<Rightarrow> raise (HTTPException 409 ''Thread has no assistant owner; run an assistant first'')
        | Some a \<Rightarrow>
            bind_op (raise_if (wrong_thread t checkpoint) thread_mismatch) (\<lambda>_.
            bind_op (pure_op (build_runnable_config (rl_model_dump R) t a None
              (case checkpoint of None \<Rightarrow> su_checkpoint_id request | Some c \<Rightarrow> ref_checkpoint_id c))) (\<lambda>rc.
            bind_op (pure_op (get_graph_runtime cfg a)) (\<lambda>graph.
              case g_aupdate_state graph of
                None \<Rightarrow> raise (HTTPException 501 ''Configured graph does not support state updates'')
              | Some update \<Rightarrow>
                  try_op (timeout_op late (cfg_run_timeout_seconds cfg)
                      (update (case checkpoint of None \<Rightarrow> rc | Some c \<Rightarrow> set_namespace rc (ref_checkpoint_ns c))
                        (su_values request) (su_as_node request)))
                    (\<lambda>e. case e of
                           TimeoutError \<Rightarrow> Some (raise (HTTPException 504 ''State update timed out''))
                         | InvalidUpdateError m \<Rightarrow> Some (raise (HTTPException 422 m))
                         | _ \<Rightarrow> None)))))))"

definition state_update_response :: "string \<Rightarrow> pydict \<Rightarrow> exc + checkpoint_ref" where
  "state_update_response t result =
     bind_sum (configurable_of result) (\<lambda>d.
       case (py_get d ''checkpoint_id'', py_get_or d ''checkpoint_ns'' (PStr [])) of
         (PStr c, PStr ns) \<Rightarrow>
           if py_get d ''thread_id'' \<noteq> PStr t then Inl (RuntimeError ''graph returned an invalid checkpoint config'')
           else make_checkpoint_ref t ns (Some c)
             (case py_get d ''checkpoint_map'' of PDict m \<Rightarrow> Some m | _ \<Rightarrow> None)
       | _ \<Rightarrow> Inl (RuntimeError ''graph returned an invalid checkpoint config''))"

definition update_state ::
  "route_libs \<Rightarrow> request_inputs \<Rightarrow> ('w \<Rightarrow> bool) \<Rightarrow> string \<Rightarrow> state_update \<Rightarrow> 'w server_config \<Rightarrow>
     ('w server, exc, checkpoint_ref) op" where
  "update_state R rq late t request cfg =
     bind_op (pure_op (require_checkpointer (get_checkpointer cfg))) (\<lambda>saver.
     bind_op (on_env (thread_exists R rq t (Some saver) (get_thread_store cfg))) (\<lambda>exists.
     bind_op (raise_if (\<not> exists) (thread_not_found t)) (\<lambda>_.
     bind_op (with_lease t (on_env (update_under_lease R rq late t request cfg saver))) (\<lambda>result.
       pure_op (state_update_response t result)))))"

text \<open>The route \<open>delete_thread\<close>.\<close>

definition delete_under_lease ::
  "('w \<Rightarrow> bool) \<Rightarrow> string \<Rightarrow> 'w server_config \<Rightarrow> ('w, exc, unit) op" where
  "delete_under_lease late t cfg =
     bind_op (try_op (timeout_op late (cfg_run_timeout_seconds cfg)
         (case get_checkpointer cfg of None \<Rightarrow> ret () | Some c \<Rightarrow> cp_adelete_thread c t))
       (\<lambda>e. case e of
              TimeoutError \<Rightarrow> Some (raise (HTTPException 504 ''Thread deletion timed out''))
            | NotImplementedError \<Rightarrow>
                Some (raise (HTTPException 501 ''Configured checkpointer does not support thread deletion''))
            | _ \<Rightarrow> None)) (\<lambda>_.
       so_delete_thread (get_thread_store cfg) t)"

definition delete_thread_route ::
  "('w \<Rightarrow> bool) \<Rightarrow> string \<Rightarrow> 'w server_config \<Rightarrow> ('w server, exc, unit) op" where
  "delete_thread_route late t cfg = with_lease t (on_env (delete_under_lease late t cfg))"

definition history_before :: "string \<Rightarrow> string \<Rightarrow> before_marker option \<Rightarrow> exc + pydict option" where
  "history_before t ns before_mark =
     (case before_mark of
        None \<Rightarrow> Inr None
      | Some (BeforeCheckpoint c) \<Rightarrow>
          if ref_thread_id c \<noteq> t
          then Inl (HTTPException 422 ''Before checkpoint thread_id must match the route thread_id'')
          else Inr (Some (lookup_config t (ref_checkpoint_id c) (ref_checkpoint_ns c)))
      | Some (BeforeId i) \<Rightarrow> Inr (Some (lookup_config t (Some i) ns)))"

fun states_of_tuples ::
  "(pyval \<Rightarrow> string) \<Rightarrow> (nat \<Rightarrow> string) \<Rightarrow> string \<Rightarrow> string \<Rightarrow> checkpoint_tuple list \<Rightarrow> exc + thread_state list" where
  "states_of_tuples str uuids now_iso t [] = Inr []"
| "states_of_tuples str uuids now_iso t (x # xs) =
     bind_sum (checkpoint_tuple_to_state str (uuids 0) now_iso t x) (\<lambda>st.
     bind_sum (states_of_tuples str (\<lambda>n. uuids (Suc n)) now_iso t xs) (\<lambda>sts. Inr (st # sts)))"

definition get_history ::
  "route_libs \<Rightarrow> request_inputs \<Rightarrow> string \<Rightarrow> history_request \<Rightarrow> 'w server_config \<Rightarrow>
     ('w server, exc, thread_state list) op" where
  "get_history R rq t request cfg =
     bind_op (pure_op (require_checkpointer (get_checkpointer cfg))) (\<lambda>saver.
     bind_op (raise_if (wrong_thread t (hr_checkpoint request)) thread_mismatch) (\<lambda>_.
     let ns = (case hr_checkpoint request of None \<Rightarrow> [] | Some c \<Rightarrow> ref_checkpoint_ns c) in
     bind_op (pure_op (history_before t ns (hr_before request))) (\<lambda>before_config.
     bind_op (on_env (cp_alist saver (Some (lookup_config t None ns)) (hr_metadata request) before_config
         (Some (hr_limit request)))) (\<lambda>items.
       pure_op (states_of_tuples (py_str (rl_text R)) (rq_uuid rq) (rq_now_iso rq) t items)))))"



section \<open>The default store under the routes\<close>

text \<open>A checkpoint saver whose lookups neither read nor write the thread store.\<close>

definition ignores_store :: "'c environment checkpointer_ops \<Rightarrow> bool" where
  "ignores_store C \<longleftrightarrow>
     (\<forall>k w s. cp_aget_tuple C k (w\<lparr>env_store := s\<rparr>) =
        (fst (cp_aget_tuple C k w), (snd (cp_aget_tuple C k w))\<lparr>env_store := s\<rparr>))"

lemma bounded_saver_ignores_store: "ignores_store (bounded_saver_ops P scfg)"
  by (simp add: ignores_store_def on_saver_def case_prod_unfold)

lemma ignores_store_keeps: "ignores_store C \<Longrightarrow> env_store (snd (cp_aget_tuple C k w)) = env_store w"
  unfolding ignores_store_def
  by (metis environment.select_convs(1) environment.surjective environment.update_convs(1) snd_conv)

lemma on_store_apply: "on_store m w = (fst (m (env_store w)), w\<lparr>env_store := snd (m (env_store w))\<rparr>)"
  by (simp add: on_store_def on_part_def case_prod_unfold)

declare memory_store_ops_simps [simp del]

text \<open>One step of the store, with what it leaves of the environment.\<close>

definition store_step :: "'c storage_libs \<Rightarrow> 'c environment \<Rightarrow> 'c environment \<Rightarrow> bool" where
  "store_step L w w1 \<longleftrightarrow> env_ok L w1 \<and> (\<exists>s. w1 = w\<lparr>env_store := s\<rparr>)"

lemma get_thread_step:
  assumes "env_ok L w"
  obtains w1 where "so_get_thread (memory_store_ops L) t w = (Inr (map_option st_thread (env_view L w t)), w1)"
    "store_step L w w1" "fades (env_view L w) (env_view L w1)"
  using default_store.get_law [OF assms, of t] that
  by (auto simp: wp_iff memory_store_ops_simps on_store_apply store_step_def)

lemma owner_step:
  assumes "env_ok L w"
  obtains w1 where "so_get_assistant_id (memory_store_ops L) t w = (Inr (owner_in (env_view L w t)), w1)"
    "store_step L w w1" "fades (env_view L w) (env_view L w1)"
  using default_store.owner_law [OF assms, of t] that
  by (auto simp: wp_iff memory_store_ops_simps on_store_apply store_step_def)

lemma claim_step:
  assumes "env_ok L w"
  obtains r w1 where "so_claim_assistant (memory_store_ops L) t a w = (r, w1)"
    "store_step L w w1" "claim_result t a (env_view L w) r (env_view L w1)"
  using default_store.claim_law [OF assms, of t a] that
  by (auto simp: wp_iff memory_store_ops_simps on_store_apply store_step_def)

lemma put_step:
  assumes "env_ok L w"
  obtains r w1 where "so_put_thread (memory_store_ops L) th w = (r, w1)"
    "store_step L w w1" "put_result th (env_view L w) r (env_view L w1)"
  using default_store.put_law [OF assms, of th] that
  by (auto simp: wp_iff memory_store_ops_simps on_store_apply store_step_def)

lemma lookup_step:
  assumes "ignores_store C" "env_ok L w" "cp_aget_tuple C k w = (r, w1)"
  shows "env_ok L w1" "env_view L w1 = env_view L w"
  using ignores_store_keeps [OF assms(1), of k w] assms(2,3) by (simp_all add: env_ok_def env_view_def)

text \<open>A lookup after store steps answers as it does before them.\<close>

lemma lookup_after_step:
  "ignores_store C \<Longrightarrow> store_step L w w1 \<Longrightarrow> fst (cp_aget_tuple C k w1) = fst (cp_aget_tuple C k w)"
  by (auto simp: ignores_store_def store_step_def)

lemma step_ok: "store_step L w w1 \<Longrightarrow> env_ok L w1"
  by (simp add: store_step_def)

text \<open>The assistant that the latest checkpoint of a thread is marked with.\<close>

definition durable_owner :: "'c environment checkpointer_ops \<Rightarrow> string \<Rightarrow> 'c environment \<Rightarrow> string option" where
  "durable_owner C t w =
     (case fst (cp_aget_tuple C (lookup_config t None []) w) of
        Inr (Some x) \<Rightarrow> checkpoint_assistant_id x
      | _ \<Rightarrow> None)"

lemma claim_result_Inr: "claim_result t a f (Inr u) g \<Longrightarrow> owner_in (g t) \<in> {None, Some a} \<and> owner_in (f t) \<in> {None, Some a}"
  by (auto simp: claim_result_def owner_in_def dest: fadesD fades_upd_at split: option.splits if_splits)

lemma claim_result_other: "claim_result t a f r g \<Longrightarrow> owner_in (f t) = Some b \<Longrightarrow> b \<noteq> a \<Longrightarrow>
    r = Inl (ThreadAssistantConflictError (belongs_to t b)) \<and> fades f g"
  by (auto simp: claim_result_def owner_in_def split: option.splits)

text \<open>
  \<open>get_thread_assistant_id\<close>: the owner in the store if there is one, else the durable owner, which
  the store then takes over.
\<close>

lemma assistant_id_spec:
  assumes "ignores_store C" "env_ok L w" "get_thread_assistant_id t (Some C) (memory_store_ops L) w = (r, w')"
  shows "env_ok L w' \<and>
    (case r of
       Inr (Some b) \<Rightarrow>
         (owner_in (env_view L w t) = Some b \<and> fades (env_view L w) (env_view L w')) \<or>
         (owner_in (env_view L w t) = None \<and> durable_owner C t w = Some b \<and> owner_in (env_view L w' t) \<in> {None, Some b})
     | Inr None \<Rightarrow> owner_in (env_view L w t) = None \<and> durable_owner C t w = None \<and> fades (env_view L w) (env_view L w')
     | Inl e \<Rightarrow> owner_in (env_view L w t) = None)"
proof -
  obtain w1 where own: "so_get_assistant_id (memory_store_ops L) t w = (Inr (owner_in (env_view L w t)), w1)"
    and w1: "store_step L w w1" "fades (env_view L w) (env_view L w1)"
    using owner_step [OF assms(2)] .
  note run = assms(3) [unfolded get_thread_assistant_id_def bind_op_def own prod.case sum.case]
  show ?thesis
  proof (cases "owner_in (env_view L w t)")
    case (Some b)
    then have "r = Inr (Some b)" "w' = w1" using run by (simp_all add: ret_def)
    then show ?thesis using Some w1 step_ok [OF w1(1)] by simp
  next
    case None
    let ?k = "lookup_config t None []"
    obtain q w2 where look: "cp_aget_tuple C ?k w1 = (q, w2)" by (cases "cp_aget_tuple C ?k w1")
    have q: "q = fst (cp_aget_tuple C ?k w)" using lookup_after_step [OF assms(1) w1(1), of ?k] look by simp
    note w2 = lookup_step [OF assms(1) step_ok [OF w1(1)] look]
    show ?thesis
    proof (cases "\<exists>x b. q = Inr (Some x) \<and> checkpoint_assistant_id x = Some b")
      case True
      then obtain x b where x: "q = Inr (Some x)" "checkpoint_assistant_id x = Some b" by blast
      obtain c w3 where c: "so_claim_assistant (memory_store_ops L) t b w2 = (c, w3)"
        and w3: "store_step L w2 w3" "claim_result t b (env_view L w2) c (env_view L w3)"
        using claim_step [OF w2(1)] .
      have "durable_owner C t w = Some b" using x q by (simp add: durable_owner_def)
      then show ?thesis
        using run None x claim_result_Inr [of t b _ _ "env_view L w3"] w3 step_ok [OF w3(1)]
        by (cases c) (auto simp: look c ret_def bind_op_def)
    next
      case False
      then have "w' = w2" "durable_owner C t w = None" "\<And>b. r \<noteq> Inr (Some b)"
        using run None q by (auto simp: look ret_def durable_owner_def split: sum.splits option.splits)
      then show ?thesis using None w1 w2 by (auto split: sum.split option.split)
    qed
  qed
qed


lemma conflict_mapped:
  "try_op m (\<lambda>e. case e of ThreadAssistantConflictError m \<Rightarrow> Some (raise (HTTPException 409 m)) | _ \<Rightarrow> None) w =
     (case m w of
        (Inl (ThreadAssistantConflictError m), w') \<Rightarrow> (Inl (HTTPException 409 m), w')
      | (r, w') \<Rightarrow> (r, w'))"
  by (auto simp: try_op_def raise_def split: sum.split prod.split exc.split)

lemma claim_thread_spec:
  assumes "ignores_store C" "env_ok L w" "claim_thread_assistant t a (Some C) (memory_store_ops L) w = (r, w')"
  shows "env_ok L w' \<and>
    (case r of
       Inr _ \<Rightarrow> owner_in (env_view L w t) \<in> {None, Some a} \<and>
         (owner_in (env_view L w t) = None \<longrightarrow> durable_owner C t w \<in> {None, Some a}) \<and>
         owner_in (env_view L w' t) \<in> {None, Some a}
     | Inl _ \<Rightarrow> True) \<and>
    (\<forall>b. owner_in (env_view L w t) = Some b \<longrightarrow> b \<noteq> a \<longrightarrow>
       r = Inl (HTTPException 409 (belongs_to t b)) \<and> fades (env_view L w) (env_view L w'))"
proof -
  obtain q w1 where id: "get_thread_assistant_id t (Some C) (memory_store_ops L) w = (q, w1)"
    by (cases "get_thread_assistant_id t (Some C) (memory_store_ops L) w")
  note spec = assistant_id_spec [OF assms(1,2) id]
  then have ok: "env_ok L w1" by simp
  obtain c w2 where c: "so_claim_assistant (memory_store_ops L) t a w1 = (c, w2)"
    and w2: "store_step L w1 w2" "claim_result t a (env_view L w1) c (env_view L w2)"
    using claim_step [OF ok] .
  note run = assms(3) [unfolded claim_thread_assistant_def bind_op_def id prod.case conflict_mapped]
  show ?thesis
  proof (cases q)
    case (Inl e)
    then show ?thesis using run spec by auto
  next
    case (Inr found)
    show ?thesis
    proof (cases found)
      case None
      then show ?thesis
        using run spec Inr step_ok [OF w2(1)] claim_result_Inr [of t a "env_view L w1" _ "env_view L w2"] w2(2)
        by (auto simp: c split: sum.splits exc.splits)
    next
      case (Some b)
      show ?thesis
      proof (cases "b = a")
        case True
        then show ?thesis
          using run spec Inr Some step_ok [OF w2(1)] claim_result_Inr [of t a "env_view L w1" _ "env_view L w2"] w2(2)
          by (auto simp: c split: sum.splits exc.splits)
      next
        case False
        then show ?thesis using run spec Inr Some by (auto simp: raise_def)
      qed
    qed
  qed
qed



section \<open>Deletion\<close>

definition default_config ::
  "'c storage_libs \<Rightarrow> parent_ops \<Rightarrow> checkpoint_config \<Rightarrow> 'c environment server_config \<Rightarrow> bool" where
  "default_config L P scfg cfg \<longleftrightarrow>
     get_thread_store cfg = memory_store_ops L \<and> get_checkpointer cfg = Some (bounded_saver_ops P scfg)"

text \<open>Nothing of thread \<open>t\<close> is left, and of the other threads only what time takes.\<close>

definition forgotten :: "'c storage_libs \<Rightarrow> string \<Rightarrow> 'c environment \<Rightarrow> 'c environment \<Rightarrow> bool" where
  "forgotten L t w w' \<longleftrightarrow>
     env_view L w' t = None \<and> no_thread (mem_of (env_saver w')) t \<and> \<not> dict_has (last_access (env_saver w')) t \<and>
     fades (env_view L w) (env_view L w') \<and>
     (\<forall>u. u \<noteq> t \<longrightarrow> same_thread (mem_of (env_saver w)) (mem_of (env_saver w')) u)"

lemma saver_delete_spec:
  assumes "parent_laws P" "saver_inv s" "required_identifier t" "256 \<le> max_thread_id_length scfg"
  obtains s' where "adelete_thread P scfg (PStr t) s = (Inr (), s')" "no_thread (mem_of s') t"
    "\<not> dict_has (last_access s') t" "\<And>u. u \<noteq> t \<Longrightarrow> same_thread (mem_of s) (mem_of s') u"
proof -
  have v: "validated_identifier (PStr t) ''thread_id'' (max_thread_id_length scfg) False = Inr t"
    using assms(3,4) by (intro identifier_accepted) (simp add: required_identifier_valid)
  note wf = saver_invD(2) [OF assms(2)]
  have "adelete_thread P scfg (PStr t) s = (Inr (), delete_thread_locked P t s)"
    by (simp add: adelete_thread_def delete_thread_def bind_op_def pure_op_def v modify_op_def)
  then show thesis
    using that no_thread_delete [OF assms(1) wf, of t] same_thread_delete [OF assms(1) wf]
    by (simp add: dict_has_pop)
qed

lemma delete_under_lease_forgets:
  assumes "default_config L P scfg cfg" "parent_laws P" "saver_inv (env_saver w)" "env_ok L w"
    and "required_identifier t" "256 \<le> max_thread_id_length scfg"
  obtains w' where "delete_under_lease late t cfg w = (Inr (), w')" "forgotten L t w w'"
proof -
  obtain sv where sv: "adelete_thread P scfg (PStr t) (env_saver w) = (Inr (), sv)" "no_thread (mem_of sv) t"
      "\<not> dict_has (last_access sv) t" "\<And>u. u \<noteq> t \<Longrightarrow> same_thread (mem_of (env_saver w)) (mem_of sv) u"
    using saver_delete_spec [OF assms(2,3,5,6)] by blast
  let ?w = "w\<lparr>env_saver := sv, env_ticks := Suc (Suc (env_ticks w))\<rparr>"
  have deleted: "on_saver (\<lambda>_ _. adelete_thread P scfg (PStr t)) w = (Inr (), ?w)"
    by (simp add: on_saver_def sv)
  have ok: "env_ok L ?w" using assms(4) by (simp add: env_ok_def)
  obtain w' where w': "so_delete_thread (memory_store_ops L) t ?w = (Inr (), w')" "env_view L w' t = None"
      "fades (env_view L ?w) (env_view L w')" "env_saver w' = sv"
    using default_store.delete_law [OF ok, of t]
    by (auto simp: wp_iff memory_store_ops_simps on_store_apply)
  have "delete_under_lease late t cfg w = (Inr (), w')"
    using assms(1) w'(1) by (simp add: delete_under_lease_def default_config_def bind_op_def try_op_def timeout_op_def deleted)
  moreover have "forgotten L t w w'"
    using w' sv by (simp add: forgotten_def env_view_def)
  ultimately show thesis using that by blast
qed


section \<open>Known and unknown threads\<close>

definition unknown_thread ::
  "'c storage_libs \<Rightarrow> 'c environment checkpointer_ops \<Rightarrow> string \<Rightarrow> 'c environment \<Rightarrow> bool" where
  "unknown_thread L C t w \<longleftrightarrow>
     env_view L w t = None \<and> fst (cp_aget_tuple C (lookup_config t None []) w) = Inr None"

lemma unknown_from_checkpoint:
  assumes "ignores_store C" "env_ok L w" "unknown_thread L C t w"
  obtains w1 where "thread_from_checkpoint R now t (Some C) w = (Inr None, w1)" "env_ok L w1" "env_view L w1 = env_view L w"
proof -
  obtain w1 where look: "cp_aget_tuple C (lookup_config t None []) w = (Inr None, w1)"
    using assms(3) by (cases "cp_aget_tuple C (lookup_config t None []) w") (simp add: unknown_thread_def)
  then have "thread_from_checkpoint R now t (Some C) w = (Inr None, w1)"
    by (simp add: thread_from_checkpoint_def bind_op_def ret_def)
  then show thesis using that lookup_step [OF assms(1,2) look] by blast
qed

lemma unknown_after_step:
  assumes "ignores_store C" "store_step L w w1" "fades (env_view L w) (env_view L w1)" "unknown_thread L C t w"
  shows "unknown_thread L C t w1"
  using assms(3,4) lookup_after_step [OF assms(1,2), of "lookup_config t None []"] fadesD [OF assms(3), of t]
  by (cases "env_view L w1 t") (auto simp: unknown_thread_def)

lemma unknown_exists:
  assumes "ignores_store C" "env_ok L w" "unknown_thread L C t w"
  obtains w1 where "thread_exists R rq t (Some C) (memory_store_ops L) w = (Inr False, w1)" "env_ok L w1"
    "fades (env_view L w) (env_view L w1)"
proof -
  obtain w1 where get: "so_get_thread (memory_store_ops L) t w = (Inr (map_option st_thread (env_view L w t)), w1)"
    and w1: "store_step L w w1" "fades (env_view L w) (env_view L w1)"
    using get_thread_step [OF assms(2)] .
  obtain w2 where "thread_from_checkpoint R (rq_now rq 0) t (Some C) w1 = (Inr None, w2)" "env_ok L w2"
      "env_view L w2 = env_view L w1"
    using unknown_from_checkpoint [OF assms(1) step_ok [OF w1(1)] unknown_after_step [OF assms(1) w1 assms(3)]] .
  then show thesis
    using that [of w2] assms(3) w1(2) by (simp add: thread_exists_def bind_op_def get ret_def unknown_thread_def)
qed

lemma known_exists:
  assumes "env_ok L w" "env_view L w t \<noteq> None"
  obtains w1 where "thread_exists R rq t C (memory_store_ops L) w = (Inr True, w1)" "store_step L w w1"
    "fades (env_view L w) (env_view L w1)"
proof -
  obtain w1 where "so_get_thread (memory_store_ops L) t w = (Inr (map_option st_thread (env_view L w t)), w1)"
      "store_step L w w1" "fades (env_view L w) (env_view L w1)"
    using get_thread_step [OF assms(1)] .
  then show thesis using that [of w1] assms(2) by (auto simp: thread_exists_def bind_op_def ret_def)
qed

lemma exists_step:
  assumes "ignores_store C" "env_ok L w" "thread_exists R rq t (Some C) (memory_store_ops L) w = (r, w1)"
  shows "env_ok L w1 \<and> fades (env_view L w) (env_view L w1)"
proof -
  obtain v where get: "so_get_thread (memory_store_ops L) t w = (Inr (map_option st_thread (env_view L w t)), v)"
    and v: "store_step L w v" "fades (env_view L w) (env_view L v)"
    using get_thread_step [OF assms(2)] .
  obtain q u where look: "cp_aget_tuple C (lookup_config t None []) v = (q, u)"
    by (cases "cp_aget_tuple C (lookup_config t None []) v")
  have "w1 = v \<or> w1 = u"
    using assms(3) by (auto simp: thread_exists_def bind_op_def get ret_def thread_from_checkpoint_def look pure_op_def
        split: if_splits sum.splits option.splits prod.splits)
  then show ?thesis using v step_ok [OF v(1)] lookup_step [OF assms(1) step_ok [OF v(1)] look] by auto
qed

lemma or_token_id [simp]: "t \<noteq> [] \<Longrightarrow> or_token (Some t) k = t"
  by (simp add: or_token_def)

text \<open>A new thread: stored without owner and without values, or refused for its size.\<close>

lemma create_unknown:
  assumes "ignores_store C" "env_ok L w" "unknown_thread L C t w" "required_identifier t"
    and "str_keyed (case md of None \<Rightarrow> [] | Some d \<Rightarrow> d)"
    and "get_or_create_thread R rq (Some t) (Some C) (memory_store_ops L) md w = (r, w')"
  shows "case r of
      Inl e \<Rightarrow> (\<exists>m. e = ThreadStoreCapacityError m) \<and> fades (env_view L w) (env_view L w')
    | Inr th \<Rightarrow> th_thread_id th = t \<and> th_status th = ''idle'' \<and> th_values th = Some [] \<and>
        th_metadata th = Some (case md of None \<Rightarrow> [] | Some d \<Rightarrow> d) \<and>
        fades ((env_view L w)(t \<mapsto> \<lparr>st_thread = th, st_assistant_id = None\<rparr>)) (env_view L w')"
proof -
  have t: "t \<noteq> []" using assms(4) by (auto simp: required_identifier_def)
  obtain w1 where get: "so_get_thread (memory_store_ops L) t w = (Inr (map_option st_thread (env_view L w t)), w1)"
    and w1: "store_step L w w1" "fades (env_view L w) (env_view L w1)"
    using get_thread_step [OF assms(2)] .
  obtain w2 where w2: "thread_from_checkpoint R (rq_now rq 0) t (Some C) w1 = (Inr None, w2)" "env_ok L w2"
      "env_view L w2 = env_view L w1"
    using unknown_from_checkpoint [OF assms(1) step_ok [OF w1(1)] unknown_after_step [OF assms(1) w1 assms(3)]] .
  let ?md = "case md of None \<Rightarrow> [] | Some d \<Rightarrow> d"
  let ?th = "\<lparr>th_thread_id = t, th_created_at = rq_now rq 1, th_updated_at = rq_now rq 1, th_metadata = Some ?md,
     th_status = ''idle'', th_values = Some [], th_interrupts = []\<rparr>"
  have th: "make_thread t (rq_now rq 1) ?md [] = Inr ?th"
    using assms(4,5) by (simp add: make_thread_def str_keyed_def)
  obtain q w3 where put: "so_put_thread (memory_store_ops L) ?th w2 = (q, w3)"
    and w3: "store_step L w2 w3" "put_result ?th (env_view L w2) q (env_view L w3)"
    using put_step [OF w2(2)] .
  have gone: "env_view L w t = None" using assms(3) by (simp add: unknown_thread_def)
  then have gone1: "env_view L w1 t = None" using fadesD [OF w1(2), of t] by (cases "env_view L w1 t") auto
  have res: "(r, w') = (case q of Inl e \<Rightarrow> (Inl e, w3) | Inr _ \<Rightarrow> (Inr ?th, w3))"
    using assms(6) unfolding get_or_create_thread_def or_token_id [OF t] Let_def
    by (simp del: One_nat_def add: bind_op_def get gone w2(1) pure_op_def th put ret_def split: sum.splits)
  show ?thesis
  proof (cases q)
    case (Inl e)
    then show ?thesis using res w3(2) w1(2) w2(3) by (auto simp: put_result_def intro: fades_trans)
  next
    case (Inr u)
    have "fades ((env_view L w1)(t \<mapsto> \<lparr>st_thread = ?th, st_assistant_id = None\<rparr>)) (env_view L w3)"
      using w3(2) Inr w2(3) gone1 by (simp add: put_result_def owner_in_def)
    then show ?thesis using res Inr fades_trans [OF fades_upd [OF w1(2)]] by simp
  qed
qed


section \<open>Properties\<close>



text \<open>The server of the examples at work: thread \<open>t\<close> belongs to \<open>agent\<close>; its run slot is free or taken.\<close>

definition demo_routes :: route_libs where
  "demo_routes = \<lparr>rl_text = demo_text, rl_fromisoformat = (\<lambda>_. None), rl_model_dump = demo_dump\<rparr>"

definition demo_request :: request_inputs where
  "demo_request = \<lparr>rq_token = ''token'', rq_uuid = (\<lambda>_. ''uuid''), rq_now = (\<lambda>_. 7), rq_now_iso = ''now''\<rparr>"

definition demo_update :: state_update where
  "demo_update = \<lparr>su_values = PNone, su_checkpoint_id = None, su_checkpoint = None, su_as_node = None\<rparr>"

definition free_server :: "list_cache environment server" where
  "free_server = \<lparr>sv_coordinator = \<lparr>max_concurrent_runs = 2, active = [], next_token = 0\<rparr>, sv_env = demo_env\<rparr>"

definition busy_server :: "list_cache environment server" where
  "busy_server = \<lparr>sv_coordinator = \<lparr>max_concurrent_runs = 2, active = [(''t'', 0)], next_token = 1\<rparr>, sv_env = demo_env\<rparr>"

lemma demo_default_config: "default_config list_libs reference_parent demo_limits demo_config"
  by (simp add: default_config_def demo_config_def get_thread_store_def get_checkpointer_def)




text \<open>
  C9: Ownership across restarts of the store: a claim succeeds only for a thread that no other
  assistant owns, neither in the store nor, where the store knows no owner, by the marker of the
  latest checkpoint; after it the thread is the assistant's (or has expired). A thread of another
  assistant is refused with a conflict and stays as it is.
\<close>

theorem thread_claim_exclusive:
  assumes "ignores_store C" "env_ok L w" "claim_thread_assistant t a (Some C) (memory_store_ops L) w = (r, w')"
  shows "(r = Inr () \<longrightarrow>
      owner_in (env_view L w t) \<in> {None, Some a} \<and>
      (owner_in (env_view L w t) = None \<longrightarrow> durable_owner C t w \<in> {None, Some a}) \<and>
      owner_in (env_view L w' t) \<in> {None, Some a}) \<and>
    (\<forall>b. owner_in (env_view L w t) = Some b \<longrightarrow> b \<noteq> a \<longrightarrow>
      r = Inl (HTTPException 409 (belongs_to t b)) \<and> fades (env_view L w) (env_view L w'))"
  using claim_thread_spec [OF assms] by (cases r) simp_all

theorem thread_claim_exclusive_witness:
  "fst (claim_thread_assistant ''t'' ''other'' (Some (bounded_saver_ops reference_parent demo_limits))
     (memory_store_ops list_libs) demo_env) = Inl (HTTPException 409 ''Thread t belongs to assistant agent'')"
proof -
  have "owner_in (env_view list_libs demo_env ''t'') = Some ''agent''" by code_simp
  then show ?thesis
    using thread_claim_exclusive [OF bounded_saver_ignores_store [of reference_parent demo_limits] demo_env_ok
        prod.collapse [symmetric], where t = "''t''" and a = "''other''"]
    by (simp add: belongs_to_def)
qed



text \<open>A handler that answers 404 with the id, stores no thread and leaves the coordinator alone.\<close>

definition answers_not_found ::
  "'c storage_libs \<Rightarrow> string \<Rightarrow> ('c environment server, exc, 'a) op \<Rightarrow> 'c environment server \<Rightarrow> bool" where
  "answers_not_found L t m s \<longleftrightarrow>
     (case m s of (r, s') \<Rightarrow>
        r = Inl (HTTPException 404 (not_found t)) \<and> fades (env_view L (sv_env s)) (env_view L (sv_env s')) \<and>
        sv_coordinator s' = sv_coordinator s)"


abbreviation demo_saver :: "list_cache environment checkpointer_ops" where
  "demo_saver \<equiv> bounded_saver_ops reference_parent demo_limits"

lemma demo_env_unknown: "unknown_thread list_libs demo_saver ''x'' demo_env"
proof -
  have "case fst (cp_aget_tuple demo_saver (lookup_config ''x'' None []) demo_env) of Inr None \<Rightarrow> True | _ \<Rightarrow> False"
    and "env_view list_libs demo_env ''x'' = None" by code_simp+
  then show ?thesis by (simp add: unknown_thread_def split: sum.splits option.splits)
qed

lemma demo_routes_config:
  "get_thread_store demo_config = memory_store_ops list_libs" "get_checkpointer demo_config = Some demo_saver"
  "env_ok list_libs (sv_env free_server)" "sv_env free_server = demo_env"
  by (simp_all add: demo_config_def get_thread_store_def get_checkpointer_def free_server_def demo_env_ok)




definition demo_create :: "string \<Rightarrow> thread_create" where
  "demo_create t = \<lparr>tc_thread_id = Some t, tc_metadata = None, tc_if_exists = Some ''raise''\<rparr>"


end
