(* ===== verification/RunRoutes.thy ===== *)
theory RunRoutes
  imports ThreadRoutes
begin

text \<open>
  \<open>routes/runs.py\<close>: runs with and without streaming. A response stream is a function of the state
  in which the ASGI server starts to send it: it yields events, ends normally or with an
  exception, and leaves a state. A consumer that goes away early is a generator that ends early.
  A stateless run works on the environment and a thread store of its own, so its operations are
  those of the environment on the first part of a pair.
\<close>


section \<open>Response streams\<close>

type_synonym 'w stream = "'w \<Rightarrow> string list \<times> exc option \<times> 'w"

record 'w streaming_response =
  resp_body :: "'w server stream"
  resp_media_type :: string
  resp_headers :: "(string, string) dict"
  resp_background :: run_lease

definition create_streaming_response :: "'w server stream \<Rightarrow> run_lease \<Rightarrow> 'w streaming_response" where
  "create_streaming_response body background =
     \<lparr>resp_body = body, resp_media_type = ''text/event-stream'',
      resp_headers = [(''Cache-Control'', ''no-cache''), (''Connection'', ''keep-alive''), (''X-Accel-Buffering'', ''no'')],
      resp_background = background\<rparr>"

definition resolve_stream_modes :: "string list option \<Rightarrow> 'w assistant_config \<Rightarrow> string list" where
  "resolve_stream_modes requested a =
     (let or_else = (\<lambda>ms d. case ms of None \<Rightarrow> d | Some [] \<Rightarrow> d | Some xs \<Rightarrow> xs)
      in dict_keys (fold (\<lambda>m d. dict_set d m ())
           (or_else requested (or_else (ac_default_stream_mode a) [''values''])) []))"

definition stream_generator ::
  "route_libs \<Rightarrow> request_inputs \<Rightarrow> 'w assistant_config \<Rightarrow> run_create \<Rightarrow> string \<Rightarrow> 'w graph_ops \<Rightarrow> 'w store_ops \<Rightarrow> 'w stream" where
  "stream_generator R rq a request t graph S =
     stream_graph_response (rl_text R) (rl_model_dump R) (rq_uuid rq) (rq_now rq) S a
       (case rc_input request of None \<Rightarrow> [] | Some d \<Rightarrow> d) t graph
       (Some (resolve_stream_modes (rc_stream_mode request) a)) (rc_config request) (rc_checkpoint_id request)"

definition timeout_data :: pyval where
  "timeout_data = PDict [(PStr ''error'', PStr ''Graph execution timed out''), (PStr ''code'', PStr ''RUN_TIMEOUT'')]"

text \<open>\<open>_run_with_lease\<close>: \<open>late\<close> tells whether the deadline has passed when the inner stream ends.\<close>

definition run_with_lease ::
  "text_libs \<Rightarrow> ('w \<Rightarrow> bool) \<Rightarrow> 'w stream \<Rightarrow> run_lease \<Rightarrow> rat option \<Rightarrow> 'w server stream" where
  "run_with_lease T late generator lease seconds s =
     (case generator (sv_env s) of (events, ending, w) \<Rightarrow>
        (let released = snd (release_op lease (s\<lparr>sv_env := w\<rparr>)) in
         case map_option (timeout_exc (late w) seconds) ending of
           Some TimeoutError \<Rightarrow> (events @ [server_event T ''error'' timeout_data], None, released)
         | left \<Rightarrow> (events, left, released)))"

text \<open>
  \<open>_delete_stateless_checkpoints\<close>: the saver's failures are logged and dropped, a cancellation is
  not an \<open>Exception\<close> and goes on.
\<close>

definition delete_stateless_checkpoints ::
  "'w stream \<Rightarrow> 'w checkpointer_ops option \<Rightarrow> string \<Rightarrow> 'w stream" where
  "delete_stateless_checkpoints generator C t w =
     (case generator w of (events, ending, w1) \<Rightarrow>
        (case C of
           None \<Rightarrow> (events, ending, w1)
         | Some c \<Rightarrow>
             (case cp_adelete_thread c t w1 of
                (Inl CancelledError, w2) \<Rightarrow> (events, Some CancelledError, w2)
              | (_, w2) \<Rightarrow> (events, ending, w2))))"

definition stream_response ::
  "route_libs \<Rightarrow> request_inputs \<Rightarrow> ('w \<Rightarrow> bool) \<Rightarrow> 'w assistant_config \<Rightarrow> run_create \<Rightarrow> string \<Rightarrow> 'w graph_ops \<Rightarrow>
     'w store_ops \<Rightarrow> run_lease \<Rightarrow> rat option \<Rightarrow> 'w streaming_response" where
  "stream_response R rq late a request t graph S lease seconds =
     create_streaming_response
       (run_with_lease (rl_text R) late (stream_generator R rq a request t graph S) lease seconds) lease"


section \<open>Runs on a thread\<close>

text \<open>What the two runs on a thread do first: the assistant, the thread, and the claim.\<close>

definition resolve_run_thread ::
  "route_libs \<Rightarrow> request_inputs \<Rightarrow> string \<Rightarrow> run_create \<Rightarrow> 'w server_config \<Rightarrow> ('w server, exc, 'w assistant_config) op" where
  "resolve_run_thread R rq t request cfg =
     (let C = get_checkpointer cfg; S = get_thread_store cfg in
      bind_op (pure_op (get_assistant_config cfg (rc_assistant_id request))) (\<lambda>a.
      bind_op (if rc_if_not_exists request = Some ''reject'' then on_env (thread_exists R rq t C S) else ret True) (\<lambda>exists.
      bind_op (raise_if (\<not> exists) (thread_not_found t)) (\<lambda>_.
      bind_op (on_env (get_or_create_thread R rq (Some t) C S None)) (\<lambda>_.
      bind_op (on_env (claim_thread_assistant t (ac_assistant_id a) C S)) (\<lambda>_.
        ret a))))))"

text \<open>\<open>_acquire_run_lease\<close> is the code of \<open>_acquire_mutation_lease\<close>.\<close>

definition acquire_run_lease :: "string \<Rightarrow> ('w server, exc, run_lease) op" where
  "acquire_run_lease t = acquire_lease t"

definition stream_run_with_thread ::
  "route_libs \<Rightarrow> request_inputs \<Rightarrow> ('w \<Rightarrow> bool) \<Rightarrow> string \<Rightarrow> run_create \<Rightarrow> 'w server_config \<Rightarrow>
     ('w server, exc, 'w streaming_response) op" where
  "stream_run_with_thread R rq late t request cfg =
     bind_op (raise_if (rc_on_completion request \<noteq> None)
       (HTTPException 422 ''on_completion is supported only for stateless runs'')) (\<lambda>_.
     bind_op (resolve_run_thread R rq t request cfg) (\<lambda>a.
     bind_op (acquire_run_lease t) (\<lambda>lease.
     bind_op (pure_op (get_graph_runtime cfg (ac_assistant_id a))) (\<lambda>graph.
       ret (stream_response R rq late a request t graph (get_thread_store cfg) lease (cfg_run_timeout_seconds cfg))))))"

record run_response =
  rr_run_id :: string
  rr_thread_id :: string
  rr_assistant_id :: string
  rr_created_at :: string
  rr_updated_at :: string
  rr_status :: string
  rr_metadata :: pydict

definition unsupported_sync_options :: "run_create \<Rightarrow> string list" where
  "unsupported_sync_options r =
     map fst (filter snd [(''on_disconnect'', present (rc_on_disconnect r)), (''on_completion'', present (rc_on_completion r))])"

text \<open>The invocation between the lease and its release.\<close>

definition invoke_under_lease ::
  "route_libs \<Rightarrow> ('w \<Rightarrow> bool) \<Rightarrow> 'w server_config \<Rightarrow> string \<Rightarrow> pydict \<Rightarrow> pydict \<Rightarrow> ('w, exc, pydict) op" where
  "invoke_under_lease R late cfg a input_payload rc =
     try_op (timeout_op late (cfg_run_timeout_seconds cfg)
         (bind_op (pure_op (get_graph_runtime cfg a)) (\<lambda>graph. invoke_graph (py_str (rl_text R)) graph input_payload rc)))
       (\<lambda>e. case e of
              TimeoutError \<Rightarrow> Some (raise (HTTPException 504 ''Graph execution timed out''))
            | CheckpointCapacityError _ \<Rightarrow> Some (raise (HTTPException 507 ''Checkpoint capacity exceeded''))
            | _ \<Rightarrow> None)"

definition create_run ::
  "route_libs \<Rightarrow> request_inputs \<Rightarrow> ('w \<Rightarrow> bool) \<Rightarrow> string \<Rightarrow> run_create \<Rightarrow> 'w server_config \<Rightarrow>
     ('w server, exc, run_response) op" where
  "create_run R rq late t request cfg =
     (let unsupported = unsupported_sync_options request in
      bind_op (raise_if (unsupported \<noteq> [])
        (HTTPException 422 (''Unsupported options for non-streaming runs: '' @ join_strings '', '' unsupported))) (\<lambda>_.
      bind_op (resolve_run_thread R rq t request cfg) (\<lambda>a.
      bind_op (pure_op (prepare_input a (case rc_input request of None \<Rightarrow> [] | Some d \<Rightarrow> d))) (\<lambda>input_payload.
      bind_op (pure_op (build_runnable_config (rl_model_dump R) t (ac_assistant_id a) (rc_config request)
        (rc_checkpoint_id request))) (\<lambda>rc.
      bind_op (with_lease t (on_env (invoke_under_lease R late cfg (ac_assistant_id a) input_payload rc))) (\<lambda>_.
        ret \<lparr>rr_run_id = rq_uuid rq 0, rr_thread_id = t, rr_assistant_id = ac_assistant_id a,
             rr_created_at = rq_now_iso rq, rr_updated_at = rq_now_iso rq, rr_status = ''success'',
             rr_metadata = (case rc_metadata request of None \<Rightarrow> [] | Some d \<Rightarrow> d)\<rparr>))))))"


section \<open>Stateless runs\<close>

definition on_first :: "('w, exc, 'a) op \<Rightarrow> ('w \<times> 'm, exc, 'a) op" where
  "on_first m = on_part fst (\<lambda>w p. (w, snd p)) m"

definition on_second :: "('m, exc, 'a) op \<Rightarrow> ('w \<times> 'm, exc, 'a) op" where
  "on_second m = on_part snd (\<lambda>w p. (fst p, w)) m"

definition graph_on_first :: "'w graph_ops \<Rightarrow> ('w \<times> 'm) graph_ops" where
  "graph_on_first g =
     \<lparr>g_ainvoke = map_option (\<lambda>f p rc. on_first (f p rc)) (g_ainvoke g),
      g_astream = map_option (\<lambda>f p rc ms q.
        case f p rc ms (fst q) of (items, ending, w) \<Rightarrow> (map (\<lambda>(x, v). (x, (v, snd q))) items, ending, (w, snd q)))
        (g_astream g),
      g_aupdate_state = map_option (\<lambda>f rc v n. on_first (f rc v n)) (g_aupdate_state g),
      g_topology = g_topology g, g_input_schema = g_input_schema g, g_output_schema = g_output_schema g\<rparr>"

definition assistant_on_first :: "'w assistant_config \<Rightarrow> ('w \<times> 'm) assistant_config" where
  "assistant_on_first a =
     \<lparr>ac_assistant_id = ac_assistant_id a, ac_graph_id = ac_graph_id a, ac_name = ac_name a,
      ac_factory = (\<lambda>b. map_sum id graph_on_first (ac_factory a b)), ac_description = ac_description a,
      ac_metadata = ac_metadata a, ac_created_at = ac_created_at a, ac_input_transformer = ac_input_transformer a,
      ac_output_transformer = ac_output_transformer a, ac_default_stream_mode = ac_default_stream_mode a,
      ac_input_schema = ac_input_schema a, ac_output_schema = ac_output_schema a, ac_state_schema = ac_state_schema a,
      ac_config_schema = ac_config_schema a, ac_graph = ac_graph a\<rparr>"

definition checkpointer_on_first :: "'w checkpointer_ops \<Rightarrow> ('w \<times> 'm) checkpointer_ops" where
  "checkpointer_on_first c =
     \<lparr>cp_aget_tuple = (\<lambda>k. on_first (cp_aget_tuple c k)),
      cp_alist = (\<lambda>k f b n. on_first (cp_alist c k f b n)),
      cp_adelete_thread = (\<lambda>t. on_first (cp_adelete_thread c t))\<rparr>"

definition ephemeral_store_ops :: "'c storage_libs \<Rightarrow> ('w \<times> 'c memory_store) store_ops" where
  "ephemeral_store_ops L =
     \<lparr>so_get_thread = (\<lambda>k. on_second (store_get_thread L k)),
      so_put_thread = (\<lambda>th. on_second (store_put_thread L th)),
      so_get_assistant_id = (\<lambda>k. on_second (store_get_assistant_id L k)),
      so_claim_assistant = (\<lambda>k a. on_second (store_claim_assistant L k a)),
      so_delete_thread = (\<lambda>k. on_second (store_delete_thread L k))\<rparr>"

text \<open>An operation on the pair, started with a given store; and a stream likewise.\<close>

definition with_store :: "'m \<Rightarrow> ('w \<times> 'm, exc, 'a) op \<Rightarrow> ('w, exc, 'a \<times> 'm) op" where
  "with_store m f w =
     (case f (w, m) of (Inl e, p) \<Rightarrow> (Inl e, fst p) | (Inr x, p) \<Rightarrow> (Inr (x, snd p), fst p))"

definition stream_with_store :: "'m \<Rightarrow> ('w \<times> 'm) stream \<Rightarrow> 'w stream" where
  "stream_with_store m f w = (case f (w, m) of (events, ending, p) \<Rightarrow> (events, ending, fst p))"

text \<open>\<open>InMemoryThreadStore(max_threads=1)\<close>\<close>

definition ephemeral_store :: "'c storage_libs \<Rightarrow> (nat \<Rightarrow> rat) \<Rightarrow> exc + 'c memory_store" where
  "ephemeral_store L clock = make_thread_store L clock 14400 1 131072"

definition stream_run_stateless ::
  "'c storage_libs \<Rightarrow> (nat \<Rightarrow> rat) \<Rightarrow> route_libs \<Rightarrow> request_inputs \<Rightarrow> ('w \<Rightarrow> bool) \<Rightarrow> run_create \<Rightarrow> 'w server_config \<Rightarrow>
     ('w server, exc, 'w streaming_response) op" where
  "stream_run_stateless L clock R rq late request cfg =
     (let t = rq_token rq; C = get_checkpointer cfg; C2 = map_option checkpointer_on_first C; S = ephemeral_store_ops L in
      bind_op (pure_op (get_assistant_config cfg (rc_assistant_id request))) (\<lambda>a.
      bind_op (raise_if (rc_if_not_exists request = Some ''reject'')
        (HTTPException 422 ''if_not_exists=reject is invalid for a stateless run'')) (\<lambda>_.
      bind_op (pure_op (ephemeral_store L clock)) (\<lambda>m.
      bind_op (on_env (with_store m (get_or_create_thread R rq (Some t) C2 S None))) (\<lambda>(_, m).
      bind_op (on_env (with_store m (claim_thread_assistant t (ac_assistant_id a) C2 S))) (\<lambda>(_, m).
      bind_op (acquire_run_lease t) (\<lambda>lease.
      bind_op (pure_op (get_graph_runtime cfg (ac_assistant_id a))) (\<lambda>graph.
        ret (create_streaming_response
          (run_with_lease (rl_text R) late
            (delete_stateless_checkpoints
              (stream_with_store m (stream_generator R rq (assistant_on_first a) request t (graph_on_first graph) S)) C t)
            lease (cfg_run_timeout_seconds cfg))
          lease)))))))))"



section \<open>Leases of runs\<close>

lemma run_with_lease_coordinator:
  "run_with_lease T late g l secs s = (evs, left, s') \<Longrightarrow> sv_coordinator s' = snd (lease_release l (sv_coordinator s))"
  unfolding run_with_lease_def Let_def by (auto simp: release_op_eq split: prod.splits option.splits exc.splits)

lemma frames_resolve: "frames (resolve_run_thread R rq t request cfg)"
  unfolding resolve_run_thread_def Let_def by (intro frame_intros)

lemma resolve_assistant:
  assumes "resolve_run_thread R rq t request cfg s = (Inr a, s')"
  shows "get_assistant_config cfg (rc_assistant_id request) = Inr a"
  using assms unfolding resolve_run_thread_def Let_def
  by (cases "get_assistant_config cfg (rc_assistant_id request)")
    (auto simp: bind_op_def pure_op_def ret_def split: sum.splits prod.splits)

lemma consistent_graph:
  assumes "config_consistent cfg" "get_assistant_config cfg k = Inr a"
  obtains g where "get_graph_runtime cfg (ac_assistant_id a) = Inr g" "ac_assistant_id a = k"
proof -
  have "get_assistant cfg k = Some a" using assms(2) by (auto simp: get_assistant_config_def split: option.splits)
  then show thesis using assms(1) that by (fastforce simp: config_consistent_def dest: spec [of _ k])
qed

text \<open>
  What becomes of the lease of a streamed run: a refused request has none; a response holds one,
  which its body gives back however it ends, and so does its background task if the body was
  never started; the task after the body changes nothing.
\<close>

definition lease_returned ::
  "coordinator \<Rightarrow> string \<Rightarrow> (exc + 'w streaming_response) \<times> 'w server \<Rightarrow> bool" where
  "lease_returned c t p \<longleftrightarrow>
     (case p of
        (Inl _, s1) \<Rightarrow> coordinator_kept c (sv_coordinator s1)
      | (Inr resp, s1) \<Rightarrow>
          \<not> busy c t \<and> busy (sv_coordinator s1) t \<and>
          (\<forall>s2. sv_coordinator s2 = sv_coordinator s1 \<longrightarrow>
             coordinator_kept c (sv_coordinator (snd (release_op (resp_background resp) s2))) \<and>
             (case resp_body resp s2 of (_, _, s3) \<Rightarrow>
                coordinator_kept c (sv_coordinator s3) \<and>
                sv_coordinator (snd (release_op (resp_background resp) s3)) = sv_coordinator s3)))"

lemma lease_returned_granted:
  assumes "acquire t (sv_coordinator s) = (Inr l, c')" "\<not> busy (sv_coordinator s) t"
  shows "lease_returned (sv_coordinator s) t
    (Inr (create_streaming_response (run_with_lease T late g l secs) l), s\<lparr>sv_coordinator := c'\<rparr>)"
proof -
  let ?c = "sv_coordinator s"
  have kept: "coordinator_kept ?c (snd (lease_release l c'))" by (rule acquire_release_kept [OF assms(1)])
  have l: "lease_thread l = t" "busy c' t"
    using acquire_Inr [OF assms(1)] by (simp_all add: busy_def dict_has_set)
  have stale: "\<not> holds (snd (lease_release l c')) l"
    using kept assms(2) l(1) by (simp add: holds_def coordinator_kept_def busy_def dict_has_iff)
  show ?thesis
    using l(2) assms(2) kept stale_release [OF stale]
    by (auto simp: lease_returned_def create_streaming_response_def release_op_eq run_with_lease_coordinator
        split: prod.split)
qed

lemma acquire_graph_response:
  assumes "get_graph_runtime cfg k = Inr g"
  shows "lease_returned (sv_coordinator s) t
    (bind_op (acquire_run_lease t) (\<lambda>l. bind_op (pure_op (get_graph_runtime cfg k)) (\<lambda>g.
       ret (create_streaming_response (run_with_lease T late (gen g) l secs) l))) s)"
proof (cases rule: acquire_lease_cases [of s t])
  case (granted l c')
  then show ?thesis
    using lease_returned_granted [OF granted(2,1)] by (simp add: bind_op_def acquire_run_lease_def pure_op_def assms ret_def)
qed (simp_all add: bind_op_def acquire_run_lease_def lease_returned_def)

lemma lease_returned_frame: "frames m \<Longrightarrow> m s = (Inl e, s') \<Longrightarrow> lease_returned (sv_coordinator s) t (Inl e, s')"
  by (simp add: lease_returned_def framesD)

lemma lease_returned_bind:
  assumes "frames m" "\<And>x s'. m s = (Inr x, s') \<Longrightarrow> lease_returned (sv_coordinator s') t (k x s')"
  shows "lease_returned (sv_coordinator s) t (bind_op m k s)"
proof -
  obtain r s' where m: "m s = (r, s')" by (cases "m s")
  show ?thesis
    using assms(2) [of _ s'] lease_returned_frame [OF assms(1), of s _ s'] framesD [OF assms(1) m]
    by (cases r) (simp_all add: bind_op_def m)
qed

lemma stream_run_lease:
  assumes "config_consistent cfg"
  shows "lease_returned (sv_coordinator s) t (stream_run_with_thread R rq late t request cfg s)"
  unfolding stream_run_with_thread_def
proof (rule lease_returned_bind [OF frames_basic(4)], rule lease_returned_bind [OF frames_resolve])
  fix u s1 a s2
  assume "resolve_run_thread R rq t request cfg s1 = (Inr a, s2)"
  then obtain g where "get_graph_runtime cfg (ac_assistant_id a) = Inr g"
    using consistent_graph [OF assms resolve_assistant] by blast
  then show "lease_returned (sv_coordinator s2) t
      (bind_op (acquire_run_lease t) (\<lambda>lease. bind_op (pure_op (get_graph_runtime cfg (ac_assistant_id a))) (\<lambda>graph.
         ret (stream_response R rq late a request t graph (get_thread_store cfg) lease (cfg_run_timeout_seconds cfg)))) s2)"
    unfolding stream_response_def by (rule acquire_graph_response)
qed

lemma stateless_run_lease:
  assumes "config_consistent cfg"
  shows "lease_returned (sv_coordinator s) (rq_token rq) (stream_run_stateless L clock R rq late request cfg s)"
  unfolding stream_run_stateless_def Let_def
proof (rule lease_returned_bind [OF frames_basic(3)])
  fix a s1
  assume "pure_op (get_assistant_config cfg (rc_assistant_id request)) s = (Inr a, s1)"
  then have "get_assistant_config cfg (rc_assistant_id request) = Inr a" by (simp add: pure_op_def)
  then obtain g where g: "get_graph_runtime cfg (ac_assistant_id a) = Inr g"
    using consistent_graph [OF assms] by blast
  show "lease_returned (sv_coordinator s1) (rq_token rq)
    (bind_op (raise_if (rc_if_not_exists request = Some ''reject'')
        (HTTPException 422 ''if_not_exists=reject is invalid for a stateless run'')) (\<lambda>_.
      bind_op (pure_op (ephemeral_store L clock)) (\<lambda>m.
      bind_op (on_env (with_store m (get_or_create_thread R rq (Some (rq_token rq))
          (map_option checkpointer_on_first (get_checkpointer cfg)) (ephemeral_store_ops L) None))) (\<lambda>(_, m).
      bind_op (on_env (with_store m (claim_thread_assistant (rq_token rq) (ac_assistant_id a)
          (map_option checkpointer_on_first (get_checkpointer cfg)) (ephemeral_store_ops L)))) (\<lambda>(_, m).
      bind_op (acquire_run_lease (rq_token rq)) (\<lambda>lease.
      bind_op (pure_op (get_graph_runtime cfg (ac_assistant_id a))) (\<lambda>graph.
        ret (create_streaming_response
          (run_with_lease (rl_text R) late
            (delete_stateless_checkpoints
              (stream_with_store m (stream_generator R rq (assistant_on_first a) request (rq_token rq) (graph_on_first graph)
                (ephemeral_store_ops L))) (get_checkpointer cfg) (rq_token rq))
            lease (cfg_run_timeout_seconds cfg))
          lease))))))) s1)"
    by (rule lease_returned_bind [OF frames_basic(4)], rule lease_returned_bind [OF frames_basic(3)],
        rule lease_returned_bind [OF frames_basic(6)], clarify, rule lease_returned_bind [OF frames_basic(6)], clarify,
        rule acquire_graph_response [OF g])
qed



section \<open>Threads of another assistant\<close>

text \<open>
  The clock of the thread store stands still while a request is handled: no entry expires between
  two of its lookups.
\<close>

definition same_instant :: "'c environment \<Rightarrow> bool" where
  "same_instant w \<longleftrightarrow> (\<forall>n. readings (env_store w) n = readings (env_store w) (next_reading (env_store w)))"

text \<open>The environment after some lookups in the store, and nothing else.\<close>

definition only_read :: "'c environment \<Rightarrow> 'c environment \<Rightarrow> bool" where
  "only_read w w' \<longleftrightarrow> (\<exists>n. w' = w\<lparr>env_store := (env_store w)\<lparr>next_reading := n\<rparr>\<rparr>)"

lemma only_read_refl [simp]: "only_read w w"
  unfolding only_read_def by (rule exI [of _ "next_reading (env_store w)"]) simp

lemma only_read_trans: "only_read w v \<Longrightarrow> only_read v u \<Longrightarrow> only_read w u"
  by (auto simp: only_read_def)

lemma only_read_view:
  assumes "same_instant w" "only_read w w'"
  shows "same_instant w' \<and> env_view L w' = env_view L w"
proof -
  obtain n where w': "w' = w\<lparr>env_store := (env_store w)\<lparr>next_reading := n\<rparr>\<rparr>" using assms(2) by (auto simp: only_read_def)
  define now where "now = readings (env_store w) (next_reading (env_store w))"
  have "readings (env_store w) m = now" for m using assms(1) by (simp add: same_instant_def now_def)
  then show ?thesis by (simp add: w' same_instant_def env_view_def view_def fun_eq_iff)
qed

lemma get_thread_reads:
  obtains w' where "so_get_thread (memory_store_ops L) t w = (Inr (map_option st_thread (env_view L w t)), w')" "only_read w w'"
  by (rule that [of "w\<lparr>env_store := (env_store w)\<lparr>next_reading := Suc (next_reading (env_store w))\<rparr>\<rparr>"])
    (auto simp: memory_store_ops_simps on_store_apply store_get_thread_def lookup_record_def bind_op_def read_clock_def
      read_op_def ret_def env_view_def view_def only_read_def)

lemma owner_reads:
  obtains w' where "so_get_assistant_id (memory_store_ops L) t w = (Inr (owner_in (env_view L w t)), w')" "only_read w w'"
  by (rule that [of "w\<lparr>env_store := (env_store w)\<lparr>next_reading := Suc (next_reading (env_store w))\<rparr>\<rparr>"])
    (auto simp: memory_store_ops_simps on_store_apply store_get_assistant_id_def lookup_record_def bind_op_def read_clock_def
      read_op_def ret_def env_view_def view_def only_read_def owner_in_def)

lemma resolve_foreign_thread:
  assumes "get_thread_store cfg = memory_store_ops L" "get_assistant_config cfg (rc_assistant_id request) = Inr a"
    and "same_instant (sv_env s)" "owner_in (env_view L (sv_env s) t) = Some b" "b \<noteq> ac_assistant_id a" "t \<noteq> []"
  obtains w where "resolve_run_thread R rq t request cfg s = (Inl (HTTPException 409 (belongs_to t b)), s\<lparr>sv_env := w\<rparr>)"
    "only_read (sv_env s) w"
proof -
  let ?S = "memory_store_ops L" and ?C = "get_checkpointer cfg" and ?w = "sv_env s"
  have live: "\<exists>x. env_view L ?w t = Some x" using assms(4) by (cases "env_view L ?w t") (simp_all add: owner_in_def)
  define first where "first = (if rc_if_not_exists request = Some ''reject'' then on_env (thread_exists R rq t ?C ?S) else ret True)"
  obtain w1 where w1: "first s = (Inr True, s\<lparr>sv_env := w1\<rparr>)" "only_read ?w w1"
  proof (cases "rc_if_not_exists request = Some ''reject''")
    case True
    obtain v where "so_get_thread ?S t ?w = (Inr (map_option st_thread (env_view L ?w t)), v)" "only_read ?w v"
      by (rule get_thread_reads)
    then show thesis
      using that [of v] True live by (auto simp: first_def on_env_def on_part_def thread_exists_def bind_op_def ret_def)
  next
    case False
    then show thesis using that [of ?w] by (simp add: first_def ret_def)
  qed
  note v1 = only_read_view [OF assms(3) w1(2), of L]
  obtain w2 where w2: "so_get_thread ?S t w1 = (Inr (map_option st_thread (env_view L w1 t)), w2)" "only_read w1 w2"
    by (rule get_thread_reads)
  have v2: "env_view L w2 = env_view L ?w" using only_read_view [of w1 w2 L] v1 w2(2) by simp
  obtain w3 where w3: "so_get_assistant_id ?S t w2 = (Inr (owner_in (env_view L w2 t)), w3)" "only_read w2 w3"
    by (rule owner_reads)
  obtain x where x: "env_view L w1 t = Some x" using live v1 by auto
  have found: "get_or_create_thread R rq (Some t) ?C ?S None w1 = (Inr (st_thread x), w2)"
    using assms(6) by (simp add: get_or_create_thread_def Let_def bind_op_def w2(1) x ret_def)
  have refused: "claim_thread_assistant t (ac_assistant_id a) ?C ?S w2 = (Inl (HTTPException 409 (belongs_to t b)), w3)"
    using assms(4,5) by (simp add: claim_thread_assistant_def get_thread_assistant_id_def bind_op_def w3(1) v2 ret_def raise_def)
  have "resolve_run_thread R rq t request cfg s = (Inl (HTTPException 409 (belongs_to t b)), s\<lparr>sv_env := w3\<rparr>)"
    unfolding resolve_run_thread_def Let_def assms(1) first_def [symmetric]
    by (simp add: bind_op_def pure_op_def assms(2) w1(1) raise_if_def ret_def on_env_def on_part_def found refused)
  then show thesis using that w1(2) w2(2) w3(2) only_read_trans by blast
qed



section \<open>Stateless runs\<close>

lemma graph_on_first_preserves:
  assumes "graph_preserves Q g"
  shows "graph_preserves (\<lambda>p :: 'w \<times> 'm. Q (fst p)) (graph_on_first g)"
  unfolding graph_preserves_def
proof (intro allI impI)
  fix f :: "pydict \<Rightarrow> pydict \<Rightarrow> string list \<Rightarrow> 'w \<times> 'm \<Rightarrow> (pyval \<times> 'w \<times> 'm) list \<times> exc option \<times> 'w \<times> 'm"
    and p rc ms and q :: "'w \<times> 'm"
  assume f: "g_astream (graph_on_first g) = Some f" and q: "Q (fst q)"
  then obtain h where h: "g_astream g = Some h" and f': "f = (\<lambda>p rc ms q.
        case h p rc ms (fst q) of (items, ending, w) \<Rightarrow> (map (\<lambda>(x, v). (x, (v, snd q))) items, ending, (w, snd q)))"
    by (auto simp: graph_on_first_def)
  obtain items e w where run: "h p rc ms (fst q) = (items, e, w)" by (cases "h p rc ms (fst q)") auto
  have "Q w \<and> list_all (\<lambda>(_, v). Q v) items"
    using assms [unfolded graph_preserves_def, rule_format, OF h q, of p rc ms] by (simp add: run)
  then show "case f p rc ms q of (items, _, w') \<Rightarrow> Q (fst w') \<and> list_all (\<lambda>(_, v). Q (fst v)) items"
    by (auto simp: f' run list_all_iff)
qed

lemma preserves_on_second: "preserves (\<lambda>p. Q (fst p)) (on_second m)"
  by (simp add: preserves_def wp_iff on_second_def on_part_def case_prod_unfold)

lemma ephemeral_status_preserves:
  "preserves (\<lambda>p. Q (fst p)) (set_thread_status (ephemeral_store_ops L) n t st)"
proof -
  have "preserves (\<lambda>p. Q (fst p)) (case x of None \<Rightarrow> ret ()
      | Some th \<Rightarrow> so_put_thread (ephemeral_store_ops L) (th\<lparr>th_status := st, th_updated_at := n\<rparr>))" for x
    by (cases x) (simp_all add: ephemeral_store_ops_def preserves_on_second preserves_basic)
  then show ?thesis
    unfolding set_thread_status_def by (intro preserves_bind) (simp_all add: ephemeral_store_ops_def preserves_on_second)
qed

lemma stateless_stream_preserves:
  assumes "graph_preserves Q g" "Q w"
    and "stream_with_store m (stream_generator R rq a request t (graph_on_first g) (ephemeral_store_ops L)) w = (evs, left, w')"
  shows "Q w'"
proof -
  let ?f = "stream_generator R rq a request t (graph_on_first g) (ephemeral_store_ops L)"
  obtain evs' left' p where run: "?f (w, m) = (evs', left', p)" by (cases "?f (w, m)") auto
  have "Q (fst p)"
    using stream_response_preserves [OF graph_on_first_preserves [OF assms(1)] ephemeral_status_preserves _ run [unfolded stream_generator_def]]
      assms(2) by simp
  then show ?thesis using assms(3) by (simp add: stream_with_store_def run)
qed

text \<open>A graph that treats the saver well, whose calls it makes: the saver's invariant holds at every item.\<close>

definition graph_keeps_saver :: "'c environment graph_ops \<Rightarrow> bool" where
  "graph_keeps_saver g \<longleftrightarrow> graph_preserves (\<lambda>w. saver_inv (env_saver w)) g"

lemma stateless_cleanup:
  assumes "get_checkpointer cfg = Some (bounded_saver_ops P scfg)" "parent_laws P"
    and "graph_keeps_saver g" "graph_keeps_store g" "saver_inv (env_saver w)"
    and "required_identifier t" "256 \<le> max_thread_id_length scfg"
    and "delete_stateless_checkpoints
      (stream_with_store m (stream_generator R rq a request t (graph_on_first g) (ephemeral_store_ops L)))
      (get_checkpointer cfg) t w = (evs, left, w')"
  shows "no_thread (mem_of (env_saver w')) t \<and> \<not> dict_has (last_access (env_saver w')) t \<and> env_store w' = env_store w"
proof -
  let ?f = "stream_with_store m (stream_generator R rq a request t (graph_on_first g) (ephemeral_store_ops L))"
  obtain evs1 left1 w1 where run: "?f w = (evs1, left1, w1)" by (cases "?f w") auto
  have inv: "saver_inv (env_saver w1)"
    by (rule stateless_stream_preserves [OF assms(3) [unfolded graph_keeps_saver_def] assms(5) run])
  have store: "env_store w1 = env_store w"
    using assms(4) unfolding graph_keeps_store_def
    by (intro stateless_stream_preserves [OF _ _ run, where Q = "\<lambda>v. env_store v = env_store w"]) auto
  obtain sv where sv: "adelete_thread P scfg (PStr t) (env_saver w1) = (Inr (), sv)" "no_thread (mem_of sv) t"
      "\<not> dict_has (last_access sv) t"
    using saver_delete_spec [OF assms(2) inv assms(6,7)] by blast
  have "w' = w1\<lparr>env_saver := sv, env_ticks := Suc (Suc (env_ticks w1))\<rparr>"
    using assms(8) by (simp add: delete_stateless_checkpoints_def run assms(1) on_saver_def sv(1))
  then show ?thesis using sv store by simp
qed


lemma bind_op_Inr: "bind_op m k s = (Inr y, s') \<longleftrightarrow> (\<exists>x s1. m s = (Inr x, s1) \<and> k x s1 = (Inr y, s'))"
  by (auto simp: bind_op_def split: sum.splits prod.splits)

lemma raise_if_Inr: "raise_if c e s = (Inr u, s') \<longleftrightarrow> \<not> c \<and> s' = s"
  by (auto simp: raise_if_def raise_def ret_def)

lemma pure_op_Inr: "pure_op r s = (Inr x, s') \<longleftrightarrow> r = Inr x \<and> s' = s"
  by (auto simp: pure_op_def)

lemma ret_Inr: "ret x s = (Inr y, s') \<longleftrightarrow> y = x \<and> s' = s"
  by (auto simp: ret_def)

lemma on_env_Inr: "on_env m s = (Inr x, s') \<longleftrightarrow> (\<exists>w. m (sv_env s) = (Inr x, w) \<and> s' = s\<lparr>sv_env := w\<rparr>)"
  by (auto simp: on_env_def on_part_def split: prod.splits)

lemmas handler_steps = bind_op_Inr raise_if_Inr pure_op_Inr ret_Inr

lemma acquire_lease_env: "acquire_lease t s = (Inr l, s') \<Longrightarrow> sv_env s' = sv_env s"
  by (rule acquire_lease_cases [of s t]) auto

lemma with_store_Inr: "with_store m f w = (Inr (x, m'), w') \<longleftrightarrow> f (w, m) = (Inr x, (w', m'))"
  by (auto simp: with_store_def split: prod.splits sum.splits)

text \<open>The handler of a stateless run touches the main store neither, and its response is the guarded stream.\<close>

lemma preserves_on_first: "preserves Q m \<Longrightarrow> preserves (\<lambda>p. Q (fst p)) (on_first m)"
  by (simp add: preserves_def wp_iff on_first_def on_part_def case_prod_unfold)

lemma preserves_option [inv_intros]:
  "(x = None \<Longrightarrow> preserves Q m) \<Longrightarrow> (\<And>y. x = Some y \<Longrightarrow> preserves Q (k y)) \<Longrightarrow> preserves Q (case x of None \<Rightarrow> m | Some y \<Rightarrow> k y)"
  by (cases x) simp_all

lemma thread_from_checkpoint_preserves:
  assumes "\<And>c k. C = Some c \<Longrightarrow> preserves Q (cp_aget_tuple c k)"
  shows "preserves Q (thread_from_checkpoint R n t C)"
  unfolding thread_from_checkpoint_def by (intro inv_intros assms)

lemma get_or_create_preserves:
  assumes "\<And>c k. C = Some c \<Longrightarrow> preserves Q (cp_aget_tuple c k)"
    and "\<And>k. preserves Q (so_get_thread S k)" "\<And>th. preserves Q (so_put_thread S th)"
  shows "preserves Q (get_or_create_thread R rq t C S md)"
  unfolding get_or_create_thread_def Let_def by (intro inv_intros thread_from_checkpoint_preserves assms)

lemma claim_preserves:
  assumes "\<And>c k. C = Some c \<Longrightarrow> preserves Q (cp_aget_tuple c k)"
    and "\<And>k. preserves Q (so_get_assistant_id S k)" "\<And>k a. preserves Q (so_claim_assistant S k a)"
  shows "preserves Q (claim_thread_assistant t a C S)"
proof -
  have claim: "preserves Q (try_op (so_claim_assistant S t a)
      (\<lambda>e. case e of ThreadAssistantConflictError m \<Rightarrow> Some (raise (HTTPException 409 m)) | _ \<Rightarrow> None))"
    using preserves_basic(2) [of Q] by (intro preserves_try assms) (auto split: exc.splits)
  have "preserves Q (get_thread_assistant_id t C S)"
    unfolding get_thread_assistant_id_def
    by (rule preserves_bind [OF assms(2)], rename_tac x, case_tac x; cases C)
      (auto intro!: inv_intros assms)
  then show ?thesis unfolding claim_thread_assistant_def by (intro inv_intros claim)
qed

lemma stateless_response:
  assumes "stream_run_stateless L clock R rq late request cfg s = (Inr resp, s1)"
  obtains a g m l where "get_graph_runtime cfg (ac_assistant_id a) = Inr g"
    "resp_body resp = run_with_lease (rl_text R) late
       (delete_stateless_checkpoints
         (stream_with_store m (stream_generator R rq (assistant_on_first a) request (rq_token rq) (graph_on_first g)
           (ephemeral_store_ops L))) (get_checkpointer cfg) (rq_token rq)) l (cfg_run_timeout_seconds cfg)"
  using assms unfolding stream_run_stateless_def Let_def
  by (auto simp: handler_steps create_streaming_response_def split: prod.splits)

lemma stateless_handler_preserves:
  assumes "stream_run_stateless L clock R rq late request cfg s = (Inr resp, s1)"
    and "\<And>c k. get_checkpointer cfg = Some c \<Longrightarrow> preserves Q (cp_aget_tuple c k)" "Q (sv_env s)"
  shows "Q (sv_env s1)"
proof -
  let ?C = "map_option checkpointer_on_first (get_checkpointer cfg)" and ?S = "ephemeral_store_ops L" and ?t = "rq_token rq"
  obtain a m u m1 w1 m2 w2 l where steps:
    "get_or_create_thread R rq (Some ?t) ?C ?S None (sv_env s, m) = (Inr u, (w1, m1))"
    "claim_thread_assistant ?t a ?C ?S (w1, m1) = (Inr (), (w2, m2))" "sv_env s1 = w2"
    using assms(1) unfolding stream_run_stateless_def Let_def
    by (auto simp: handler_steps on_env_Inr with_store_Inr acquire_run_lease_def split: prod.splits
        dest!: acquire_lease_env)
  have saver: "preserves (\<lambda>p. Q (fst p)) (cp_aget_tuple c k)" if "?C = Some c" for c k
    using that assms(2) by (auto simp: checkpointer_on_first_def intro!: preserves_on_first)
  have store: "preserves (\<lambda>p. Q (fst p)) (so_get_thread ?S k)" "preserves (\<lambda>p. Q (fst p)) (so_put_thread ?S th)"
    "preserves (\<lambda>p. Q (fst p)) (so_get_assistant_id ?S k)" "preserves (\<lambda>p. Q (fst p)) (so_claim_assistant ?S k b)" for k th b
    by (simp_all add: ephemeral_store_ops_def preserves_on_second)
  have "Q w1" using preservesD [OF get_or_create_preserves [OF saver store(1,2)]] steps(1) assms(3) by (metis fst_conv snd_conv)
  then show ?thesis using preservesD [OF claim_preserves [OF saver store(3,4)]] steps(2,3) by (metis fst_conv snd_conv)
qed


text \<open>The thread of a run after it has been resolved for an assistant.\<close>

lemma default_store_preserves:
  "preserves (env_ok L) (so_get_thread (memory_store_ops L) k)"
  "preserves (env_ok L) (so_put_thread (memory_store_ops L) th)"
  unfolding preserves_def
  by (auto intro: wp_mono [OF default_store.get_law] wp_mono [OF default_store.put_law])

lemma lookup_preserves_ok: "ignores_store C \<Longrightarrow> preserves (env_ok L) (cp_aget_tuple C k)"
  using ignores_store_keeps [of C k] by (simp add: preserves_def wp_iff env_ok_def)

lemma resolve_claims:
  assumes "get_thread_store cfg = memory_store_ops L" "get_checkpointer cfg = Some C" "ignores_store C"
    and "env_ok L (sv_env s)" "resolve_run_thread R rq t request cfg s = (Inr a, s')"
  shows "env_ok L (sv_env s') \<and> owner_in (env_view L (sv_env s') t) \<in> {None, Some (ac_assistant_id a)}"
proof -
  let ?S = "memory_store_ops L"
  have "preserves (env_ok L) (thread_exists R rq t (Some C) ?S)"
    unfolding thread_exists_def
    by (intro inv_intros default_store_preserves thread_from_checkpoint_preserves) (auto intro: lookup_preserves_ok assms(3))
  then have exists_ok: "env_ok L w'" if "thread_exists R rq t (Some C) ?S w = (r, w')" "env_ok L w" for r w w'
    using that by (metis preservesD snd_conv)
  have "preserves (env_ok L) (get_or_create_thread R rq (Some t) (Some C) ?S None)"
    by (intro get_or_create_preserves default_store_preserves) (auto intro: lookup_preserves_ok assms(3))
  then have create_ok: "env_ok L w'" if "get_or_create_thread R rq (Some t) (Some C) ?S None w = (r, w')" "env_ok L w" for r w w'
    using that by (metis preservesD snd_conv)
  obtain w1 u w2 w3 where "env_ok L w1" "get_or_create_thread R rq (Some t) (Some C) ?S None w1 = (Inr u, w2)"
      "claim_thread_assistant t (ac_assistant_id a) (Some C) ?S w2 = (Inr (), w3)" "sv_env s' = w3"
    using assms(4,5) unfolding resolve_run_thread_def Let_def assms(1,2)
    by (auto simp: handler_steps on_env_Inr dest: exists_ok split: if_splits)
  then show ?thesis using claim_thread_spec [OF assms(3) create_ok] by fastforce
qed

lemma with_lease_Inr:
  assumes "frames body" "with_lease t body s = (Inr x, s')"
  obtains l c' u where "acquire t (sv_coordinator s) = (Inr l, c')" "body (s\<lparr>sv_coordinator := c'\<rparr>) = (Inr x, u)"
    "s' = u\<lparr>sv_coordinator := snd (lease_release l c')\<rparr>"
proof (cases rule: acquire_lease_cases [of s t])
  case (granted l c')
  obtain q u where "body (s\<lparr>sv_coordinator := c'\<rparr>) = (q, u)" by (cases "body (s\<lparr>sv_coordinator := c'\<rparr>)")
  with with_lease_granted [OF granted(2,3) this assms(1)] granted(2) show thesis using assms(2) that by simp
qed (use assms(2) in \<open>simp_all add: with_lease_def bind_op_def\<close>)

lemma invoke_Inr:
  assumes "invoke_under_lease R late cfg k pl rc w = (Inr d, w')"
  obtains g f out where "get_graph_runtime cfg k = Inr g" "g_ainvoke g = Some f" "f pl rc w = (Inr (PDict out), w')"
proof -
  obtain g where g: "get_graph_runtime cfg k = Inr g" and run: "invoke_graph (py_str (rl_text R)) g pl rc w = (Inr d, w')"
    using assms unfolding invoke_under_lease_def
    by (auto simp: try_op_def timeout_op_def bind_op_def pure_op_def raise_def split: sum.splits prod.splits exc.splits)
  obtain f v where f: "g_ainvoke g = Some f" "f pl rc w = (Inr v, w')" "as_payload (py_str (rl_text R)) v = Inr d"
    using run by (auto simp: invoke_graph_def bind_op_Inr pure_op_Inr raise_def split: option.splits)
  then obtain out where "v = PDict out" by (auto simp: as_payload_def split: pyval.splits)
  then show thesis using that g f by blast
qed


section \<open>Properties\<close>

text \<open>
  C6: Reservations of runs are returned on every path, whatever the graph, the saver, the store and
  the deadline do: a run without streaming leaves the coordinator as it found it; a streamed run
  that is refused holds nothing; one that is answered holds the slot of its thread until its body
  ends, in any way, or its background task runs, and both together release it only once.
\<close>

theorem runs_return_their_lease:
  assumes "config_consistent cfg"
  shows "coordinator_kept (sv_coordinator s) (sv_coordinator (snd (create_run R rq late t request cfg s))) \<and>
    lease_returned (sv_coordinator s) t (stream_run_with_thread R rq late t request cfg s) \<and>
    lease_returned (sv_coordinator s) (rq_token rq) (stream_run_stateless L clock R rq late request cfg s)"
proof -
  have body: "keeps_coordinator (with_lease t (on_env m))" for m :: "('a, exc, 'd) op"
    by (intro with_lease_keeps frame_intros)
  have "keeps_coordinator (create_run R rq late t request cfg)"
    unfolding create_run_def Let_def
    by (intro keeps_bind body frames_keeps [OF frames_resolve] frames_keeps [OF frames_basic(1)]
        frames_keeps [OF frames_basic(3)] frames_keeps [OF frames_basic(4)])
  then show ?thesis
    using stream_run_lease [OF assms] stateless_run_lease [OF assms] by (simp add: keeps_coordinator_def)
qed

definition demo_run_create :: run_create where
  "demo_run_create = plain_run\<lparr>rc_assistant_id := ''agent''\<rparr>"

lemma demo_consistent: "config_consistent demo_config"
  by (rule make_server_config_consistent [OF demo_config_made])

theorem runs_return_their_lease_witness:
  "coordinator_kept (sv_coordinator free_server)
     (sv_coordinator (snd (create_run demo_routes demo_request (\<lambda>_. False) ''t'' demo_run_create demo_config free_server))) \<and>
   lease_returned (sv_coordinator free_server) ''t''
     (stream_run_with_thread demo_routes demo_request (\<lambda>_. False) ''t'' demo_run_create demo_config free_server) \<and>
   \<not> isl (fst (stream_run_with_thread demo_routes demo_request (\<lambda>_. False) ''t'' demo_run_create demo_config free_server))"
proof -
  have "\<not> isl (fst (stream_run_with_thread demo_routes demo_request (\<lambda>_. False) ''t'' demo_run_create demo_config free_server))"
    by code_simp
  then show ?thesis using runs_return_their_lease [OF demo_consistent] by blast
qed



text \<open>The same server with a clock that stands still.\<close>

definition still_server :: "list_cache environment server" where
  "still_server = free_server\<lparr>sv_env := demo_env\<lparr>env_store := (env_store demo_env)\<lparr>readings := (\<lambda>_. 5)\<rparr>\<rparr>\<rparr>"

definition two_assistants :: "list_cache environment server_config" where
  "two_assistants = demo_config\<lparr>
     cfg_assistants := [(''agent'', demo_assistant), (''other'', demo_assistant\<lparr>ac_assistant_id := ''other''\<rparr>)],
     cfg_graphs := [(''agent'', demo_graph), (''other'', demo_graph)]\<rparr>"


text \<open>
  C13: A run that succeeds has run: its answer names the thread of the route and the requested
  assistant, which is configured; that assistant's graph was invoked with the transformed input
  and the server's configuration of the run, and returned a mapping; and the thread is not
  another assistant's afterwards.
\<close>

theorem create_run_outcome:
  assumes "get_thread_store cfg = memory_store_ops L" "get_checkpointer cfg = Some C" "ignores_store C"
    and "env_ok L (sv_env s)" "config_consistent cfg"
    and "\<forall>k g f p rc w. get_graph_runtime cfg k = Inr g \<longrightarrow> g_ainvoke g = Some f \<longrightarrow> env_store (snd (f p rc w)) = env_store w"
    and "create_run R rq late t request cfg s = (Inr resp, s')"
  shows "rr_thread_id resp = t \<and> rr_assistant_id resp = rc_assistant_id request \<and> rr_status resp = ''success'' \<and>
    owner_in (env_view L (sv_env s') t) \<in> {None, Some (rc_assistant_id request)} \<and>
    (\<exists>a g f input_payload rc w1 w2 out.
       get_assistant cfg (rc_assistant_id request) = Some a \<and>
       get_graph_runtime cfg (rc_assistant_id request) = Inr g \<and> g_ainvoke g = Some f \<and>
       prepare_input a (case rc_input request of None \<Rightarrow> [] | Some d \<Rightarrow> d) = Inr input_payload \<and>
       build_runnable_config (rl_model_dump R) t (rc_assistant_id request) (rc_config request) (rc_checkpoint_id request) = Inr rc \<and>
       f input_payload rc w1 = (Inr (PDict out), w2))"
proof -
  obtain a s1 pl rc d where res: "resolve_run_thread R rq t request cfg s = (Inr a, s1)"
    and pl: "prepare_input a (case rc_input request of None \<Rightarrow> [] | Some d \<Rightarrow> d) = Inr pl"
    and rc: "build_runnable_config (rl_model_dump R) t (ac_assistant_id a) (rc_config request) (rc_checkpoint_id request) = Inr rc"
    and run: "with_lease t (on_env (invoke_under_lease R late cfg (ac_assistant_id a) pl rc)) s1 = (Inr d, s')"
    and resp: "rr_thread_id resp = t" "rr_assistant_id resp = ac_assistant_id a" "rr_status resp = ''success''"
    using assms(7) unfolding create_run_def Let_def by (auto simp: handler_steps)
  have a: "get_assistant_config cfg (rc_assistant_id request) = Inr a" by (rule resolve_assistant [OF res])
  have id: "ac_assistant_id a = rc_assistant_id request" using consistent_graph [OF assms(5) a] by blast
  obtain l c' u where lease: "on_env (invoke_under_lease R late cfg (ac_assistant_id a) pl rc) (s1\<lparr>sv_coordinator := c'\<rparr>) = (Inr d, u)"
    and s': "s' = u\<lparr>sv_coordinator := snd (lease_release l c')\<rparr>"
    using with_lease_Inr [OF frames_basic(6) run] by metis
  obtain w2 where w2: "invoke_under_lease R late cfg (ac_assistant_id a) pl rc (sv_env s1) = (Inr d, w2)" "sv_env s' = w2"
    using lease s' by (auto simp: on_env_Inr)
  obtain g f out where g: "get_graph_runtime cfg (ac_assistant_id a) = Inr g" "g_ainvoke g = Some f"
      "f pl rc (sv_env s1) = (Inr (PDict out), w2)"
    using invoke_Inr [OF w2(1)] by blast
  have "env_store w2 = env_store (sv_env s1)" using assms(6) g by (metis snd_conv)
  then have "owner_in (env_view L (sv_env s') t) \<in> {None, Some (ac_assistant_id a)}"
    using resolve_claims [OF assms(1-4) res] w2(2) by (simp add: env_view_def)
  moreover have "get_assistant cfg (rc_assistant_id request) = Some a"
    using a by (auto simp: get_assistant_config_def split: option.splits)
  ultimately show ?thesis using resp pl rc g id by auto
qed

theorem create_run_outcome_witness:
  "\<exists>resp s'. create_run demo_routes demo_request (\<lambda>_. False) ''t'' demo_run_create demo_config free_server = (Inr resp, s') \<and>
     rr_assistant_id resp = ''agent'' \<and> owner_in (env_view list_libs (sv_env s') ''t'') \<in> {None, Some ''agent''}"
proof -
  have "\<not> isl (fst (create_run demo_routes demo_request (\<lambda>_. False) ''t'' demo_run_create demo_config free_server))"
    by code_simp
  then obtain resp s' where run: "create_run demo_routes demo_request (\<lambda>_. False) ''t'' demo_run_create demo_config free_server = (Inr resp, s')"
    by (cases "create_run demo_routes demo_request (\<lambda>_. False) ''t'' demo_run_create demo_config free_server"; cases "fst (create_run demo_routes demo_request (\<lambda>_. False) ''t'' demo_run_create demo_config free_server)") auto
  have "\<forall>k g f p rc w. get_graph_runtime demo_config k = Inr g \<longrightarrow> g_ainvoke g = Some f \<longrightarrow> env_store (snd (f p rc w)) = env_store w"
    by (auto simp: get_graph_runtime_def demo_config_def demo_graph_def ret_def split: option.splits if_splits)
  from create_run_outcome [OF demo_routes_config(1,2) bounded_saver_ignores_store demo_routes_config(3) demo_consistent this run]
  show ?thesis using run by (simp add: demo_run_create_def)
qed


text \<open>
  C14: A stateless run leaves nothing behind: over the default store and the bounded saver, the
  handler does not touch the thread store, and however the stream ends, no checkpoint, blob or
  write of the generated thread is left in the saver, and the thread store is as it was.
\<close>

theorem stateless_run_leaves_nothing:
  assumes "get_checkpointer cfg = Some (bounded_saver_ops P scfg)" "parent_laws P"
    and "\<forall>k g. get_graph_runtime cfg k = Inr g \<longrightarrow> graph_keeps_saver g \<and> graph_keeps_store g"
    and "required_identifier (rq_token rq)" "256 \<le> max_thread_id_length scfg"
    and "stream_run_stateless L clock R rq late request cfg s = (Inr resp, s1)"
    and "saver_inv (env_saver (sv_env s2))" "resp_body resp s2 = (evs, left, s3)"
  shows "env_store (sv_env s1) = env_store (sv_env s) \<and> env_store (sv_env s3) = env_store (sv_env s2) \<and>
    no_thread (mem_of (env_saver (sv_env s3))) (rq_token rq) \<and>
    \<not> dict_has (last_access (env_saver (sv_env s3))) (rq_token rq)"
proof -
  let ?t = "rq_token rq"
  have same: "env_store (snd (cp_aget_tuple (bounded_saver_ops P scfg) k w)) = env_store w" for k w
    by (rule ignores_store_keeps [OF bounded_saver_ignores_store])
  have "preserves (\<lambda>w. env_store w = env_store (sv_env s)) (cp_aget_tuple c k)" if "get_checkpointer cfg = Some c" for c k
  proof -
    have "c = bounded_saver_ops P scfg" using that assms(1) by simp
    then show ?thesis unfolding preserves_def wp_iff by (auto simp only: same)
  qed
  from stateless_handler_preserves [OF assms(6), where Q = "\<lambda>w. env_store w = env_store (sv_env s)", OF this refl]
  have handler: "env_store (sv_env s1) = env_store (sv_env s)" .
  obtain a g m l where g: "get_graph_runtime cfg (ac_assistant_id a) = Inr g"
    and body: "resp_body resp = run_with_lease (rl_text R) late
       (delete_stateless_checkpoints
         (stream_with_store m (stream_generator R rq (assistant_on_first a) request ?t (graph_on_first g)
           (ephemeral_store_ops L))) (get_checkpointer cfg) ?t) l (cfg_run_timeout_seconds cfg)"
    using stateless_response [OF assms(6)] by blast
  obtain evs1 left1 w where inner: "delete_stateless_checkpoints
         (stream_with_store m (stream_generator R rq (assistant_on_first a) request ?t (graph_on_first g)
           (ephemeral_store_ops L))) (get_checkpointer cfg) ?t (sv_env s2) = (evs1, left1, w)"
    by (rule prod_cases3)
  have "sv_env s3 = w"
    using assms(8) unfolding body run_with_lease_def inner prod.case Let_def
    by (auto simp: release_op_eq split: option.splits exc.splits)
  then show ?thesis
    using stateless_cleanup [OF assms(1,2) _ _ assms(7,4,5) inner] assms(3) g handler by blast
qed

theorem stateless_run_leaves_nothing_witness:
  "\<exists>resp s1 evs left s3. stream_run_stateless list_libs (\<lambda>_. 0) demo_routes demo_request (\<lambda>_. False) demo_run_create
       demo_config free_server = (Inr resp, s1) \<and> resp_body resp s1 = (evs, left, s3) \<and>
     env_store (sv_env s1) = env_store demo_env \<and> no_thread (mem_of (env_saver (sv_env s3))) ''token''"
proof -
  let ?run = "stream_run_stateless list_libs (\<lambda>_. 0) demo_routes demo_request (\<lambda>_. False) demo_run_create demo_config free_server"
  have "\<not> isl (fst ?run)" by code_simp
  then obtain resp s1 where run: "?run = (Inr resp, s1)" by (cases ?run; cases "fst ?run") auto
  obtain evs left s3 where body: "resp_body resp s1 = (evs, left, s3)" by (rule prod_cases3)
  have saver: "preserves (\<lambda>w. saver_inv (env_saver w)) (cp_aget_tuple c k)" if "get_checkpointer demo_config = Some c" for c k
    using that saver_inv_get_tuple [OF reference_laws]
    by (auto simp: demo_routes_config(2) preserves_def wp_iff on_saver_def aget_tuple_def case_prod_unfold)
  have "saver_inv (env_saver (sv_env free_server))" by (simp add: free_server_def demo_env_def saver_inv_new)
  from stateless_handler_preserves [OF run, where Q = "\<lambda>w. saver_inv (env_saver w)", OF saver this]
  have "saver_inv (env_saver (sv_env s1))" .
  moreover have "graph_keeps_saver demo_graph" by (simp add: graph_keeps_saver_def graph_preserves_def demo_graph_def)
  then have "\<forall>k g. get_graph_runtime demo_config k = Inr g \<longrightarrow> graph_keeps_saver g \<and> graph_keeps_store g"
    by (auto simp: get_graph_runtime_def demo_config_def demo_graph_keeps_store split: option.splits if_splits)
  moreover have "required_identifier (rq_token demo_request)" by code_simp
  ultimately show ?thesis
    using stateless_run_leaves_nothing [OF demo_routes_config(2) reference_laws _ _ _ run _ body] run body
    by (simp add: demo_limits_def demo_request_def demo_routes_config(4))
qed

text \<open>
  C20: A run that meets its deadline is told so: over the default store, when the graph is
  cancelled because the deadline has passed, the response ends normally, and what the client reads
  is \<open>metadata\<close>, then events named after the stream modes, then exactly one error, the timeout's.
\<close>

theorem timed_out_run_protocol:
  assumes "text_libs_ok (rl_text R)" "env_ok L (sv_env s)" "ids_match (env_view L (sv_env s))" "graph_keeps_store g"
    and "stream_generator R rq a request t g (memory_store_ops L) (sv_env s) = (evs, Some CancelledError, w)"
    and "late w" "resp_body (stream_response R rq late a request t g (memory_store_ops L) l (Some q)) s = (evs', left, s')"
  shows \<open>left = None \<and>
    (\<exists>md middle. sse_events (concat evs') = (''metadata'', md) # middle @
       [(''error'', ''{"error":"Graph execution timed out","code":"RUN_TIMEOUT"}'')] \<and>
     (\<forall>(n, j) \<in> set middle. n \<in> set known_modes))\<close>
proof -
  let ?T = "rl_text R"
  have evs': "evs' = evs @ [server_event ?T ''error'' timeout_data]" "left = None"
    using assms(5-7)
    by (simp_all add: stream_response_def create_streaming_response_def run_with_lease_def Let_def timeout_exc_def)
  have json: \<open>json_dumps ?T timeout_data = Inr ''{"error":"Graph execution timed out","code":"RUN_TIMEOUT"}''\<close>
  proof -
    have \<open>json_string ''error'' = ''"error"''\<close> \<open>json_string ''code'' = ''"code"''\<close>
      \<open>json_string ''Graph execution timed out'' = ''"Graph execution timed out"''\<close>
      \<open>json_string ''RUN_TIMEOUT'' = ''"RUN_TIMEOUT"''\<close>
      by code_simp+
    then show ?thesis by (simp add: timeout_data_def json_key_def join_strings_def)
  qed
  obtain md where md: "json_dumps ?T (metadata_data (rq_uuid rq 0)) = Inr md" by (simp add: metadata_data_def json_key_def)
  note stream = assms(5) [unfolded stream_generator_def]
  show ?thesis
  proof (cases rule: stream_response_cases [OF stream])
    case (1 e)
    then show ?thesis using set_status_spec [OF assms(2,3), of "rq_now rq 0" t "''busy''"] by (simp add: wp_iff)
  next
    case (2 w1 events ending w2 r)
    have "env_ok L w1" "ids_match (env_view L w1)"
      using set_status_spec [OF assms(2,3), of "rq_now rq 0" t "''busy''"] 2(1) by (simp_all add: wp_iff)
    moreover have "env_store w2 = env_store w1" by (rule run_body_keeps_store [OF assms(4) 2(2)])
    ultimately have "env_ok L w2" "ids_match (env_view L w2)" by (simp_all add: env_ok_def env_view_def)
    then have "r \<noteq> Inl CancelledError" using set_status_spec [of L w2 "rq_now rq 1" t "''idle''"] 2(3) by (auto simp: wp_iff)
    then have "snd (closing ?T ending) = Some CancelledError" using 2(4) by (auto split: sum.splits)
    then have "ending = Some CancelledError" by (auto simp: closing_def split: option.splits exc.splits)
    then have evs: "concat evs' = server_event ?T ''metadata'' (metadata_data (rq_uuid rq 0)) @ concat events @
        server_event ?T ''error'' timeout_data"
      using 2(5) by (simp add: evs' closing_def)
    have "list_all (graph_event ?T) events" using run_body_events 2(2) by (metis fst_conv)
    then obtain middle where middle: "sse_events (concat events @ server_event ?T ''error'' timeout_data) =
        middle @ sse_events (server_event ?T ''error'' timeout_data)" "\<forall>(n, j) \<in> set middle. n \<in> set known_modes"
      using read_graph_events [OF assms(1)] by blast
    have last: \<open>sse_events (server_event ?T ''error'' timeout_data) =
        [(''error'', ''{"error":"Graph execution timed out","code":"RUN_TIMEOUT"}'')]\<close>
      using read_server_event [OF assms(1) ascii_names(3) _ json, of "[]"] by simp
    have "sse_events (concat evs') = (''metadata'', md) # middle @ sse_events (server_event ?T ''error'' timeout_data)"
      unfolding evs middle(1) [symmetric] by (rule read_server_event [OF assms(1) ascii_names(1) _ md]) simp
    then show ?thesis unfolding last evs'(2) using middle(2) by blast
  qed
qed

text \<open>A graph that is cancelled after its first chunk.\<close>

definition slow_graph :: "'w graph_ops" where
  "slow_graph = demo_graph\<lparr>g_astream := Some (\<lambda>p rc ms w. ([(PDict p, w)], Some CancelledError, w))\<rparr>"

lemma slow_graph_keeps_store: "graph_keeps_store slow_graph"
  unfolding graph_keeps_store_def by (simp add: slow_graph_def demo_graph_def graph_preserves_def)

definition slow_generator :: "list_cache environment stream" where
  "slow_generator =
     stream_generator demo_routes demo_request demo_assistant demo_run_create ''t'' slow_graph (memory_store_ops list_libs)"

theorem timed_out_run_protocol_witness:
  \<open>\<exists>evs s' md middle.
     resp_body (stream_response demo_routes demo_request (\<lambda>_. True) demo_assistant demo_run_create ''t'' slow_graph
       (memory_store_ops list_libs) \<lparr>lease_thread = ''t'', lease_token = 0, lease_released = False\<rparr> (Some 1)) free_server = (evs, None, s') \<and>
     sse_events (concat evs) = (''metadata'', md) # middle @
       [(''error'', ''{"error":"Graph execution timed out","code":"RUN_TIMEOUT"}'')]\<close>
proof -
  let ?body = "resp_body (stream_response demo_routes demo_request (\<lambda>_. True) demo_assistant demo_run_create ''t'' slow_graph
       (memory_store_ops list_libs) \<lparr>lease_thread = ''t'', lease_token = 0, lease_released = False\<rparr> (Some 1)) free_server"
  have "fst (snd (slow_generator demo_env)) = Some CancelledError" by code_simp
  then obtain evs w where generated: "slow_generator demo_env = (evs, Some CancelledError, w)"
    by (cases "slow_generator demo_env") auto
  obtain evs' left s' where body: "?body = (evs', left, s')" by (rule prod_cases3)
  have ok: "text_libs_ok (rl_text demo_routes)" "env_ok list_libs (sv_env free_server)"
      "ids_match (env_view list_libs (sv_env free_server))"
    by (simp_all add: demo_routes_def demo_text_ok demo_routes_config(4) demo_env_ok demo_env_ids)
  from timed_out_run_protocol [OF ok slow_graph_keeps_store generated [unfolded slow_generator_def, folded demo_routes_config(4)] _ body]
  show ?thesis using body by auto
qed

end
