(* ===== verification/TaskRoutes.thy ===== *)
theory TaskRoutes
  imports Interleaving RunRoutes
begin

text \<open>
  The route handlers as tasks, cut at every \<open>await\<close> on the thread store, the checkpoint saver, the
  graph and the coordinator. What is between two awaits is what it is in \<open>ThreadRoutes\<close> and
  \<open>RunRoutes\<close>; \<open>TaskSimulation\<close> shows that a task which is not disturbed does what the handler
  there does. The last section has the requests the server takes, each with its task.
\<close>


section \<open>The shared world\<close>

text \<open>
  The server's state, with what release leaves behind: the flags \<open>_released\<close> of the leases, by token,
  and the shielded calls of \<open>_release\<close> whose caller has been cancelled.
\<close>

record 'e world =
  w_server :: "'e server"
  w_flags :: "nat list"
  w_detached :: "(string \<times> nat) list"

text \<open>
  Where a task is suspended: anywhere, at the coordinator's lock on its way in, under its lease on
  a thread, or at the release of a lease.
\<close>

datatype phase = Free | Locking | Guarded string | Unlocking

definition shared :: "('e, exc, 'a) op \<Rightarrow> ('e world, exc, 'a) op" where
  "shared m = on_part w_server (\<lambda>s w. w\<lparr>w_server := s\<rparr>) (on_env m)"

definition await_shared :: "phase \<Rightarrow> ('e, exc, 'a) op \<Rightarrow> (phase, 'e world, 'a) task" where
  "await_shared p m = await_op p (shared m)"

text \<open>
  \<open>acquire\<close> does not suspend after it has taken the slot: \<open>async with\<close> releases the lock without
  waiting.
\<close>

definition acquire_task :: "string \<Rightarrow> (phase, 'e world, run_lease) task" where
  "acquire_task t w =
     Suspended Locking (\<lambda>c w.
       if c then (Finished (Inl CancelledError), w)
       else (case acquire_lease t (w_server w) of (r, s) \<Rightarrow> (Finished r, w\<lparr>w_server := s\<rparr>)))"

text \<open>
  \<open>RunLease.release\<close>: nothing for a released lease; otherwise \<open>_release\<close> runs in a shielded task of
  its own, and only a caller that sees its end sets the flag.
\<close>

definition free_slot :: "string \<Rightarrow> nat \<Rightarrow> 'e world \<Rightarrow> 'e world" where
  "free_slot t n w =
     w\<lparr>w_server := (w_server w)\<lparr>sv_coordinator := release_token t n (sv_coordinator (w_server w))\<rparr>\<rparr>"

definition release_task :: "run_lease \<Rightarrow> (phase, 'e world, unit) task" where
  "release_task l w =
     (if lease_token l \<in> set (w_flags w) then Finished (Inr ())
      else Suspended Unlocking (\<lambda>c w.
        if c then (Finished (Inl CancelledError), w\<lparr>w_detached := (lease_thread l, lease_token l) # w_detached w\<rparr>)
        else (Suspended Unlocking (\<lambda>c w.
                if c then (Finished (Inl CancelledError), w)
                else (Finished (Inr ()), w\<lparr>w_flags := lease_token l # w_flags w\<rparr>)),
              free_slot (lease_thread l) (lease_token l) w)))"

text \<open>\<open>asyncio.timeout\<close> around a task, and the bracket of the handlers.\<close>

definition timeout_task ::
  "('e \<Rightarrow> bool) \<Rightarrow> rat option \<Rightarrow> (phase, 'e world, 'a) task \<Rightarrow> (phase, 'e world, 'a) task" where
  "timeout_task late seconds m =
     seq_task m (\<lambda>r w. Finished (case r of
        Inl e \<Rightarrow> Inl (timeout_exc (late (sv_env (w_server w))) seconds e)
      | Inr x \<Rightarrow> Inr x))"

definition with_lease_task :: "string \<Rightarrow> (phase, 'e world, 'a) task \<Rightarrow> (phase, 'e world, 'a) task" where
  "with_lease_task t body = bind_task (acquire_task t) (\<lambda>l. finally_task body (release_task l))"


section \<open>Resolving threads\<close>

definition thread_from_checkpoint_task ::
  "phase \<Rightarrow> route_libs \<Rightarrow> datetime \<Rightarrow> string \<Rightarrow> 'e checkpointer_ops option \<Rightarrow> (phase, 'e world, thread option) task" where
  "thread_from_checkpoint_task p R now t C =
     (case C of
        None \<Rightarrow> finished (Inr None)
      | Some c \<Rightarrow>
          bind_task (await_shared p (cp_aget_tuple c (lookup_config t None []))) (\<lambda>item.
            case item of
              None \<Rightarrow> finished (Inr None)
            | Some x \<Rightarrow> bind_task (finished (thread_of_tuple R now t x)) (\<lambda>th. finished (Inr (Some th)))))"

definition get_or_create_thread_task ::
  "phase \<Rightarrow> route_libs \<Rightarrow> request_inputs \<Rightarrow> string option \<Rightarrow> 'e checkpointer_ops option \<Rightarrow> 'e store_ops \<Rightarrow>
     pydict option \<Rightarrow> (phase, 'e world, thread) task" where
  "get_or_create_thread_task p R rq thread_id C S md =
     (let t = or_token thread_id (rq_token rq) in
      bind_task (await_shared p (so_get_thread S t)) (\<lambda>existing.
        case existing of
          Some th \<Rightarrow> finished (Inr th)
        | None \<Rightarrow>
            bind_task (thread_from_checkpoint_task p R (rq_now rq 0) t C) (\<lambda>checkpoint_thread.
              case checkpoint_thread of
                Some th \<Rightarrow>
                  bind_task (await_shared p (so_put_thread S (th\<lparr>th_values := Some []\<rparr>))) (\<lambda>_. finished (Inr th))
              | None \<Rightarrow>
                  bind_task (finished (make_thread t (rq_now rq 1) (case md of None \<Rightarrow> [] | Some d \<Rightarrow> d) [])) (\<lambda>th.
                  bind_task (await_shared p (so_put_thread S th)) (\<lambda>_. finished (Inr th))))))"

definition thread_exists_task ::
  "phase \<Rightarrow> route_libs \<Rightarrow> request_inputs \<Rightarrow> string \<Rightarrow> 'e checkpointer_ops option \<Rightarrow> 'e store_ops \<Rightarrow>
     (phase, 'e world, bool) task" where
  "thread_exists_task p R rq t C S =
     bind_task (await_shared p (so_get_thread S t)) (\<lambda>th.
       if th \<noteq> None then finished (Inr True)
       else bind_task (thread_from_checkpoint_task p R (rq_now rq 0) t C) (\<lambda>cth. finished (Inr (cth \<noteq> None))))"

definition get_thread_assistant_id_task ::
  "phase \<Rightarrow> string \<Rightarrow> 'e checkpointer_ops option \<Rightarrow> 'e store_ops \<Rightarrow> (phase, 'e world, string option) task" where
  "get_thread_assistant_id_task p t C S =
     bind_task (await_shared p (so_get_assistant_id S t)) (\<lambda>assistant_id.
       case (assistant_id, C) of
         (None, Some c) \<Rightarrow>
           bind_task (await_shared p (cp_aget_tuple c (lookup_config t None []))) (\<lambda>item.
             case item of
               None \<Rightarrow> finished (Inr None)
             | Some x \<Rightarrow>
                 (case checkpoint_assistant_id x of
                    None \<Rightarrow> finished (Inr None)
                  | Some a \<Rightarrow> bind_task (await_shared p (so_claim_assistant S t a)) (\<lambda>_. finished (Inr (Some a)))))
       | _ \<Rightarrow> finished (Inr assistant_id))"

definition conflict_response :: "exc \<Rightarrow> (exc + unit) option" where
  "conflict_response e = (case e of ThreadAssistantConflictError m \<Rightarrow> Some (Inl (HTTPException 409 m)) | _ \<Rightarrow> None)"

definition claim_thread_assistant_task ::
  "phase \<Rightarrow> string \<Rightarrow> string \<Rightarrow> 'e checkpointer_ops option \<Rightarrow> 'e store_ops \<Rightarrow> (phase, 'e world, unit) task" where
  "claim_thread_assistant_task p t a C S =
     bind_task (get_thread_assistant_id_task p t C S) (\<lambda>existing.
       case existing of
         Some b \<Rightarrow>
           if b \<noteq> a then finished (Inl (HTTPException 409 (belongs_to t b)))
           else try_task (await_shared p (so_claim_assistant S t a)) conflict_response
       | None \<Rightarrow> try_task (await_shared p (so_claim_assistant S t a)) conflict_response)"


section \<open>Handlers of threads\<close>

definition create_thread_task ::
  "route_libs \<Rightarrow> request_inputs \<Rightarrow> thread_create \<Rightarrow> 'e server_config \<Rightarrow> (phase, 'e world, thread) task" where
  "create_thread_task R rq request cfg =
     (let C = get_checkpointer cfg; S = get_thread_store cfg; t = or_token (tc_thread_id request) (rq_token rq) in
      bind_task (thread_exists_task Free R rq t C S) (\<lambda>exists.
      bind_task (raise_task (exists \<and> tc_if_exists request = Some ''raise'')
        (HTTPException 409 (''Thread '' @ t @ '' already exists''))) (\<lambda>_.
        try_task (get_or_create_thread_task Free R rq (Some t) C S (tc_metadata request)) (\<lambda>e.
          case e of
            ThreadStoreCapacityError _ \<Rightarrow> Some (Inl (HTTPException 413 ''Thread metadata is too large''))
          | _ \<Rightarrow> None))))"

definition get_thread_task ::
  "route_libs \<Rightarrow> request_inputs \<Rightarrow> string \<Rightarrow> 'e server_config \<Rightarrow> (phase, 'e world, thread) task" where
  "get_thread_task R rq t cfg =
     (let C = get_checkpointer cfg; S = get_thread_store cfg in
      bind_task (thread_exists_task Free R rq t C S) (\<lambda>exists.
      bind_task (raise_task (\<not> exists) (thread_not_found t)) (\<lambda>_.
      bind_task (get_or_create_thread_task Free R rq (Some t) C S None) (\<lambda>th.
      bind_task (thread_from_checkpoint_task Free R (rq_now rq 2) t C) (\<lambda>cth.
        finished (Inr (case cth of
           None \<Rightarrow> th
         | Some c \<Rightarrow> th\<lparr>th_values := th_values c, th_updated_at := th_updated_at c\<rparr>)))))))"

definition get_state_task ::
  "route_libs \<Rightarrow> request_inputs \<Rightarrow> string \<Rightarrow> 'e server_config \<Rightarrow> (phase, 'e world, thread_state) task" where
  "get_state_task R rq t cfg =
     bind_task (finished (require_checkpointer (get_checkpointer cfg))) (\<lambda>saver.
     bind_task (thread_exists_task Free R rq t (Some saver) (get_thread_store cfg)) (\<lambda>exists.
     bind_task (raise_task (\<not> exists) (thread_not_found t)) (\<lambda>_.
       await_shared Free (get_thread_state (py_str (rl_text R)) (rq_uuid rq 0) (rq_now_iso rq) t saver None []))))"

definition get_state_checkpoint_task ::
  "route_libs \<Rightarrow> request_inputs \<Rightarrow> string \<Rightarrow> state_request \<Rightarrow> 'e server_config \<Rightarrow> (phase, 'e world, thread_state) task" where
  "get_state_checkpoint_task R rq t request cfg =
     (let S = get_thread_store cfg; checkpoint = sr_checkpoint request in
      bind_task (finished (require_checkpointer (get_checkpointer cfg))) (\<lambda>saver.
      bind_task (raise_task (wrong_thread t checkpoint) thread_mismatch) (\<lambda>_.
      bind_task (thread_exists_task Free R rq t (Some saver) S) (\<lambda>exists.
      bind_task (raise_task (\<not> exists) (thread_not_found t)) (\<lambda>_.
      bind_task (get_or_create_thread_task Free R rq (Some t) (Some saver) S None) (\<lambda>_.
        try_task (await_shared Free (get_thread_state (py_str (rl_text R)) (rq_uuid rq 0) (rq_now_iso rq) t saver
            (case checkpoint of None \<Rightarrow> None | Some c \<Rightarrow> ref_checkpoint_id c)
            (case checkpoint of None \<Rightarrow> [] | Some c \<Rightarrow> ref_checkpoint_ns c)))
          (\<lambda>e. if is_lookup_error e then Some (Inl (HTTPException 404 (exc_str e))) else None)))))))"

definition update_under_lease_task ::
  "route_libs \<Rightarrow> request_inputs \<Rightarrow> ('e \<Rightarrow> bool) \<Rightarrow> string \<Rightarrow> state_update \<Rightarrow> 'e server_config \<Rightarrow> 'e checkpointer_ops \<Rightarrow>
     (phase, 'e world, pydict) task" where
  "update_under_lease_task R rq late t request cfg saver =
     (let S = get_thread_store cfg; checkpoint = su_checkpoint request in
      bind_task (get_or_create_thread_task (Guarded t) R rq (Some t) (Some saver) S None) (\<lambda>_.
      bind_task (get_thread_assistant_id_task (Guarded t) t (Some saver) S) (\<lambda>owner.
        case owner of
          None \<Rightarrow> finished (Inl (HTTPException 409 ''Thread has no assistant owner; run an assistant first''))
        | Some a \<Rightarrow>
            bind_task (raise_task (wrong_thread t checkpoint) thread_mismatch) (\<lambda>_.
            bind_task (finished (build_runnable_config (rl_model_dump R) t a None
              (case checkpoint of None \<Rightarrow> su_checkpoint_id request | Some c \<Rightarrow> ref_checkpoint_id c))) (\<lambda>rc.
            bind_task (finished (get_graph_runtime cfg a)) (\<lambda>graph.
              case g_aupdate_state graph of
                None \<Rightarrow> finished (Inl (HTTPException 501 ''Configured graph does not support state updates''))
              | Some update \<Rightarrow>
                  try_task (timeout_task late (cfg_run_timeout_seconds cfg)
                      (await_shared (Guarded t)
                        (update (case checkpoint of None \<Rightarrow> rc | Some c \<Rightarrow> set_namespace rc (ref_checkpoint_ns c))
                          (su_values request) (su_as_node request))))
                    (\<lambda>e. case e of
                           TimeoutError \<Rightarrow> Some (Inl (HTTPException 504 ''State update timed out''))
                         | InvalidUpdateError m \<Rightarrow> Some (Inl (HTTPException 422 m))
                         | _ \<Rightarrow> None)))))))"

definition update_state_task ::
  "route_libs \<Rightarrow> request_inputs \<Rightarrow> ('e \<Rightarrow> bool) \<Rightarrow> string \<Rightarrow> state_update \<Rightarrow> 'e server_config \<Rightarrow>
     (phase, 'e world, checkpoint_ref) task" where
  "update_state_task R rq late t request cfg =
     bind_task (finished (require_checkpointer (get_checkpointer cfg))) (\<lambda>saver.
     bind_task (thread_exists_task Free R rq t (Some saver) (get_thread_store cfg)) (\<lambda>exists.
     bind_task (raise_task (\<not> exists) (thread_not_found t)) (\<lambda>_.
     bind_task (with_lease_task t (update_under_lease_task R rq late t request cfg saver)) (\<lambda>result.
       finished (state_update_response t result)))))"

definition delete_under_lease_task ::
  "('e \<Rightarrow> bool) \<Rightarrow> string \<Rightarrow> 'e server_config \<Rightarrow> (phase, 'e world, unit) task" where
  "delete_under_lease_task late t cfg =
     bind_task (try_task (timeout_task late (cfg_run_timeout_seconds cfg)
         (case get_checkpointer cfg of
            None \<Rightarrow> finished (Inr ())
          | Some c \<Rightarrow> await_shared (Guarded t) (cp_adelete_thread c t)))
       (\<lambda>e. case e of
              TimeoutError \<Rightarrow> Some (Inl (HTTPException 504 ''Thread deletion timed out''))
            | NotImplementedError \<Rightarrow>
                Some (Inl (HTTPException 501 ''Configured checkpointer does not support thread deletion''))
            | _ \<Rightarrow> None)) (\<lambda>_.
       await_shared (Guarded t) (so_delete_thread (get_thread_store cfg) t))"

definition delete_thread_task :: "('e \<Rightarrow> bool) \<Rightarrow> string \<Rightarrow> 'e server_config \<Rightarrow> (phase, 'e world, unit) task" where
  "delete_thread_task late t cfg = with_lease_task t (delete_under_lease_task late t cfg)"

definition get_history_task ::
  "route_libs \<Rightarrow> request_inputs \<Rightarrow> string \<Rightarrow> history_request \<Rightarrow> 'e server_config \<Rightarrow> (phase, 'e world, thread_state list) task" where
  "get_history_task R rq t request cfg =
     bind_task (finished (require_checkpointer (get_checkpointer cfg))) (\<lambda>saver.
     bind_task (raise_task (wrong_thread t (hr_checkpoint request)) thread_mismatch) (\<lambda>_.
     let ns = (case hr_checkpoint request of None \<Rightarrow> [] | Some c \<Rightarrow> ref_checkpoint_ns c) in
     bind_task (finished (history_before t ns (hr_before request))) (\<lambda>before_config.
     bind_task (await_shared Free (cp_alist saver (Some (lookup_config t None ns)) (hr_metadata request) before_config
         (Some (hr_limit request)))) (\<lambda>items.
       finished (states_of_tuples (py_str (rl_text R)) (rq_uuid rq) (rq_now_iso rq) t items)))))"


section \<open>Handlers of runs\<close>

definition resolve_run_thread_task ::
  "route_libs \<Rightarrow> request_inputs \<Rightarrow> string \<Rightarrow> run_create \<Rightarrow> 'e server_config \<Rightarrow> (phase, 'e world, 'e assistant_config) task" where
  "resolve_run_thread_task R rq t request cfg =
     (let C = get_checkpointer cfg; S = get_thread_store cfg in
      bind_task (finished (get_assistant_config cfg (rc_assistant_id request))) (\<lambda>a.
      bind_task (if rc_if_not_exists request = Some ''reject'' then thread_exists_task Free R rq t C S
                 else finished (Inr True)) (\<lambda>exists.
      bind_task (raise_task (\<not> exists) (thread_not_found t)) (\<lambda>_.
      bind_task (get_or_create_thread_task Free R rq (Some t) C S None) (\<lambda>_.
      bind_task (claim_thread_assistant_task Free t (ac_assistant_id a) C S) (\<lambda>_.
        finished (Inr a)))))))"

definition invoke_graph_task ::
  "string \<Rightarrow> (pyval \<Rightarrow> string) \<Rightarrow> 'e graph_ops \<Rightarrow> pydict \<Rightarrow> pydict \<Rightarrow> (phase, 'e world, pydict) task" where
  "invoke_graph_task t to_str graph input_payload runnable_config =
     (case g_ainvoke graph of
        Some async_invoke \<Rightarrow>
          bind_task (await_shared (Guarded t) (async_invoke input_payload runnable_config)) (\<lambda>resolved.
            finished (as_payload to_str resolved))
      | None \<Rightarrow> finished (Inl (TypeError ''checkpointed_graph_factory must return an async graph'')))"

definition invoke_under_lease_task ::
  "route_libs \<Rightarrow> ('e \<Rightarrow> bool) \<Rightarrow> 'e server_config \<Rightarrow> string \<Rightarrow> string \<Rightarrow> pydict \<Rightarrow> pydict \<Rightarrow> (phase, 'e world, pydict) task" where
  "invoke_under_lease_task R late cfg t a input_payload rc =
     try_task (timeout_task late (cfg_run_timeout_seconds cfg)
         (bind_task (finished (get_graph_runtime cfg a)) (\<lambda>graph.
            invoke_graph_task t (py_str (rl_text R)) graph input_payload rc)))
       (\<lambda>e. case e of
              TimeoutError \<Rightarrow> Some (Inl (HTTPException 504 ''Graph execution timed out''))
            | CheckpointCapacityError _ \<Rightarrow> Some (Inl (HTTPException 507 ''Checkpoint capacity exceeded''))
            | _ \<Rightarrow> None)"

definition create_run_task ::
  "route_libs \<Rightarrow> request_inputs \<Rightarrow> ('e \<Rightarrow> bool) \<Rightarrow> string \<Rightarrow> run_create \<Rightarrow> 'e server_config \<Rightarrow>
     (phase, 'e world, run_response) task" where
  "create_run_task R rq late t request cfg =
     (let unsupported = unsupported_sync_options request in
      bind_task (raise_task (unsupported \<noteq> [])
        (HTTPException 422 (''Unsupported options for non-streaming runs: '' @ join_strings '', '' unsupported))) (\<lambda>_.
      bind_task (resolve_run_thread_task R rq t request cfg) (\<lambda>a.
      bind_task (finished (prepare_input a (case rc_input request of None \<Rightarrow> [] | Some d \<Rightarrow> d))) (\<lambda>input_payload.
      bind_task (finished (build_runnable_config (rl_model_dump R) t (ac_assistant_id a) (rc_config request)
        (rc_checkpoint_id request))) (\<lambda>rc.
      bind_task (with_lease_task t (invoke_under_lease_task R late cfg t (ac_assistant_id a) input_payload rc)) (\<lambda>_.
        finished (Inr \<lparr>rr_run_id = rq_uuid rq 0, rr_thread_id = t, rr_assistant_id = ac_assistant_id a,
             rr_created_at = rq_now_iso rq, rr_updated_at = rq_now_iso rq, rr_status = ''success'',
             rr_metadata = (case rc_metadata request of None \<Rightarrow> [] | Some d \<Rightarrow> d)\<rparr>)))))))"

text \<open>
  The body of a streamed response under its lease. What the graph and the saver do while it runs is
  one operation here: its events, how it ended, and the state it left.
\<close>

definition stream_op :: "('e \<Rightarrow> bool) \<Rightarrow> rat option \<Rightarrow> 'e stream \<Rightarrow> ('e, exc, string list \<times> exc option) op" where
  "stream_op late seconds generator w =
     (case generator w of (events, ending, w') \<Rightarrow>
        (Inr (events, map_option (timeout_exc (late w') seconds) ending), w'))"

definition run_with_lease_task ::
  "text_libs \<Rightarrow> ('e \<Rightarrow> bool) \<Rightarrow> string \<Rightarrow> 'e stream \<Rightarrow> run_lease \<Rightarrow> rat option \<Rightarrow>
     (phase, 'e world, string list \<times> exc option) task" where
  "run_with_lease_task T late t generator lease seconds =
     finally_task
       (bind_task (await_shared (Guarded t) (stream_op late seconds generator)) (\<lambda>(events, left).
          finished (Inr (case left of
             Some TimeoutError \<Rightarrow> (events @ [server_event T ''error'' timeout_data], None)
           | _ \<Rightarrow> (events, left)))))
       (release_task lease)"

text \<open>
  A response as the ASGI server sends it: the client may be gone before the body is started. Whether
  the server runs the background task after a body that ended like that is up to it: \<open>bg\<close>.
\<close>

type_synonym body_end = "exc + (string list \<times> exc option)"

definition respond_task ::
  "text_libs \<Rightarrow> ('e \<Rightarrow> bool) \<Rightarrow> (body_end \<Rightarrow> bool) \<Rightarrow> string \<Rightarrow> 'e stream \<Rightarrow> run_lease \<Rightarrow> rat option \<Rightarrow>
     (phase, 'e world, string list \<times> exc option) task" where
  "respond_task T late bg t generator lease seconds =
     seq_task (bind_task (suspend Free) (\<lambda>_. run_with_lease_task T late t generator lease seconds)) (\<lambda>r.
       if bg r then seq_task (release_task lease) (\<lambda>_. finished r) else finished r)"

definition stream_run_with_thread_task ::
  "route_libs \<Rightarrow> request_inputs \<Rightarrow> ('e \<Rightarrow> bool) \<Rightarrow> (body_end \<Rightarrow> bool) \<Rightarrow> string \<Rightarrow> run_create \<Rightarrow> 'e server_config \<Rightarrow>
     (phase, 'e world, string list \<times> exc option) task" where
  "stream_run_with_thread_task R rq late bg t request cfg =
     bind_task (raise_task (rc_on_completion request \<noteq> None)
       (HTTPException 422 ''on_completion is supported only for stateless runs'')) (\<lambda>_.
     bind_task (resolve_run_thread_task R rq t request cfg) (\<lambda>a.
     bind_task (acquire_task t) (\<lambda>lease.
     bind_task (finished (get_graph_runtime cfg (ac_assistant_id a))) (\<lambda>graph.
       respond_task (rl_text R) late bg t (stream_generator R rq a request t graph (get_thread_store cfg)) lease
         (cfg_run_timeout_seconds cfg)))))"

text \<open>
  A stateless run: the thread store is its own, so that each of the two steps on it awaits the saver
  only.
\<close>

definition stream_run_stateless_task ::
  "'c storage_libs \<Rightarrow> (nat \<Rightarrow> rat) \<Rightarrow> route_libs \<Rightarrow> request_inputs \<Rightarrow> ('e \<Rightarrow> bool) \<Rightarrow> (body_end \<Rightarrow> bool) \<Rightarrow>
     run_create \<Rightarrow> 'e server_config \<Rightarrow> (phase, 'e world, string list \<times> exc option) task" where
  "stream_run_stateless_task L clock R rq late bg request cfg =
     (let t = rq_token rq; C = get_checkpointer cfg; C2 = map_option checkpointer_on_first C; S = ephemeral_store_ops L in
      bind_task (finished (get_assistant_config cfg (rc_assistant_id request))) (\<lambda>a.
      bind_task (raise_task (rc_if_not_exists request = Some ''reject'')
        (HTTPException 422 ''if_not_exists=reject is invalid for a stateless run'')) (\<lambda>_.
      bind_task (finished (ephemeral_store L clock)) (\<lambda>m.
      bind_task (await_shared Free (with_store m (get_or_create_thread R rq (Some t) C2 S None))) (\<lambda>(_, m).
      bind_task (await_shared Free (with_store m (claim_thread_assistant t (ac_assistant_id a) C2 S))) (\<lambda>(_, m).
      bind_task (acquire_task t) (\<lambda>lease.
      bind_task (finished (get_graph_runtime cfg (ac_assistant_id a))) (\<lambda>graph.
        respond_task (rl_text R) late bg t
          (delete_stateless_checkpoints
            (stream_with_store m (stream_generator R rq (assistant_on_first a) request t (graph_on_first graph) S)) C t)
          lease (cfg_run_timeout_seconds cfg)))))))))"


section \<open>Requests\<close>

datatype request =
    CreateThread thread_create
  | GetThread string
  | GetState string
  | GetStateCheckpoint string state_request
  | UpdateState string state_update
  | DeleteThread string
  | GetHistory string history_request
  | CreateRun string run_create
  | StreamRun string run_create
  | StreamStateless run_create

datatype answer =
    ThreadAnswer thread
  | StateAnswer thread_state
  | RefAnswer checkpoint_ref
  | NoContent
  | HistoryAnswer "thread_state list"
  | RunAnswer run_response
  | StreamAnswer "string list" "exc option"

text \<open>What a request brings with it: its ids and times, its deadline, and its ASGI server.\<close>

record 'e call =
  cl_request :: request
  cl_inputs :: request_inputs
  cl_late :: "'e \<Rightarrow> bool"
  cl_background :: "body_end \<Rightarrow> bool"

definition answer_task :: "('a \<Rightarrow> answer) \<Rightarrow> (phase, 'e world, 'a) task \<Rightarrow> (phase, 'e world, answer) task" where
  "answer_task f m = bind_task m (\<lambda>x. finished (Inr (f x)))"

definition handle_task ::
  "'c storage_libs \<Rightarrow> (nat \<Rightarrow> rat) \<Rightarrow> route_libs \<Rightarrow> 'e server_config \<Rightarrow> 'e call \<Rightarrow> (phase, 'e world, answer) task" where
  "handle_task L clock R cfg cl =
     (let rq = cl_inputs cl; late = cl_late cl; bg = cl_background cl in
      case cl_request cl of
        CreateThread b \<Rightarrow> answer_task ThreadAnswer (create_thread_task R rq b cfg)
      | GetThread t \<Rightarrow> answer_task ThreadAnswer (get_thread_task R rq t cfg)
      | GetState t \<Rightarrow> answer_task StateAnswer (get_state_task R rq t cfg)
      | GetStateCheckpoint t b \<Rightarrow> answer_task StateAnswer (get_state_checkpoint_task R rq t b cfg)
      | UpdateState t b \<Rightarrow> answer_task RefAnswer (update_state_task R rq late t b cfg)
      | DeleteThread t \<Rightarrow> answer_task (\<lambda>_. NoContent) (delete_thread_task late t cfg)
      | GetHistory t b \<Rightarrow> answer_task HistoryAnswer (get_history_task R rq t b cfg)
      | CreateRun t b \<Rightarrow> answer_task RunAnswer (create_run_task R rq late t b cfg)
      | StreamRun t b \<Rightarrow> answer_task (\<lambda>(events, left). StreamAnswer events left)
          (stream_run_with_thread_task R rq late bg t b cfg)
      | StreamStateless b \<Rightarrow> answer_task (\<lambda>(events, left). StreamAnswer events left)
          (stream_run_stateless_task L clock R rq late bg b cfg))"


section \<open>Facts\<close>

lemma shared_apply:
  "shared m w = (fst (m (sv_env (w_server w))), w\<lparr>w_server := (w_server w)\<lparr>sv_env := snd (m (sv_env (w_server w)))\<rparr>\<rparr>)"
  by (simp add: shared_def on_env_def on_part_def case_prod_unfold)

text \<open>The flags of a world are of leases that exist.\<close>

definition flags_ok :: "'e world \<Rightarrow> bool" where
  "flags_ok w \<longleftrightarrow> (\<forall>n \<in> set (w_flags w). n < next_token (sv_coordinator (w_server w)))"

text \<open>Requests and worlds of the examples.\<close>

definition demo_call :: "request \<Rightarrow> 'e call" where
  "demo_call b = \<lparr>cl_request = b, cl_inputs = demo_request, cl_late = (\<lambda>_. False), cl_background = (\<lambda>_. True)\<rparr>"

definition demo_world :: "list_cache environment server \<Rightarrow> list_cache environment world" where
  "demo_world s = \<lparr>w_server = s, w_flags = [], w_detached = []\<rparr>"

end
