(* ===== verification/TaskSimulation.thy ===== *)
theory TaskSimulation
  imports TaskRoutes
begin

text \<open>
  Tasks without disturbance. First the tasks that work on the environment only, which are equal to
  the operations of \<open>ThreadRoutes\<close> and \<open>RunRoutes\<close>; then the handlers, which take and return a lease:
  these simulate the handlers there, with the flags of the leases beside the server's state.
\<close>


section \<open>Undisturbed tasks on the environment\<close>

named_theorems shared_simps \<open>operations of the environment, lifted to the world\<close>

lemma shared_basic [shared_simps]:
  "shared (ret x) = ret x" "shared (raise e) = raise e" "shared (pure_op r) = pure_op r" "shared (raise_if b e) = raise_if b e"
  by (simp_all add: fun_eq_iff shared_apply ret_def raise_def pure_op_def raise_if_def)

lemma shared_bind [shared_simps]: "shared (bind_op m f) = bind_op (shared m) (\<lambda>x. shared (f x))"
  by (auto simp: fun_eq_iff shared_apply bind_op_def case_prod_unfold split: sum.split)

lemma shared_try [shared_simps]: "shared (try_op m h) = try_op (shared m) (\<lambda>e. map_option shared (h e))"
  by (auto simp: fun_eq_iff shared_apply try_op_def case_prod_unfold split: sum.split option.split)

lemma run_await_shared [run_simps]: "run_task (await_shared p m) = shared m"
  by (simp add: await_shared_def run_simps)

lemma run_reader: "run_task (\<lambda>s. Finished (f s)) s = (f s, s)"
  by (simp add: run_task_def)

lemma run_timeout:
  assumes "run_task m = shared n"
  shows "run_task (timeout_task late seconds m) = shared (timeout_op late seconds n)"
  by (simp add: fun_eq_iff timeout_task_def run_seq run_reader assms shared_apply timeout_op_def case_prod_unfold
      split: sum.split)

lemma pure_Inl: "pure_op (Inl e) = raise e" and pure_Inr: "pure_op (Inr x) = ret x"
  by (simp_all add: fun_eq_iff pure_op_def raise_def ret_def)

lemmas undisturbed_simps = run_simps shared_simps pure_Inl pure_Inr
  option.case_distrib [where h = run_task] option.case_distrib [where h = shared]
  if_distrib [where f = run_task] if_distrib [where f = shared]

lemma run_thread_from_checkpoint [run_simps]:
  "run_task (thread_from_checkpoint_task p R now t C) = shared (thread_from_checkpoint R now t C)"
  by (simp add: thread_from_checkpoint_task_def thread_from_checkpoint_def run_simps undisturbed_simps cong: option.case_cong if_cong)

lemma run_get_or_create_thread [run_simps]:
  "run_task (get_or_create_thread_task p R rq t C S md) = shared (get_or_create_thread R rq t C S md)"
  by (simp add: get_or_create_thread_task_def get_or_create_thread_def Let_def run_simps undisturbed_simps cong: option.case_cong if_cong)

lemma run_thread_exists [run_simps]: "run_task (thread_exists_task p R rq t C S) = shared (thread_exists R rq t C S)"
  by (simp add: thread_exists_task_def thread_exists_def run_simps undisturbed_simps cong: option.case_cong if_cong)

lemma run_get_thread_assistant_id [run_simps]:
  "run_task (get_thread_assistant_id_task p t C S) = shared (get_thread_assistant_id t C S)"
  unfolding get_thread_assistant_id_task_def get_thread_assistant_id_def
  by (cases C) (simp_all add: run_simps undisturbed_simps cong: option.case_cong if_cong)

lemma run_claim [run_simps]:
  "run_task (try_task (await_shared p (so_claim_assistant S t a)) conflict_response) =
     shared (try_op (so_claim_assistant S t a) (\<lambda>e.
       case e of ThreadAssistantConflictError m \<Rightarrow> Some (raise (HTTPException 409 m)) | _ \<Rightarrow> None))"
  unfolding run_simps shared_simps conflict_response_def
  by (rule arg_cong [where f = "try_op _"]) (auto simp: fun_eq_iff pure_Inl shared_simps split: exc.split)

lemma run_claim_thread_assistant [run_simps]:
  "run_task (claim_thread_assistant_task p t a C S) = shared (claim_thread_assistant t a C S)"
  unfolding claim_thread_assistant_task_def claim_thread_assistant_def
  by (simp add: run_simps undisturbed_simps del: run_try shared_try cong: option.case_cong if_cong)

lemma run_update_under_lease [run_simps]:
  "run_task (update_under_lease_task R rq late t request cfg saver) = shared (update_under_lease R rq late t request cfg saver)"
proof -
  have handled: "run_task (try_task (timeout_task late seconds (await_shared p m)) (\<lambda>e. case e of
       TimeoutError \<Rightarrow> Some (Inl x) | InvalidUpdateError m \<Rightarrow> Some (Inl (y m)) | _ \<Rightarrow> None)) =
     shared (try_op (timeout_op late seconds m) (\<lambda>e. case e of
       TimeoutError \<Rightarrow> Some (raise x) | InvalidUpdateError m \<Rightarrow> Some (raise (y m)) | _ \<Rightarrow> None))" for seconds p m x y
    unfolding run_try shared_try run_timeout [OF run_await_shared]
    by (rule arg_cong [where f = "try_op _"]) (auto simp: fun_eq_iff pure_Inl shared_simps split: exc.split)
  show ?thesis
    unfolding update_under_lease_task_def update_under_lease_def Let_def
    by (simp add: run_simps undisturbed_simps handled del: run_try shared_try cong: option.case_cong if_cong)
qed

lemma run_delete_under_lease [run_simps]:
  "run_task (delete_under_lease_task late t cfg) = shared (delete_under_lease late t cfg)"
proof -
  have handled: "run_task (try_task (timeout_task late seconds m) (\<lambda>e. case e of
       TimeoutError \<Rightarrow> Some (Inl x) | NotImplementedError \<Rightarrow> Some (Inl y) | _ \<Rightarrow> None)) =
     shared (try_op (timeout_op late seconds n) (\<lambda>e. case e of
       TimeoutError \<Rightarrow> Some (raise x) | NotImplementedError \<Rightarrow> Some (raise y) | _ \<Rightarrow> None))"
    if "run_task m = shared n" for seconds x y n and m :: "(phase, 'a world, unit) task"
    unfolding run_try shared_try run_timeout [OF that]
    by (rule arg_cong [where f = "try_op _"]) (auto simp: fun_eq_iff pure_Inl shared_simps split: exc.split)
  show ?thesis
    unfolding delete_under_lease_task_def delete_under_lease_def run_bind shared_bind run_await_shared
    by (subst handled) (simp_all add: run_simps undisturbed_simps cong: option.case_cong if_cong)
qed

lemma run_invoke_under_lease [run_simps]:
  "run_task (invoke_under_lease_task R late cfg t a input_payload rc) = shared (invoke_under_lease R late cfg a input_payload rc)"
proof -
  have invoked: "run_task (bind_task (finished (get_graph_runtime cfg a)) (\<lambda>graph.
        invoke_graph_task t (py_str (rl_text R)) graph input_payload rc)) =
      shared (bind_op (pure_op (get_graph_runtime cfg a)) (\<lambda>graph. invoke_graph (py_str (rl_text R)) graph input_payload rc))"
    by (simp add: invoke_graph_task_def invoke_graph_def run_simps undisturbed_simps cong: option.case_cong if_cong)
  show ?thesis
    unfolding invoke_under_lease_task_def invoke_under_lease_def run_try shared_try run_timeout [OF invoked]
    by (rule arg_cong [where f = "try_op _"]) (auto simp: fun_eq_iff pure_Inl shared_simps split: exc.split)
qed


section \<open>Undisturbed handlers\<close>

text \<open>
  A run of a task simulates an operation of the server: the same result and the same server; the
  flags it sets are of leases that exist, and it leaves no call of \<open>_release\<close> behind.
\<close>

definition matches :: "('e world, exc, 'a) op \<Rightarrow> ('e server, exc, 'a) op \<Rightarrow> 'e world \<Rightarrow> bool" where
  "matches m n w \<longleftrightarrow>
     flags_ok (snd (m w)) \<and> w_detached (snd (m w)) = w_detached w \<and>
     n (w_server w) = (fst (m w), w_server (snd (m w)))"

definition simulates :: "('e world, exc, 'a) op \<Rightarrow> ('e server, exc, 'a) op \<Rightarrow> bool" where
  "simulates m n \<longleftrightarrow> (\<forall>w. flags_ok w \<longrightarrow> matches m n w)"

named_theorems simulation \<open>simulations of operations by tasks\<close>

lemma simulates_basic [simulation]:
  "simulates (ret x) (ret x)" "simulates (pure_op r) (pure_op r)" "simulates (raise_if b e) (raise_if b e)"
  "simulates (raise e) (raise e)"
  by (simp_all add: simulates_def matches_def ret_def pure_op_def raise_if_def raise_def)

lemma simulates_shared [simulation]: "simulates (shared n) (on_env n)"
  by (simp add: simulates_def matches_def shared_apply flags_ok_def on_env_def on_part_def case_prod_unfold)

lemma matches_bind:
  assumes "matches m n w" "\<And>x. simulates (f x) (g x)"
  shows "matches (bind_op m f) (bind_op n g) w"
proof -
  obtain r v where m: "m w = (r, v)" by (rule prod.exhaust)
  have "matches (f x) (g x) v" for x using assms by (simp add: matches_def simulates_def m)
  then show ?thesis using assms(1) by (cases r) (simp_all add: matches_def bind_op_def m)
qed

lemma simulates_bind [simulation]:
  "simulates m n \<Longrightarrow> (\<And>x. simulates (f x) (g x)) \<Longrightarrow> simulates (bind_op m f) (bind_op n g)"
  unfolding simulates_def [of m n] simulates_def [of "bind_op m f"] by (intro allI impI matches_bind) auto

lemma simulates_try:
  assumes "simulates m n" "\<And>e. rel_option simulates (h e) (h' e)"
  shows "simulates (try_op m h) (try_op n h')"
  unfolding simulates_def
proof (intro allI impI)
  fix w :: "'a world" assume w: "flags_ok w"
  obtain r v where m: "m w = (r, v)" by (rule prod.exhaust)
  have mn: "matches m n w" using assms(1) w by (simp add: simulates_def)
  show "matches (try_op m h) (try_op n h') w"
  proof (cases r)
    case (Inl e)
    show ?thesis
    proof (cases "h e")
      case None
      then have "h' e = None" using assms(2) [of e] by simp
      then show ?thesis using mn by (simp add: matches_def try_op_def m Inl None)
    next
      case (Some k)
      then obtain k' where k: "h' e = Some k'" "simulates k k'" using assms(2) [of e] by (auto simp: option_rel_Some1)
      then have "matches k k' v" using mn by (simp add: matches_def simulates_def m)
      then show ?thesis using mn by (simp add: matches_def try_op_def m Inl Some k(1))
    qed
  qed (use mn in \<open>simp add: matches_def try_op_def m\<close>)
qed

lemma simulates_if [simulation]:
  "simulates m n \<Longrightarrow> simulates m' n' \<Longrightarrow> simulates (if c then m else m') (if c then n else n')"
  by simp

lemma simulates_case_prod [simulation]:
  "(\<And>x y. simulates (f x y) (g x y)) \<Longrightarrow> simulates (case p of (x, y) \<Rightarrow> f x y) (case p of (x, y) \<Rightarrow> g x y)"
  by (simp add: case_prod_unfold)


text \<open>The lease between \<open>acquire\<close> and \<open>release\<close>.\<close>

definition unreleased :: "run_lease \<Rightarrow> 'e world \<Rightarrow> bool" where
  "unreleased l w \<longleftrightarrow> \<not> lease_released l \<and> lease_token l \<notin> set (w_flags w) \<and>
     lease_token l < next_token (sv_coordinator (w_server w))"

lemma simulates_acquire:
  assumes "\<And>l w. flags_ok w \<Longrightarrow> unreleased l w \<Longrightarrow> matches (f l) (g l) w"
  shows "simulates (bind_op (run_task (acquire_task t)) f) (bind_op (acquire_lease t) g)"
  unfolding simulates_def
proof (intro allI impI)
  fix w :: "'a world" assume w: "flags_ok w"
  have run: "run_task (acquire_task t) w = (case acquire_lease t (w_server w) of (r, s) \<Rightarrow> (r, w\<lparr>w_server := s\<rparr>))"
    by (simp add: run_task_def acquire_task_def split: prod.split)
  show "matches (bind_op (run_task (acquire_task t)) f) (bind_op (acquire_lease t) g) w"
  proof (cases rule: acquire_lease_cases [of "w_server w" t])
    case (granted l c')
    note c' = acquire_Inr [OF granted(2)]
    let ?v = "w\<lparr>w_server := (w_server w)\<lparr>sv_coordinator := c'\<rparr>\<rparr>"
    have "flags_ok ?v" using w by (auto simp: flags_ok_def c'(4) less_SucI)
    moreover have "unreleased l ?v" using w by (auto simp: unreleased_def c'(3,4) flags_ok_def)
    ultimately have "matches (f l) (g l) ?v" by (rule assms)
    then show ?thesis by (simp add: matches_def bind_op_def run granted(3))
  qed (use w in \<open>simp_all add: matches_def bind_op_def run\<close>)
qed

lemma run_release:
  assumes "unreleased l w"
  shows "run_task (release_task l) w =
    (Inr (), w\<lparr>w_server := snd (release_op l (w_server w)), w_flags := lease_token l # w_flags w\<rparr>)"
  using assms by (simp add: run_task_def release_task_def unreleased_def free_slot_def release_op_eq lease_release_def)

lemma run_release_again: "lease_token l \<in> set (w_flags w) \<Longrightarrow> run_task (release_task l) w = (Inr (), w)"
  by (simp add: run_task_def release_task_def)

lemma release_token_twice: "release_token t n (release_token t n c) = release_token t n c"
  by (simp add: release_token_def dict_get_pop)

lemma matches_finally_release:
  assumes "flags_ok w" "unreleased l w"
  shows "matches (finally_op (shared n) (run_task (release_task l))) (finally_op (on_env n) (release_op l)) w"
proof -
  obtain r v where n: "n (sv_env (w_server w)) = (r, v)" by (rule prod.exhaust)
  have "unreleased l (w\<lparr>w_server := (w_server w)\<lparr>sv_env := v\<rparr>\<rparr>)" using assms(2) by (simp add: unreleased_def)
  from run_release [OF this] show ?thesis
    using assms
    by (auto simp: matches_def finally_op_def shared_apply n on_env_def on_part_def release_op_eq flags_ok_def
        unreleased_def lease_release_def)
qed

lemma simulates_with_lease:
  assumes "run_task b = shared n"
  shows "simulates (run_task (with_lease_task t b)) (with_lease t (on_env n))"
  unfolding with_lease_task_def with_lease_def run_simps assms
  by (rule simulates_acquire) (rule matches_finally_release)

text \<open>A response, as the ASGI server runs it: its body, then its background task.\<close>

definition respond ::
  "(body_end \<Rightarrow> bool) \<Rightarrow> 'e streaming_response \<Rightarrow> ('e server, exc, string list \<times> exc option) op" where
  "respond bg resp s =
     (case resp_body resp s of (events, left, s1) \<Rightarrow>
        (Inr (events, left), if bg (Inr (events, left)) then snd (release_op (resp_background resp) s1) else s1))"

lemma matches_respond:
  assumes "flags_ok w" "unreleased l w"
  shows "matches (run_task (respond_task T late bg t generator l seconds))
    (respond bg (create_streaming_response (run_with_lease T late generator l seconds) l)) w"
proof -
  obtain events ending v where g: "generator (sv_env (w_server w)) = (events, ending, v)" by (rule prod_cases3)
  let ?left = "map_option (timeout_exc (late v) seconds) ending"
  let ?answer = "case ?left of Some TimeoutError \<Rightarrow> (events @ [server_event T ''error'' timeout_data], None) | _ \<Rightarrow> (events, ?left)"
  let ?w = "w\<lparr>w_server := (w_server w)\<lparr>sv_env := v\<rparr>\<rparr>"
  let ?done = "?w\<lparr>w_server := snd (release_op l (w_server ?w)), w_flags := lease_token l # w_flags w\<rparr>"
  have "unreleased l ?w" using assms(2) by (simp add: unreleased_def)
  note release = run_release [OF this]
  have body: "run_task (run_with_lease_task T late t generator l seconds) w = (Inr ?answer, ?done)"
    by (simp add: run_with_lease_task_def run_simps finally_op_def bind_op_def shared_apply stream_op_def g pure_op_def
        release)
  have task: "run_task (respond_task T late bg t generator l seconds) w = (Inr ?answer, ?done)"
    by (simp add: respond_task_def run_seq run_simps bind_op_def ret_def body run_release_again pure_op_def)
  have "run_with_lease T late generator l seconds (w_server w) =
      (fst ?answer, snd ?answer, snd (release_op l (w_server ?w)))"
    by (simp add: run_with_lease_def g Let_def split: option.split exc.split)
  then have server: "respond bg (create_streaming_response (run_with_lease T late generator l seconds) l) (w_server w) =
      (Inr ?answer, if bg (Inr ?answer) then snd (release_op l (snd (release_op l (w_server ?w)))) else snd (release_op l (w_server ?w)))"
    by (simp add: respond_def create_streaming_response_def)
  show ?thesis
    using assms by (auto simp: matches_def task server flags_ok_def unreleased_def release_op_eq lease_release_def release_token_twice)
qed


text \<open>The handlers. A streaming one goes on with the response it returns.\<close>

lemma bind_op_assoc: "bind_op (bind_op m f) g = bind_op m (\<lambda>x. bind_op (f x) g)"
  by (auto simp: fun_eq_iff bind_op_def split: prod.split sum.split)

lemma bind_op_ret: "bind_op (ret x) f = f x"
  by (simp add: fun_eq_iff bind_op_def ret_def)

lemma simulates_run_bind [simulation]:
  "simulates (run_task m) n \<Longrightarrow> (\<And>x. simulates (run_task (f x)) (g x)) \<Longrightarrow>
   simulates (run_task (bind_task m f)) (bind_op n g)"
  unfolding run_simps by (rule simulates_bind)

lemma simulates_run_basic [simulation]:
  "simulates (run_task (finished (Inr x))) (ret x)" "simulates (run_task (finished (Inl e))) (raise e)"
  "simulates (run_task (finished r)) (pure_op r)" "simulates (run_task (raise_task b e)) (raise_if b e)"
  "simulates (run_task (await_shared p n)) (on_env n)"
  unfolding run_simps pure_Inl pure_Inr by (rule simulates_basic simulates_shared)+

lemma simulates_run_shared: "run_task m = shared n \<Longrightarrow> simulates (run_task m) (on_env n)"
  by (simp add: simulates_shared)

lemmas simulates_parts [simulation] = simulates_run_shared [OF run_thread_exists]
  simulates_run_shared [OF run_get_or_create_thread] simulates_run_shared [OF run_thread_from_checkpoint]
  simulates_run_shared [OF run_claim_thread_assistant]
  simulates_with_lease [OF run_update_under_lease] simulates_with_lease [OF run_delete_under_lease]
  simulates_with_lease [OF run_invoke_under_lease]

lemma simulates_run_try:
  assumes "simulates (run_task m) n" "\<And>e. h' e = map_option pure_op (h e)"
  shows "simulates (run_task (try_task m h)) (try_op n h')"
  unfolding run_simps
  by (rule simulates_try [OF assms(1)]) (simp add: assms(2) option.rel_map simulates_basic option.rel_refl)

lemma simulates_run_if [simulation]:
  "simulates (run_task m) n \<Longrightarrow> simulates (run_task m') n' \<Longrightarrow> simulates (run_task (if c then m else m')) (if c then n else n')"
  by simp

lemma simulates_create_thread [simulation]:
  "simulates (run_task (create_thread_task R rq request cfg)) (create_thread R rq request cfg)"
  unfolding create_thread_task_def create_thread_def Let_def
  by (intro simulation simulates_run_try) (auto simp: pure_Inl split: exc.split)

lemma simulates_get_thread [simulation]:
  "simulates (run_task (get_thread_task R rq t cfg)) (get_thread R rq t cfg)"
  unfolding get_thread_task_def get_thread_def Let_def by (intro simulation)

lemma simulates_get_state [simulation]:
  "simulates (run_task (get_state_task R rq t cfg)) (get_state R rq t cfg)"
  unfolding get_state_task_def get_state_def by (intro simulation)

lemma simulates_get_state_checkpoint [simulation]:
  "simulates (run_task (get_state_checkpoint_task R rq t request cfg)) (get_state_checkpoint R rq t request cfg)"
  unfolding get_state_checkpoint_task_def get_state_checkpoint_def Let_def
  by (intro simulation simulates_run_try) (simp add: pure_Inl)

lemma simulates_update_state [simulation]:
  "simulates (run_task (update_state_task R rq late t request cfg)) (update_state R rq late t request cfg)"
  unfolding update_state_task_def update_state_def by (intro simulation)

lemma simulates_delete_thread [simulation]:
  "simulates (run_task (delete_thread_task late t cfg)) (delete_thread_route late t cfg)"
  unfolding delete_thread_task_def delete_thread_route_def by (intro simulation)

lemma simulates_get_history [simulation]:
  "simulates (run_task (get_history_task R rq t request cfg)) (get_history R rq t request cfg)"
  unfolding get_history_task_def get_history_def Let_def by (intro simulation)

lemma simulates_resolve [simulation]:
  "simulates (run_task (resolve_run_thread_task R rq t request cfg)) (resolve_run_thread R rq t request cfg)"
  unfolding resolve_run_thread_task_def resolve_run_thread_def Let_def by (intro simulation)

lemma simulates_create_run [simulation]:
  "simulates (run_task (create_run_task R rq late t request cfg)) (create_run R rq late t request cfg)"
  unfolding create_run_task_def create_run_def Let_def by (intro simulation)

lemma simulates_streaming:
  "simulates
     (run_task (bind_task (acquire_task t) (\<lambda>l. bind_task (finished r) (\<lambda>g. respond_task T late bg t (gen g) l seconds))))
     (bind_op (acquire_run_lease t) (\<lambda>l. bind_op (pure_op r) (\<lambda>g.
        respond bg (create_streaming_response (run_with_lease T late (gen g) l seconds) l))))"
  unfolding acquire_run_lease_def run_bind [of "acquire_task t"]
proof (rule simulates_acquire)
  fix l and w :: "'a world" assume "flags_ok w" "unreleased l w"
  from matches_respond [OF this]
  show "matches (run_task (bind_task (finished r) (\<lambda>g. respond_task T late bg t (gen g) l seconds)))
     (bind_op (pure_op r) (\<lambda>g. respond bg (create_streaming_response (run_with_lease T late (gen g) l seconds) l))) w"
    using \<open>flags_ok w\<close> by (cases r) (simp_all add: run_simps matches_def bind_op_def pure_op_def)
qed

lemma simulates_stream_run [simulation]:
  "simulates (run_task (stream_run_with_thread_task R rq late bg t request cfg))
     (bind_op (stream_run_with_thread R rq late t request cfg) (respond bg))"
  unfolding stream_run_with_thread_task_def stream_run_with_thread_def stream_response_def bind_op_assoc bind_op_ret
  by (intro simulation simulates_streaming)

lemma simulates_run_case_prod [simulation]:
  "(\<And>x y. simulates (run_task (f x y)) (g x y)) \<Longrightarrow>
   simulates (run_task (case p of (x, y) \<Rightarrow> f x y)) (case p of (x, y) \<Rightarrow> g x y)"
  by (simp add: case_prod_unfold)

lemma bind_op_case_prod: "bind_op (case p of (x, y) \<Rightarrow> f x y) g = (case p of (x, y) \<Rightarrow> bind_op (f x y) g)"
  by (simp add: case_prod_unfold)

lemma simulates_stateless [simulation]:
  "simulates (run_task (stream_run_stateless_task L clock R rq late bg request cfg))
     (bind_op (stream_run_stateless L clock R rq late request cfg) (respond bg))"
  unfolding stream_run_stateless_task_def stream_run_stateless_def Let_def bind_op_assoc bind_op_ret bind_op_case_prod
  by (intro simulation simulates_streaming)


section \<open>Requests\<close>

definition answer_op :: "('a \<Rightarrow> answer) \<Rightarrow> ('e server, exc, 'a) op \<Rightarrow> ('e server, exc, answer) op" where
  "answer_op f m = bind_op m (\<lambda>x. ret (f x))"

text \<open>The handlers of \<open>ThreadRoutes\<close> and \<open>RunRoutes\<close>, one at a time, with the response they lead to.\<close>

definition handle_request ::
  "'c storage_libs \<Rightarrow> (nat \<Rightarrow> rat) \<Rightarrow> route_libs \<Rightarrow> 'e server_config \<Rightarrow> 'e call \<Rightarrow> ('e server, exc, answer) op" where
  "handle_request L clock R cfg cl =
     (let rq = cl_inputs cl; late = cl_late cl; bg = cl_background cl in
      case cl_request cl of
        CreateThread b \<Rightarrow> answer_op ThreadAnswer (create_thread R rq b cfg)
      | GetThread t \<Rightarrow> answer_op ThreadAnswer (get_thread R rq t cfg)
      | GetState t \<Rightarrow> answer_op StateAnswer (get_state R rq t cfg)
      | GetStateCheckpoint t b \<Rightarrow> answer_op StateAnswer (get_state_checkpoint R rq t b cfg)
      | UpdateState t b \<Rightarrow> answer_op RefAnswer (update_state R rq late t b cfg)
      | DeleteThread t \<Rightarrow> answer_op (\<lambda>_. NoContent) (delete_thread_route late t cfg)
      | GetHistory t b \<Rightarrow> answer_op HistoryAnswer (get_history R rq t b cfg)
      | CreateRun t b \<Rightarrow> answer_op RunAnswer (create_run R rq late t b cfg)
      | StreamRun t b \<Rightarrow> answer_op (\<lambda>(events, left). StreamAnswer events left)
          (bind_op (stream_run_with_thread R rq late t b cfg) (respond bg))
      | StreamStateless b \<Rightarrow> answer_op (\<lambda>(events, left). StreamAnswer events left)
          (bind_op (stream_run_stateless L clock R rq late b cfg) (respond bg)))"

lemma simulates_answer [simulation]: "simulates (run_task m) n \<Longrightarrow> simulates (run_task (answer_task f m)) (answer_op f n)"
  unfolding answer_task_def answer_op_def by (intro simulation)

lemma simulates_request: "simulates (run_task (handle_task L clock R cfg cl)) (handle_request L clock R cfg cl)"
  unfolding handle_task_def handle_request_def Let_def by (cases "cl_request cl") (simp_all add: simulation)




end
