(* ===== verification/Concurrency.thy ===== *)
theory Concurrency
  imports TaskRoutes "HOL-Library.Multiset"
begin

text \<open>
  Any number of requests at once. Each is a task of \<open>TaskRoutes\<close>; they arrive, are resumed and
  cancelled in any order, and between two resumptions of a task anything may happen to the
  environment. First what a task does to the leases, by a ticket that says where it stands; then
  the system, its invariant, and what follows: one mutation per thread at a time, no slot that is
  lost, and an end to the work.
\<close>


section \<open>Tickets\<close>

text \<open>
  The lease of a task, by thread and token: not taken yet, held, or given up to \<open>_release\<close>. A ticket
  fits the world when the slot of a held lease is taken and its flag is not set.
\<close>

datatype ticket = NoLease | Holding string nat | Spent string nat

abbreviation w_coordinator :: "'e world \<Rightarrow> coordinator" where
  "w_coordinator w \<equiv> sv_coordinator (w_server w)"

definition fits :: "ticket \<Rightarrow> 'e world \<Rightarrow> bool" where
  "fits h w \<longleftrightarrow> flags_ok w \<and>
     (case h of
        NoLease \<Rightarrow> True
      | Holding t n \<Rightarrow> dict_get (active (w_coordinator w)) t = Some n \<and> n \<notin> set (w_flags w) \<and> n < next_token (w_coordinator w)
      | Spent t n \<Rightarrow> n < next_token (w_coordinator w))"

definition holding :: "ticket \<Rightarrow> bool" where
  "holding h \<longleftrightarrow> (\<exists>t n. h = Holding t n)"

definition lease_guard :: "phase \<Rightarrow> ticket \<Rightarrow> bool" where
  "lease_guard p h \<longleftrightarrow> (case p of Guarded t \<Rightarrow> \<exists>n. h = Holding t n | _ \<Rightarrow> True)"

definition same_leases :: "'e world \<Rightarrow> 'e world \<Rightarrow> bool" where
  "same_leases w w' \<longleftrightarrow>
     w_coordinator w' = w_coordinator w \<and> w_flags w' = w_flags w \<and> w_detached w' = w_detached w"

definition ticket_of :: "string \<Rightarrow> nat \<Rightarrow> ticket \<Rightarrow> bool" where
  "ticket_of t n h \<longleftrightarrow> h = Holding t n \<or> h = Spent t n"

inductive lease_move :: "phase \<Rightarrow> ticket \<Rightarrow> 'e world \<Rightarrow> 'e world \<Rightarrow> ticket \<Rightarrow> bool" where
  move_stay: "same_leases w w' \<Longrightarrow> lease_move p h w w' h"
| move_acquire:
    "acquire t (w_coordinator w) = (Inr l, c) \<Longrightarrow>
     lease_move Locking NoLease w (w\<lparr>w_server := (w_server w)\<lparr>sv_coordinator := c\<rparr>\<rparr>) (Holding t (lease_token l))"
| move_free: "ticket_of t n h \<Longrightarrow> lease_move Unlocking h w (free_slot t n w) (Spent t n)"
| move_detach: "ticket_of t n h \<Longrightarrow> lease_move Unlocking h w (w\<lparr>w_detached := (t, n) # w_detached w\<rparr>) (Spent t n)"
| move_flag: "lease_move Unlocking (Spent t n) w (w\<lparr>w_flags := n # w_flags w\<rparr>) (Spent t n)"

interpretation leases: discipline fits lease_guard lease_move
proof
  fix h h' :: ticket and w w' :: "'e world" and p
  assume "fits h w" "lease_move p h w w' h'"
  from this(2,1) show "fits h' w'"
  proof (induction rule: lease_move.induct)
    case (move_stay w w' p h)
    then show ?case by (auto simp: fits_def same_leases_def flags_ok_def split: ticket.splits)
  next
    case (move_acquire t w l c)
    then show ?case using acquire_Inr(3,4) [OF move_acquire(1)]
      by (auto simp: fits_def flags_ok_def dict_get_set less_SucI)
  next
    case (move_free t n h w)
    then show ?case by (auto simp: fits_def flags_ok_def free_slot_def ticket_of_def)
  next
    case (move_detach t n h w)
    then show ?case by (auto simp: fits_def flags_ok_def ticket_of_def)
  qed (auto simp: fits_def flags_ok_def)
qed


section \<open>The discipline of the handlers\<close>

text \<open>Tasks that never touch a lease keep their ticket.\<close>

abbreviation steady :: "ticket \<Rightarrow> (phase, 'e world, 'a) task \<Rightarrow> bool" where
  "steady \<equiv> leases.steady"

lemma steady_timeout [steady_intros]: "steady h m \<Longrightarrow> steady h (timeout_task late seconds m)"
  unfolding timeout_task_def by (intro leases.steady_seq leases.steady_reader)

lemma same_leases_refl [simp]: "same_leases w w"
  by (simp add: same_leases_def)

lemma same_leases_shared: "same_leases w (snd (shared m w))"
  by (simp add: same_leases_def shared_apply)

lemma steady_await [steady_intros]: "lease_guard p h \<Longrightarrow> steady h (await_shared p m)"
  unfolding leases.steady_def await_shared_def
  by (rule leases.await_ok) (auto intro: move_stay same_leases_shared)

lemma steady_suspend [steady_intros]: "lease_guard p h \<Longrightarrow> steady h (suspend p)"
  unfolding leases.steady_def by (rule leases.suspend_ok) (auto intro: move_stay)

lemma guards [steady_intros]: "lease_guard Free h" "lease_guard (Guarded t) (Holding t n)"
  by (simp_all add: lease_guard_def)

lemma steady_thread_from_checkpoint [steady_intros]:
  "lease_guard p h \<Longrightarrow> steady h (thread_from_checkpoint_task p R now t C)"
  unfolding thread_from_checkpoint_task_def by (intro steady_intros)

lemma steady_get_or_create_thread [steady_intros]:
  "lease_guard p h \<Longrightarrow> steady h (get_or_create_thread_task p R rq t C S md)"
  unfolding get_or_create_thread_task_def Let_def by (intro steady_intros)

lemma steady_thread_exists [steady_intros]: "lease_guard p h \<Longrightarrow> steady h (thread_exists_task p R rq t C S)"
  unfolding thread_exists_task_def by (intro steady_intros)

lemma steady_get_thread_assistant_id [steady_intros]:
  "lease_guard p h \<Longrightarrow> steady h (get_thread_assistant_id_task p t C S)"
  unfolding get_thread_assistant_id_task_def by (intro steady_intros)

lemma steady_claim_thread_assistant [steady_intros]:
  "lease_guard p h \<Longrightarrow> steady h (claim_thread_assistant_task p t a C S)"
  unfolding claim_thread_assistant_task_def by (intro steady_intros)

lemma steady_handlers [steady_intros]:
  "steady h (create_thread_task R rq b cfg)"
  "steady h (get_thread_task R rq t cfg)"
  "steady h (get_state_task R rq t cfg)"
  "steady h (get_state_checkpoint_task R rq t sr cfg)"
  "steady h (get_history_task R rq t hr cfg)"
  unfolding create_thread_task_def get_thread_task_def get_state_task_def get_state_checkpoint_task_def
    get_history_task_def Let_def by (intro steady_intros)+

lemma steady_under_lease [steady_intros]:
  "steady (Holding t n) (update_under_lease_task R rq late t su cfg saver)"
  "steady (Holding t n) (delete_under_lease_task late t cfg)"
  "steady (Holding t n) (invoke_under_lease_task R late cfg t a p rc)"
  unfolding update_under_lease_task_def delete_under_lease_task_def invoke_under_lease_task_def invoke_graph_task_def Let_def
  by (intro steady_intros)+


text \<open>The lease: taken without a suspension after it, and spent once \<open>release\<close> is under way.\<close>

definition taken :: "string \<Rightarrow> exc + run_lease \<Rightarrow> ticket \<Rightarrow> bool" where
  "taken t r h \<longleftrightarrow> (case r of Inl _ \<Rightarrow> h = NoLease | Inr l \<Rightarrow> lease_thread l = t \<and> h = Holding t (lease_token l))"

lemma acquire_disciplined: "leases.task_ok (taken t) NoLease (acquire_task t)"
  unfolding disciplined_task_def acquire_task_def
proof (intro allI impI disc_suspended)
  fix c and w :: "'a world"
  show "lease_guard Locking NoLease" by (simp add: lease_guard_def)
  show "\<exists>h'. lease_move Locking NoLease w (snd (if c then (Finished (Inl CancelledError), w)
        else case acquire_lease t (w_server w) of (r, s) \<Rightarrow> (Finished r, w\<lparr>w_server := s\<rparr>))) h' \<and>
      disciplined fits lease_guard lease_move (taken t) h' (fst (if c then (Finished (Inl CancelledError), w)
        else case acquire_lease t (w_server w) of (r, s) \<Rightarrow> (Finished r, w\<lparr>w_server := s\<rparr>)))"
  proof (cases c)
    case False
    show ?thesis
    proof (cases rule: acquire_lease_cases [of "w_server w" t])
      case (granted l c')
      then show ?thesis using False acquire_Inr(3) [OF granted(2)] move_acquire [OF granted(2)]
        by (auto simp: taken_def disc_finished_iff)
    qed (use False in \<open>auto simp: taken_def disc_finished_iff intro: move_stay\<close>)
  qed (auto simp: taken_def disc_finished_iff intro: move_stay)
qed

lemma release_disciplined:
  assumes "ticket_of (lease_thread l) (lease_token l) h"
  shows "leases.task_ok (\<lambda>_ h'. h' = Spent (lease_thread l) (lease_token l)) h (release_task l)"
proof -
  have spent: "h = Spent (lease_thread l) (lease_token l)" if "fits h w" "lease_token l \<in> set (w_flags w)" for w :: "'a world"
    using that assms by (auto simp: fits_def ticket_of_def)
  have "lease_guard Unlocking h'" for h' by (simp add: lease_guard_def)
  then show ?thesis
    using spent move_free [OF assms] move_detach [OF assms]
    by (auto simp: disciplined_task_def release_task_def disc_finished_iff disc_suspended_iff free_slot_def
        intro!: exI [of _ "Spent (lease_thread l) (lease_token l)"] intro: move_stay move_flag)
qed

lemma with_lease_disciplined:
  assumes "\<And>n. steady (Holding t n) body"
  shows "leases.task_ok (\<lambda>_ h. \<not> holding h) NoLease (with_lease_task t body)"
  unfolding with_lease_task_def
proof (rule leases.bind_ok [OF acquire_disciplined])
  fix l h assume h: "taken t (Inr l) h"
  then have t: "lease_thread l = t" "ticket_of (lease_thread l) (lease_token l) h" by (auto simp: taken_def ticket_of_def)
  have "leases.task_ok (\<lambda>_ h'. h' = h) h body" using assms h by (simp add: leases.steady_def taken_def)
  then show "leases.task_ok (\<lambda>_ h. \<not> holding h) h (finally_task body (release_task l))"
    by (rule leases.finally_ok) (auto simp: holding_def intro: disciplined_weaken [OF release_disciplined] t)
qed (auto simp: taken_def holding_def)


text \<open>
  What a handler owes at its end. A streamed response that is abandoned before its body is started
  has only the background task to give its lease back, so the server has to run it after a
  cancelled body; and a lease is taken before the graph is looked up, so an assistant of the
  registry must have one.
\<close>

definition gives_back :: "'e server_config \<Rightarrow> (body_end \<Rightarrow> bool) \<Rightarrow> ticket \<Rightarrow> bool" where
  "gives_back cfg bg h \<longleftrightarrow> config_consistent cfg \<and> (\<forall>e. bg (Inl e)) \<longrightarrow> \<not> holding h"

lemma gives_back_free [simp]: "gives_back cfg bg NoLease" "gives_back cfg bg (Spent t n)"
  by (simp_all add: gives_back_def holding_def)

lemma after_steady:
  "steady h m \<Longrightarrow> (\<And>x. leases.task_ok post h (f x)) \<Longrightarrow> (\<And>e. post (Inl e) h) \<Longrightarrow> leases.task_ok post h (bind_task m f)"
  unfolding leases.steady_def by (rule leases.bind_ok [where post = "\<lambda>_ h'. h' = h"]) auto

lemma steady_gives_back: "steady NoLease m \<Longrightarrow> leases.task_ok (\<lambda>_. gives_back cfg bg) NoLease m"
  unfolding leases.steady_def by (erule disciplined_weaken) simp

lemma under_lease_gives_back:
  assumes "\<And>n. steady (Holding t n) body" "\<And>x h. \<not> holding h \<Longrightarrow> steady h (f x)"
  shows "leases.task_ok (\<lambda>_. gives_back cfg bg) NoLease (bind_task (with_lease_task t body) f)"
proof (rule leases.bind_ok [OF with_lease_disciplined [OF assms(1)]])
  show "leases.task_ok (\<lambda>_. gives_back cfg bg) h (f x)" if "\<not> holding h" for x h
    by (rule disciplined_weaken [OF assms(2) [OF that, unfolded leases.steady_def]]) (simp add: gives_back_def that)
qed (simp add: gives_back_def)

text \<open>Streamed responses.\<close>

lemma run_with_lease_disciplined:
  "leases.task_ok (\<lambda>_ h. h = Spent (lease_thread l) (lease_token l)) (Holding (lease_thread l) (lease_token l))
     (run_with_lease_task T late (lease_thread l) generator l seconds)"
  unfolding run_with_lease_task_def
proof (rule leases.finally_ok)
  show "leases.task_ok (\<lambda>_ h. h = Holding (lease_thread l) (lease_token l)) (Holding (lease_thread l) (lease_token l))
     (bind_task (await_shared (Guarded (lease_thread l)) (stream_op late seconds generator)) (\<lambda>(events, left).
        finished (Inr (case left of
             Some TimeoutError \<Rightarrow> (events @ [server_event T ''error'' timeout_data], None)
           | _ \<Rightarrow> (events, left)))))"
    unfolding leases.steady_def [symmetric] by (intro steady_intros)
qed (auto intro: release_disciplined simp: ticket_of_def)

lemma respond_disciplined:
  "leases.task_ok (\<lambda>_. gives_back cfg bg) (Holding (lease_thread l) (lease_token l))
     (respond_task T late bg (lease_thread l) generator l seconds)"
  unfolding respond_task_def
proof (rule leases.seq_ok)
  let ?H = "Holding (lease_thread l) (lease_token l)" and ?S = "Spent (lease_thread l) (lease_token l)"
  show "leases.task_ok (\<lambda>r h. h = ?S \<or> h = ?H \<and> isl r) ?H
      (bind_task (suspend Free) (\<lambda>_. run_with_lease_task T late (lease_thread l) generator l seconds))"
    by (rule after_steady) (auto intro: steady_intros disciplined_weaken [OF run_with_lease_disciplined])
  show "leases.task_ok (\<lambda>_. gives_back cfg bg) h
      (if bg r then seq_task (release_task l) (\<lambda>_. finished r) else finished r)"
    if h: "h = ?S \<or> h = ?H \<and> isl r" for r h
  proof (cases "bg r")
    case True
    have "leases.task_ok (\<lambda>_ h'. h' = ?S) h (release_task l)"
      using h by (intro release_disciplined) (auto simp: ticket_of_def)
    then have "leases.task_ok (\<lambda>_. gives_back cfg bg) h (seq_task (release_task l) (\<lambda>_. finished r))"
      by (rule leases.seq_ok) (simp add: leases.finished_ok)
    then show ?thesis by (simp add: True)
  next
    case False
    then show ?thesis using h by (cases r) (auto simp: gives_back_def holding_def intro!: leases.finished_ok)
  qed
qed

lemma streaming_disciplined:
  assumes "config_consistent cfg \<Longrightarrow> \<not> isl r"
  shows "leases.task_ok (\<lambda>_. gives_back cfg bg) NoLease
    (bind_task (acquire_task t) (\<lambda>l. bind_task (finished r) (\<lambda>g. respond_task T late bg t (gen g) l seconds)))"
proof (rule leases.bind_ok [OF acquire_disciplined])
  fix l h assume "taken t (Inr l) h"
  then have h: "h = Holding (lease_thread l) (lease_token l)" "t = lease_thread l" by (auto simp: taken_def)
  show "leases.task_ok (\<lambda>_. gives_back cfg bg) h
      (bind_task (finished r) (\<lambda>g. respond_task T late bg t (gen g) l seconds))"
  proof (cases r)
    case (Inl e)
    then show ?thesis using assms by (auto simp: gives_back_def intro!: leases.finished_ok)
  next
    case (Inr g)
    then show ?thesis using respond_disciplined h by simp
  qed
qed (auto simp: taken_def)

lemma resolve_disciplined:
  "leases.task_ok (\<lambda>r h. h = NoLease \<and> (\<forall>a. r = Inr a \<longrightarrow> get_assistant_config cfg (rc_assistant_id request) = Inr a)) NoLease
     (resolve_run_thread_task R rq t request cfg)"
proof (cases "get_assistant_config cfg (rc_assistant_id request)")
  case (Inl e)
  then show ?thesis by (simp add: resolve_run_thread_task_def Let_def leases.finished_ok)
next
  case (Inr a)
  have "leases.task_ok (\<lambda>r h. h = NoLease \<and> (\<forall>x. r = Inr x \<longrightarrow> a = x)) NoLease
    (bind_task m (\<lambda>exists. bind_task (raise_task (\<not> exists) e) (\<lambda>_. bind_task (f exists) (\<lambda>_. bind_task g (\<lambda>_. finished (Inr a))))))"
    if "steady NoLease m" "\<And>x. steady NoLease (f x)" "steady NoLease g"
    for e and m :: "(phase, 'a world, bool) task" and f :: "bool \<Rightarrow> (phase, 'a world, thread) task" and g :: "(phase, 'a world, unit) task"
    by (intro after_steady steady_intros that) (simp_all add: leases.finished_ok)
  then show ?thesis
    unfolding resolve_run_thread_task_def Let_def Inr bind_finished by (simp add: steady_intros)
qed

text \<open>Every request gives back what it takes.\<close>

lemma stream_run_disciplined:
  "leases.task_ok (\<lambda>_. gives_back cfg bg) NoLease (stream_run_with_thread_task R rq late bg t request cfg)"
  unfolding stream_run_with_thread_task_def
proof (rule after_steady [OF leases.steady_raise])
  show "leases.task_ok (\<lambda>_. gives_back cfg bg) NoLease
     (bind_task (resolve_run_thread_task R rq t request cfg) (\<lambda>a. bind_task (acquire_task t) (\<lambda>lease.
        bind_task (finished (get_graph_runtime cfg (ac_assistant_id a))) (\<lambda>graph.
          respond_task (rl_text R) late bg t (stream_generator R rq a request t graph (get_thread_store cfg)) lease
            (cfg_run_timeout_seconds cfg)))))"
    by (rule leases.bind_ok [OF resolve_disciplined])
      (auto intro!: streaming_disciplined elim!: consistent_graph)
qed simp

lemma stateless_disciplined:
  "leases.task_ok (\<lambda>_. gives_back cfg bg) NoLease (stream_run_stateless_task L clock R rq late bg request cfg)"
proof (cases "get_assistant_config cfg (rc_assistant_id request)")
  case (Inl e)
  then show ?thesis by (simp add: stream_run_stateless_task_def Let_def leases.finished_ok)
next
  case (Inr a)
  have "config_consistent cfg \<Longrightarrow> \<not> isl (get_graph_runtime cfg (ac_assistant_id a))"
    using Inr by (auto elim: consistent_graph)
  then show ?thesis
    unfolding stream_run_stateless_task_def Let_def Inr bind_finished
    by (auto intro!: after_steady steady_intros streaming_disciplined)
qed

lemma mutations_disciplined:
  "leases.task_ok (\<lambda>_. gives_back cfg bg) NoLease (update_state_task R rq late t su cfg)"
  "leases.task_ok (\<lambda>_. gives_back cfg bg) NoLease (delete_thread_task late t cfg)"
proof -
  show "leases.task_ok (\<lambda>_. gives_back cfg bg) NoLease (update_state_task R rq late t su cfg)"
    unfolding update_state_task_def
    by (rule after_steady after_steady [OF steady_thread_exists] under_lease_gives_back steady_intros gives_back_free)+
  have "leases.task_ok (\<lambda>_ h. \<not> holding h) NoLease (delete_thread_task late t cfg)"
    unfolding delete_thread_task_def by (intro with_lease_disciplined steady_intros)
  then show "leases.task_ok (\<lambda>_. gives_back cfg bg) NoLease (delete_thread_task late t cfg)"
    by (rule disciplined_weaken) (simp add: gives_back_def)
qed

lemma create_run_disciplined:
  "leases.task_ok (\<lambda>_. gives_back cfg bg) NoLease (create_run_task R rq late t request cfg)"
  unfolding create_run_task_def Let_def
proof (rule after_steady [OF leases.steady_raise], rule leases.bind_ok [OF resolve_disciplined])
  fix a h
  assume "h = NoLease \<and> (\<forall>x. (Inr a :: exc + _) = Inr x \<longrightarrow> get_assistant_config cfg (rc_assistant_id request) = Inr x)"
  then have "h = NoLease" by simp
  show "leases.task_ok (\<lambda>_. gives_back cfg bg) h
     (bind_task (finished (prepare_input a (case rc_input request of None \<Rightarrow> [] | Some d \<Rightarrow> d))) (\<lambda>input_payload.
      bind_task (finished (build_runnable_config (rl_model_dump R) t (ac_assistant_id a) (rc_config request)
        (rc_checkpoint_id request))) (\<lambda>rc.
      bind_task (with_lease_task t (invoke_under_lease_task R late cfg t (ac_assistant_id a) input_payload rc)) (\<lambda>_.
        finished (Inr \<lparr>rr_run_id = rq_uuid rq 0, rr_thread_id = t, rr_assistant_id = ac_assistant_id a,
             rr_created_at = rq_now_iso rq, rr_updated_at = rq_now_iso rq, rr_status = ''success'',
             rr_metadata = (case rc_metadata request of None \<Rightarrow> [] | Some d \<Rightarrow> d)\<rparr>)))))"
    unfolding \<open>h = NoLease\<close>
    by (rule after_steady under_lease_gives_back steady_intros gives_back_free)+
qed auto

lemma answer_ok:
  assumes "leases.task_ok (\<lambda>_. P) h m"
  shows "leases.task_ok (\<lambda>_. P) h (answer_task f m)"
  unfolding answer_task_def by (rule leases.bind_ok [OF assms]) (auto intro: leases.finished_ok)

lemma handle_disciplined:
  "leases.task_ok (\<lambda>_. gives_back cfg (cl_background cl)) NoLease (handle_task L clock R cfg cl)"
  unfolding handle_task_def Let_def
  by (cases "cl_request cl")
    (simp_all add: answer_ok steady_gives_back steady_intros mutations_disciplined create_run_disciplined
      stream_run_disciplined stateless_disciplined)



section \<open>The system\<close>

text \<open>
  The tasks of the server, by number. A resumption may find an environment that has changed since
  the last step, by what the process does beside these tasks: \<open>rely\<close> is what it may do. A request that
  is accepted becomes a task; \<open>served\<close> are the requests there may be.
\<close>

record 'e system =
  sys_world :: "'e world"
  sys_tasks :: "nat \<Rightarrow> (phase, 'e world, answer) outcome option"

definition with_env :: "'e \<Rightarrow> 'e world \<Rightarrow> 'e world" where
  "with_env e w = w\<lparr>w_server := (w_server w)\<lparr>sv_env := e\<rparr>\<rparr>"

definition released_detached :: "string \<Rightarrow> nat \<Rightarrow> 'e world \<Rightarrow> 'e world" where
  "released_detached t n w = free_slot t n (w\<lparr>w_detached := remove1 (t, n) (w_detached w)\<rparr>)"

inductive work_step :: "('e \<Rightarrow> 'e \<Rightarrow> bool) \<Rightarrow> 'e system \<Rightarrow> 'e system \<Rightarrow> bool" for rely where
  work_resume:
    "sys_tasks s i = Some (Suspended p k) \<Longrightarrow> e = sv_env (w_server (sys_world s)) \<or> rely (sv_env (w_server (sys_world s))) e \<Longrightarrow>
     k c (with_env e (sys_world s)) = (x, w) \<Longrightarrow>
     work_step rely s (s\<lparr>sys_world := w, sys_tasks := (sys_tasks s)(i \<mapsto> x)\<rparr>)"
| work_release:
    "(t, n) \<in> set (w_detached (sys_world s)) \<Longrightarrow>
     work_step rely s (s\<lparr>sys_world := released_detached t n (sys_world s)\<rparr>)"

inductive sys_step ::
  "'c storage_libs \<Rightarrow> (nat \<Rightarrow> rat) \<Rightarrow> route_libs \<Rightarrow> 'e server_config \<Rightarrow> ('e call \<Rightarrow> bool) \<Rightarrow> ('e \<Rightarrow> 'e \<Rightarrow> bool) \<Rightarrow>
     'e system \<Rightarrow> 'e system \<Rightarrow> bool"
  for L clock R cfg served rely where
  sys_arrive:
    "sys_tasks s i = None \<Longrightarrow> served cl \<Longrightarrow>
     sys_step L clock R cfg served rely s
       (s\<lparr>sys_tasks := (sys_tasks s)(i \<mapsto> handle_task L clock R cfg cl (sys_world s))\<rparr>)"
| sys_work: "work_step rely s t \<Longrightarrow> sys_step L clock R cfg served rely s t"

definition idle :: "'e system \<Rightarrow> bool" where
  "idle s \<longleftrightarrow> (let w = sys_world s in
     coordinator_ok (w_coordinator w) \<and> active (w_coordinator w) = [] \<and> w_flags w = [] \<and> w_detached w = [] \<and>
     sys_tasks s = (\<lambda>_. None))"

definition serves ::
  "'c storage_libs \<Rightarrow> (nat \<Rightarrow> rat) \<Rightarrow> route_libs \<Rightarrow> 'e server_config \<Rightarrow> ('e call \<Rightarrow> bool) \<Rightarrow> ('e \<Rightarrow> 'e \<Rightarrow> bool) \<Rightarrow> 'e system \<Rightarrow> bool" where
  "serves L clock R cfg served rely s \<longleftrightarrow> (\<exists>i. idle i \<and> (sys_step L clock R cfg served rely)\<^sup>*\<^sup>* i s)"

text \<open>Task \<open>i\<close> is between the acquisition and the release of a lease on thread \<open>t\<close>.\<close>

definition inside :: "'e system \<Rightarrow> nat \<Rightarrow> string \<Rightarrow> bool" where
  "inside s i t \<longleftrightarrow> (case sys_tasks s i of Some (Suspended (Guarded u) _) \<Rightarrow> u = t | _ \<Rightarrow> False)"


section \<open>Invariant\<close>

text \<open>
  The tickets of all tasks together: each fits, no token is in two, a detached \<open>_release\<close> is of no
  held lease, and a taken slot has a holder or is about to be freed.
\<close>

definition leases_ok :: "(nat \<Rightarrow> ticket) \<Rightarrow> 'e world \<Rightarrow> bool" where
  "leases_ok H w \<longleftrightarrow>
     coordinator_ok (w_coordinator w) \<and>
     (\<forall>i. fits (H i) w) \<and>
     (\<forall>i j t u n. ticket_of t n (H i) \<longrightarrow> ticket_of u n (H j) \<longrightarrow> i = j) \<and>
     (\<forall>t n. (t, n) \<in> set (w_detached w) \<longrightarrow> n < next_token (w_coordinator w) \<and> (\<forall>i u. H i \<noteq> Holding u n)) \<and>
     (\<forall>t n. dict_get (active (w_coordinator w)) t = Some n \<longrightarrow> (\<exists>i. H i = Holding t n) \<or> (t, n) \<in> set (w_detached w))"

lemma leases_okD:
  assumes "leases_ok H w"
  shows "coordinator_ok (w_coordinator w)" "fits (H i) w"
    and "ticket_of t n (H i) \<Longrightarrow> ticket_of u n (H j) \<Longrightarrow> i = j"
    and "(t, n) \<in> set (w_detached w) \<Longrightarrow> n < next_token (w_coordinator w)"
    and "(t, n) \<in> set (w_detached w) \<Longrightarrow> H i \<noteq> Holding u n"
    and "dict_get (active (w_coordinator w)) t = Some n \<Longrightarrow> (\<exists>i. H i = Holding t n) \<or> (t, n) \<in> set (w_detached w)"
  using assms unfolding leases_ok_def by blast+

lemma leases_okI:
  assumes "coordinator_ok (w_coordinator w)" "\<And>i. fits (H i) w"
    and "\<And>i j t u n. ticket_of t n (H i) \<Longrightarrow> ticket_of u n (H j) \<Longrightarrow> i = j"
    and "\<And>t n. (t, n) \<in> set (w_detached w) \<Longrightarrow> n < next_token (w_coordinator w) \<and> (\<forall>i u. H i \<noteq> Holding u n)"
    and "\<And>t n. dict_get (active (w_coordinator w)) t = Some n \<Longrightarrow> (\<exists>i. H i = Holding t n) \<or> (t, n) \<in> set (w_detached w)"
  shows "leases_ok H w"
  using assms unfolding leases_ok_def by blast

lemma fits_token: "fits h w \<Longrightarrow> ticket_of t n h \<Longrightarrow> n < next_token (w_coordinator w)"
  by (auto simp: fits_def ticket_of_def)

lemma ticket_of_simps [simp]:
  "ticket_of t n NoLease \<longleftrightarrow> False" "ticket_of t n (Holding u m) \<longleftrightarrow> u = t \<and> m = n" "ticket_of t n (Spent u m) \<longleftrightarrow> u = t \<and> m = n"
  by (auto simp: ticket_of_def)


lemma leases_ok_stay:
  assumes "leases_ok H w" "same_leases w w'"
  shows "leases_ok H w'"
proof -
  have "fits (H i) w'" for i
    using leases.move_fits [OF leases_okD(2) [OF assms(1)] move_stay [OF assms(2)]] .
  then show ?thesis using assms by (simp add: leases_ok_def same_leases_def)
qed

lemma leases_ok_acquire:
  assumes "leases_ok H w" "H i = NoLease" "acquire t (w_coordinator w) = (Inr l, c)"
  shows "leases_ok (H(i := Holding t (lease_token l))) (w\<lparr>w_server := (w_server w)\<lparr>sv_coordinator := c\<rparr>\<rparr>)"
proof (rule leases_okI)
  let ?w = "w\<lparr>w_server := (w_server w)\<lparr>sv_coordinator := c\<rparr>\<rparr>" and ?H = "H(i := Holding t (lease_token l))"
  note ok = leases_okD [OF assms(1)] and c = acquire_Inr [OF assms(3)]
  have old: "n < lease_token l" if "ticket_of u n (H j)" for u n j
    using fits_token [OF ok(2) that] by (simp add: c(3))
  show "coordinator_ok (w_coordinator ?w)" using acquire_ok [OF ok(1) assms(3)] by simp
  show "fits (?H j) ?w" for j
  proof (cases "j = i")
    case True
    then show ?thesis
      using leases.move_fits [OF ok(2) [of i, unfolded assms(2)] move_acquire [OF assms(3)]] by simp
  next
    case False
    have "dict_get (active (w_coordinator w)) t = None" using c(1) by (simp add: busy_iff)
    then show ?thesis using ok(2) [of j] False
      by (auto simp: fits_def flags_ok_def c(4) dict_get_set less_SucI split: ticket.splits)
  qed
  show "j = k" if "ticket_of u n (?H j)" "ticket_of v n (?H k)" for j k u v n
    using that ok(3) old [of _ "lease_token l"] by (auto split: if_splits)
  show "n < next_token (w_coordinator ?w) \<and> (\<forall>j v. ?H j \<noteq> Holding v n)" if "(u, n) \<in> set (w_detached ?w)" for u n
  proof -
    have d: "(u, n) \<in> set (w_detached w)" using that by simp
    have n: "n < next_token (w_coordinator w)" by (rule ok(4) [OF d])
    have "(H(i := Holding t (lease_token l))) j \<noteq> Holding v n" for j v
      using ok(5) [OF d, of j v] n by (simp add: c(3))
    then show ?thesis using n by (simp add: c(4))
  qed
  show "(\<exists>j. ?H j = Holding u n) \<or> (u, n) \<in> set (w_detached ?w)" if "dict_get (active (w_coordinator ?w)) u = Some n" for u n
  proof (cases "u = t")
    case False
    then have "dict_get (active (w_coordinator w)) u = Some n" using that by (simp add: c(4) dict_get_set)
    then have "(\<exists>j. H j = Holding u n) \<or> (u, n) \<in> set (w_detached w)" by (rule ok(6))
    then show ?thesis
    proof
      assume "\<exists>j. H j = Holding u n"
      then obtain j where "H j = Holding u n" ..
      then have "(H(i := Holding t (lease_token l))) j = Holding u n" using assms(2) by auto
      then show ?thesis by blast
    qed simp
  qed (use that in \<open>auto simp: c(3,4) dict_get_set\<close>)
qed

lemma leases_ok_detach:
  assumes "leases_ok H w" "ticket_of t n (H i)"
  shows "leases_ok (H(i := Spent t n)) (w\<lparr>w_detached := (t, n) # w_detached w\<rparr>)"
proof (rule leases_okI)
  let ?w = "w\<lparr>w_detached := (t, n) # w_detached w\<rparr>" and ?H = "H(i := Spent t n)"
  note ok = leases_okD [OF assms(1)]
  note token = fits_token [OF ok(2) assms(2)]
  show "coordinator_ok (w_coordinator ?w)" using ok(1) by simp
  show "fits (?H j) ?w" for j
    using ok(2) [of j] token by (auto simp: fits_def flags_ok_def split: ticket.splits)
  show "j = k" if "ticket_of u m (?H j)" "ticket_of v m (?H k)" for j k u v m
    using that ok(3) assms(2) by (auto split: if_splits)
  show "m < next_token (w_coordinator ?w) \<and> (\<forall>j v. ?H j \<noteq> Holding v m)" if "(u, m) \<in> set (w_detached ?w)" for u m
  proof (cases "(u, m) \<in> set (w_detached w)")
    case True
    then show ?thesis using ok(4,5) by simp
  next
    case False
    then have "m = n" using that by simp
    moreover have "H j \<noteq> Holding v n" if "j \<noteq> i" for j v using ok(3) [OF assms(2), of v j] that by auto
    ultimately show ?thesis using token by simp
  qed
  show "(\<exists>j. ?H j = Holding u m) \<or> (u, m) \<in> set (w_detached ?w)" if "dict_get (active (w_coordinator ?w)) u = Some m" for u m
  proof (cases "(u, m) \<in> set (w_detached ?w)")
    case False
    then have "dict_get (active (w_coordinator w)) u = Some m" "(u, m) \<notin> set (w_detached w)" using that by auto
    then obtain j where "H j = Holding u m" using ok(6) by blast
    moreover from this have "j \<noteq> i" using False assms(2) by auto
    ultimately show ?thesis by auto
  qed simp
qed

lemma leases_ok_released:
  assumes "leases_ok H w" "(t, n) \<in> set (w_detached w)"
  shows "leases_ok H (released_detached t n w)"
proof (rule leases_okI)
  let ?w = "released_detached t n w"
  note ok = leases_okD [OF assms(1)]
  have c: "w_coordinator ?w = release_token t n (w_coordinator w)" and rest: "w_flags ?w = w_flags w" "w_detached ?w = remove1 (t, n) (w_detached w)"
    by (simp_all add: released_detached_def free_slot_def)
  have sub: "p \<in> set (w_detached w)" if "p \<in> set (w_detached ?w)" for p
    using that notin_set_remove1 [of p "w_detached w" "(t, n)"] rest(2) by auto
  show "coordinator_ok (w_coordinator ?w)" using release_token_ok [OF ok(1)] by (simp add: c)
  show "fits (H j) ?w" for j
    using ok(2) [of j] ok(5) [OF assms(2), of j t]
    by (auto simp: fits_def flags_ok_def c rest release_token_active split: ticket.splits)
  show "j = k" if "ticket_of u m (H j)" "ticket_of v m (H k)" for j k u v m
    using ok(3) that .
  show "m < next_token (w_coordinator ?w) \<and> (\<forall>j v. H j \<noteq> Holding v m)" if "(u, m) \<in> set (w_detached ?w)" for u m
    using ok(4,5) [OF sub [OF that]] by (simp add: c)
  show "(\<exists>j. H j = Holding u m) \<or> (u, m) \<in> set (w_detached ?w)" if "dict_get (active (w_coordinator ?w)) u = Some m" for u m
    using that ok(6) [of u m]
    by (cases "(u, m) = (t, n)") (auto simp: c rest release_token_active in_set_remove1 split: if_splits)
qed

lemma leases_ok_free:
  assumes "leases_ok H w" "ticket_of t n (H i)"
  shows "leases_ok (H(i := Spent t n)) (free_slot t n w)"
proof -
  have "released_detached t n (w\<lparr>w_detached := (t, n) # w_detached w\<rparr>) = free_slot t n w"
    by (simp add: released_detached_def free_slot_def)
  then show ?thesis using leases_ok_released [OF leases_ok_detach [OF assms], of t n] by simp
qed

lemma leases_ok_flag:
  assumes "leases_ok H w" "H i = Spent t n"
  shows "leases_ok H (w\<lparr>w_flags := n # w_flags w\<rparr>)"
proof -
  note ok = leases_okD [OF assms(1)]
  have "H j \<noteq> Holding u n" for j u using ok(3) [of t n i u j] assms(2) by auto
  then have "fits (H j) (w\<lparr>w_flags := n # w_flags w\<rparr>)" for j
    using ok(2) [of j] fits_token [OF ok(2) [of i], of t n] assms(2)
    by (auto simp: fits_def flags_ok_def split: ticket.splits)
  then show ?thesis using assms(1) by (simp add: leases_ok_def)
qed

lemma leases_ok_move:
  assumes "leases_ok H w" "lease_move p (H i) w w' h'"
  shows "leases_ok (H(i := h')) w'"
  using assms(2,1)
proof (cases rule: lease_move.cases)
  case move_stay
  then show ?thesis using leases_ok_stay [OF assms(1)] by (simp add: fun_upd_idem)
next
  case (move_flag t n)
  then show ?thesis using leases_ok_flag [OF assms(1), of i] by (metis fun_upd_triv)
qed (use assms(1) in \<open>auto intro: leases_ok_acquire leases_ok_free leases_ok_detach\<close>)


definition all_return :: "'e server_config \<Rightarrow> ('e call \<Rightarrow> bool) \<Rightarrow> bool" where
  "all_return cfg served \<longleftrightarrow> config_consistent cfg \<and> (\<forall>cl e. served cl \<longrightarrow> cl_background cl (Inl e))"

definition task_inv ::
  "'e server_config \<Rightarrow> ('e call \<Rightarrow> bool) \<Rightarrow> ticket \<Rightarrow> (phase, 'e world, answer) outcome option \<Rightarrow> bool" where
  "task_inv cfg served h task \<longleftrightarrow>
     (case task of
        None \<Rightarrow> h = NoLease
      | Some x \<Rightarrow> disciplined fits lease_guard lease_move (\<lambda>_ h. all_return cfg served \<longrightarrow> \<not> holding h) h x)"

definition sys_inv :: "'e server_config \<Rightarrow> ('e call \<Rightarrow> bool) \<Rightarrow> 'e system \<Rightarrow> bool" where
  "sys_inv cfg served s \<longleftrightarrow> finite (dom (sys_tasks s)) \<and>
     (\<exists>H. leases_ok H (sys_world s) \<and> (\<forall>i. task_inv cfg served (H i) (sys_tasks s i)))"

lemma sys_invI:
  "finite (dom (sys_tasks s)) \<Longrightarrow> leases_ok H (sys_world s) \<Longrightarrow> (\<And>i. task_inv cfg served (H i) (sys_tasks s i)) \<Longrightarrow>
   sys_inv cfg served s"
  unfolding sys_inv_def by blast

lemma idle_inv: "idle s \<Longrightarrow> sys_inv cfg served s"
  by (rule sys_invI [of _ "\<lambda>_. NoLease"])
    (simp_all add: idle_def Let_def leases_ok_def task_inv_def fits_def flags_ok_def)

lemma arrive_inv:
  assumes "sys_inv cfg served s" "sys_tasks s i = None" "served cl"
  shows "sys_inv cfg served (s\<lparr>sys_tasks := (sys_tasks s)(i \<mapsto> handle_task L clock R cfg cl (sys_world s))\<rparr>)"
proof -
  obtain H where H: "leases_ok H (sys_world s)" "\<And>i. task_inv cfg served (H i) (sys_tasks s i)" and fin: "finite (dom (sys_tasks s))"
    using assms(1) unfolding sys_inv_def by blast
  have "H i = NoLease" using H(2) [of i] assms(2) by (simp add: task_inv_def)
  moreover from this have "fits NoLease (sys_world s)" using leases_okD(2) [OF H(1), of i] by simp
  then have "disciplined fits lease_guard lease_move (\<lambda>_. gives_back cfg (cl_background cl)) NoLease
      (handle_task L clock R cfg cl (sys_world s))"
    using handle_disciplined unfolding disciplined_task_def by blast
  then have "disciplined fits lease_guard lease_move (\<lambda>_ h. all_return cfg served \<longrightarrow> \<not> holding h) NoLease
      (handle_task L clock R cfg cl (sys_world s))"
    by (rule disciplined_mono) (use assms(3) in \<open>auto simp: gives_back_def all_return_def\<close>)
  ultimately show ?thesis
    using fin H by (intro sys_invI [of _ H]) (auto simp: task_inv_def)
qed

lemma same_leases_env: "same_leases w (with_env e w)"
  by (simp add: same_leases_def with_env_def)

lemma work_inv:
  assumes "work_step rely s t" "sys_inv cfg served s"
  shows "sys_inv cfg served t"
  using assms
proof (induction rule: work_step.induct)
  case (work_resume s i p k e c x w)
  obtain H where H: "leases_ok H (sys_world s)" "\<And>i. task_inv cfg served (H i) (sys_tasks s i)" and fin: "finite (dom (sys_tasks s))"
    using work_resume(4) unfolding sys_inv_def by blast
  have now: "leases_ok H (with_env e (sys_world s))" by (rule leases_ok_stay [OF H(1) same_leases_env])
  have "disciplined fits lease_guard lease_move (\<lambda>_ h. all_return cfg served \<longrightarrow> \<not> holding h) (H i) (Suspended p k)"
    using H(2) [of i] work_resume(1) by (simp add: task_inv_def)
  then obtain h' where h': "lease_move p (H i) (with_env e (sys_world s)) w h'"
      "disciplined fits lease_guard lease_move (\<lambda>_ h. all_return cfg served \<longrightarrow> \<not> holding h) h' x"
    unfolding disc_suspended_iff using leases_okD(2) [OF now, of i] work_resume(3) by (metis fst_conv snd_conv)
  then show ?case
    using fin H(2) leases_ok_move [OF now h'(1)] by (intro sys_invI [of _ "H(i := h')"]) (auto simp: task_inv_def)
next
  case (work_release t n s)
  then show ?case unfolding sys_inv_def using leases_ok_released by fastforce
qed

lemma step_inv:
  assumes "sys_inv cfg served s" "sys_step L clock R cfg served rely s t"
  shows "sys_inv cfg served t"
  using assms(2,1) by (cases rule: sys_step.cases) (auto intro: arrive_inv work_inv)

interpretation requests: transition_system idle "sys_step L clock R cfg served rely" "sys_inv cfg served" for L clock R cfg served rely
  by unfold_locales (auto intro: idle_inv step_inv)

lemma serves_inv: "serves L clock R cfg served rely s \<Longrightarrow> sys_inv cfg served s"
  unfolding serves_def by (auto intro: requests.steps_inv idle_inv)

lemma serves_holding:
  assumes "serves L clock R cfg served rely s"
  obtains H where "leases_ok H (sys_world s)" "\<forall>i. task_inv cfg served (H i) (sys_tasks s i)"
    and "\<forall>i t. inside s i t \<longrightarrow> (\<exists>n. H i = Holding t n)" and "finite (dom (sys_tasks s))"
proof -
  obtain H where H: "leases_ok H (sys_world s)" "\<And>i. task_inv cfg served (H i) (sys_tasks s i)" and "finite (dom (sys_tasks s))"
    using serves_inv [OF assms] unfolding sys_inv_def by blast
  moreover have "\<exists>n. H i = Holding t n" if "inside s i t" for i t
    using that H(2) [of i]
    by (auto simp: inside_def task_inv_def disc_suspended_iff lease_guard_def split: option.splits outcome.splits phase.splits)
  ultimately show thesis using that by blast
qed



section \<open>An end to the work\<close>

text \<open>
  What is left of a task after a resumption is smaller, since a task is a well-founded tree. The
  rest of the work is the multiset of the tasks, and then the detached releases.
\<close>

definition later :: "(('l, 's, 'a) outcome \<times> ('l, 's, 'a) outcome) set" where
  "later = {(x, y). \<exists>l k c s. y = Suspended l k \<and> x = fst (k c s)}"

lemma wf_later: "wf (later :: (('l, 's, 'a) outcome \<times> ('l, 's, 'a) outcome) set)"
proof (rule wfUNIVI)
  fix P :: "('l, 's, 'a) outcome \<Rightarrow> bool" and x :: "('l, 's, 'a) outcome"
  assume step: "\<forall>x. (\<forall>y. (y, x) \<in> later \<longrightarrow> P y) \<longrightarrow> P x"
  show "P x"
  proof (induction x)
    case (Suspended l k)
    have "P (fst (k c s))" for c s
      by (rule Suspended [of "k c" "k c s"]) (simp_all add: fsts.simps)
    then have "\<forall>y. (y, Suspended l k) \<in> later \<longrightarrow> P y" by (auto simp: later_def)
    then show ?case using step by blast
  qed (use step in \<open>auto simp: later_def\<close>)
qed

definition tasks_left :: "'e system \<Rightarrow> (phase, 'e world, answer) outcome multiset" where
  "tasks_left s = image_mset (\<lambda>i. the (sys_tasks s i)) (mset_set (dom (sys_tasks s)))"

definition less_work :: "('e system \<times> 'e system) set" where
  "less_work = inv_image (mult later <*lex*> less_than) (\<lambda>s. (tasks_left s, length (w_detached (sys_world s))))"

lemma wf_less_work: "wf less_work"
  unfolding less_work_def by (intro wf_inv_image wf_lex_prod wf_mult wf_later wf_less_than)

lemma work_decreases:
  assumes "work_step rely s t" "finite (dom (sys_tasks s))"
  shows "(t, s) \<in> less_work \<and> dom (sys_tasks t) = dom (sys_tasks s)"
  using assms
proof (induction rule: work_step.induct)
  case (work_resume s i p k e c x w)
  let ?d = "dom (sys_tasks s)" and ?t = "s\<lparr>sys_world := w, sys_tasks := (sys_tasks s)(i \<mapsto> x)\<rparr>"
  let ?M = "image_mset (\<lambda>j. the (sys_tasks s j)) (mset_set (?d - {i}))"
  have i: "i \<in> ?d" using work_resume(1) by auto
  then have d: "insert i ?d = ?d" by auto
  have split: "mset_set ?d = add_mset i (mset_set (?d - {i}))" by (rule mset_set.remove [OF work_resume(4) i])
  have same: "image_mset (\<lambda>j. the (((sys_tasks s)(i \<mapsto> x)) j)) (mset_set (?d - {i})) = ?M"
    by (rule image_mset_cong) (use work_resume(4) in auto)
  have "tasks_left s = add_mset (Suspended p k) ?M" using work_resume(1) by (simp add: tasks_left_def split)
  moreover have "tasks_left ?t = add_mset x ?M" using same by (simp add: tasks_left_def d split)
  moreover have "(x, Suspended p k) \<in> later" using work_resume(3) unfolding later_def by (auto, metis fst_conv)
  then have "(add_mset x ?M, add_mset (Suspended p k) ?M) \<in> mult later"
    using one_step_implies_mult [of "{#Suspended p k#}" "{#x#}" later ?M] by simp
  ultimately have "(?t, s) \<in> less_work" by (simp add: less_work_def)
  moreover have "dom (sys_tasks ?t) = ?d" using d by (simp add: dom_fun_upd)
  ultimately show ?case by blast
next
  case (work_release t n s)
  then show ?case
    using length_pos_if_in_set [OF work_release(1)]
    by (simp add: less_work_def tasks_left_def released_detached_def free_slot_def length_remove1)
qed

lemma stuck_iff:
  "(\<nexists>t. work_step rely s t) \<longleftrightarrow> (\<forall>i x. sys_tasks s i = Some x \<longrightarrow> (\<exists>r. x = Finished r)) \<and> w_detached (sys_world s) = []"
proof
  assume stuck: "\<nexists>t. work_step rely s t"
  have "\<exists>r. x = Finished r" if "sys_tasks s i = Some x" for i x
  proof (cases x)
    case (Suspended p k)
    obtain y w where "k True (with_env (sv_env (w_server (sys_world s))) (sys_world s)) = (y, w)" by (rule prod.exhaust)
    from work_resume [OF that [unfolded Suspended] disjI1 [OF refl] this] show ?thesis using stuck by blast
  qed simp
  moreover have "w_detached (sys_world s) = []"
    using stuck work_release [of _ _ s] by (metis ex_in_conv prod.exhaust set_empty)
  ultimately show "(\<forall>i x. sys_tasks s i = Some x \<longrightarrow> (\<exists>r. x = Finished r)) \<and> w_detached (sys_world s) = []" by blast
qed (auto elim!: work_step.cases)

lemma work_serves: "serves L clock R cfg served rely s \<Longrightarrow> work_step rely s t \<Longrightarrow> serves L clock R cfg served rely t"
  unfolding serves_def by (meson rtranclp.rtrancl_into_rtrancl sys_work)

lemma works_serves:
  assumes "(work_step rely)\<^sup>*\<^sup>* s t" "serves L clock R cfg served rely s"
  shows "serves L clock R cfg served rely t"
  using assms by (induction rule: rtranclp_induct) (auto intro: work_serves)

lemma work_can_finish:
  assumes "finite (dom (sys_tasks s))"
  obtains t where "(work_step rely)\<^sup>*\<^sup>* s t" "\<nexists>u. work_step rely t u"
proof -
  have "finite (dom (sys_tasks s)) \<longrightarrow> (\<exists>t. (work_step rely)\<^sup>*\<^sup>* s t \<and> (\<nexists>u. work_step rely t u))"
  proof (induction s rule: wf_induct_rule [OF wf_less_work])
    case (1 s)
    show ?case
    proof (cases "\<exists>u. work_step rely s u")
      case True
      then obtain u where u: "work_step rely s u" ..
      then show ?thesis using 1 work_decreases [OF u] by (metis converse_rtranclp_into_rtranclp)
    qed blast
  qed
  then show thesis using assms that by blast
qed

lemma stuck_is_free:
  assumes "serves L clock R cfg served rely s" "all_return cfg served" "\<nexists>t. work_step rely s t"
  shows "active (w_coordinator (sys_world s)) = []"
proof -
  obtain H where H: "leases_ok H (sys_world s)" "\<forall>i. task_inv cfg served (H i) (sys_tasks s i)"
    by (rule serves_holding [OF assms(1)])
  have stuck: "\<And>i x. sys_tasks s i = Some x \<Longrightarrow> \<exists>r. x = Finished r" "w_detached (sys_world s) = []"
    using assms(3) unfolding stuck_iff by blast+
  have "H i \<noteq> Holding t n" for i t n
  proof (cases "sys_tasks s i")
    case (Some x)
    then obtain r where "x = Finished r" using stuck(1) by blast
    then show ?thesis using H(2) [rule_format, of i] assms(2) Some by (simp add: task_inv_def disc_finished_iff holding_def)
  qed (use H(2) [rule_format, of i] in \<open>simp add: task_inv_def\<close>)
  moreover note stuck(2)
  ultimately have "dict_get (active (w_coordinator (sys_world s))) t = None" for t
    using leases_okD(6) [OF H(1), of t] by (cases "dict_get (active (w_coordinator (sys_world s))) t") auto
  then show ?thesis by (metis map_of_eq_empty_iff ext)
qed


section \<open>Properties\<close>

text \<open>
  C3: One mutation per thread at a time, whatever the interleaving: of all requests that the server
  handles, arriving, resumed and cancelled in any order, no two are inside the guarded part on the
  same thread - the invocation or the stream of a run, an update of the state, a deletion - and
  the number of those inside is at most \<open>max_concurrent_runs\<close>.
\<close>

theorem requests_exclude_each_other:
  assumes "serves L clock R cfg served rely s"
  shows "(inside s i t \<longrightarrow> inside s j t \<longrightarrow> i = j) \<and> finite {i. \<exists>t. inside s i t} \<and>
    int (card {i. \<exists>t. inside s i t}) \<le> max_concurrent_runs (w_coordinator (sys_world s))"
proof -
  obtain H where H: "leases_ok H (sys_world s)" "\<forall>i t. inside s i t \<longrightarrow> (\<exists>n. H i = Holding t n)" and fin: "finite (dom (sys_tasks s))"
    by (rule serves_holding [OF assms])
  note holder = H(2) [rule_format]
  let ?c = "w_coordinator (sys_world s)" and ?I = "{i. \<exists>t. inside s i t}"
  have slot: "dict_get (active ?c) t = Some n" if "H i = Holding t n" for i t n
    using leases_okD(2) [OF H(1), of i] that by (simp add: fits_def)
  have same: "i = j" if i: "inside s i t" and j: "inside s j t" for i j t
  proof -
    obtain n m where nm: "H i = Holding t n" "H j = Holding t m" using holder [OF i] holder [OF j] by blast
    have "n = m" using slot [OF nm(1)] slot [OF nm(2)] by simp
    then show ?thesis using leases_okD(3) [OF H(1), of t n i t j] nm by simp
  qed
  have "?I \<subseteq> dom (sys_tasks s)" by (auto simp: inside_def split: option.splits)
  then have "finite ?I" using fin by (rule finite_subset)
  moreover have "card ?I \<le> length (active ?c)"
  proof -
    define f where "f i = (SOME t. inside s i t)" for i
    have f: "inside s i (f i)" if "i \<in> ?I" for i using that unfolding f_def by (auto intro: someI)
    have "inj_on f ?I"
    proof (rule inj_onI)
      show "i = j" if "i \<in> ?I" "j \<in> ?I" "f i = f j" for i j
        using same [OF f [OF that(1)]] f [OF that(2)] that(3) by simp
    qed
    moreover have "f i \<in> fst ` set (active ?c)" if i: "i \<in> ?I" for i
    proof -
      obtain n where "H i = Holding (f i) n" using holder [OF f [OF i]] by blast
      from map_of_SomeD [OF slot [OF this]] show ?thesis by force
    qed
    then have "f ` ?I \<subseteq> fst ` set (active ?c)" by blast
    ultimately have "card ?I \<le> card (fst ` set (active ?c))" by (intro card_inj_on_le) auto
    also have "\<dots> \<le> length (active ?c)" using card_image_le [of "set (active ?c)" fst] card_length le_trans by blast
    finally show ?thesis .
  qed
  moreover have "int (length (active ?c)) \<le> max_concurrent_runs ?c"
    using leases_okD(1) [OF H(1)] by (simp add: coordinator_ok_def)
  ultimately show ?thesis using same by auto
qed


text \<open>A server at work: one request, to delete a thread, that has been accepted and resumed once.\<close>

definition demo_idle :: "list_cache environment system" where
  "demo_idle = \<lparr>sys_world = demo_world free_server, sys_tasks = (\<lambda>_. None)\<rparr>"

lemma demo_idle: "idle demo_idle"
  by (simp add: idle_def demo_idle_def demo_world_def free_server_def coordinator_ok_def)

lemma demo_path:
  assumes "served (demo_call (DeleteThread ''t'') :: list_cache environment call)"
  obtains s1 s2 where "sys_step list_libs (\<lambda>_. 0) demo_routes demo_config served rely demo_idle s1" "work_step rely s1 s2"
    "inside s2 0 ''t''" "max_concurrent_runs (w_coordinator (sys_world s2)) = 2"
    "sv_env (w_server (sys_world s1)) = demo_env" "sv_env (w_server (sys_world s2)) = demo_env"
proof -
  let ?cl = "demo_call (DeleteThread ''t'') :: list_cache environment call"
  let ?w = "demo_world free_server"
  let ?task = "handle_task list_libs (\<lambda>_. 0) demo_routes demo_config ?cl ?w"
  let ?s = "demo_idle\<lparr>sys_tasks := (sys_tasks demo_idle)(0 \<mapsto> ?task)\<rparr>"
  have arrive: "sys_step list_libs (\<lambda>_. 0) demo_routes demo_config served rely demo_idle
      (demo_idle\<lparr>sys_tasks := (sys_tasks demo_idle)(0 \<mapsto>
         handle_task list_libs (\<lambda>_. 0) demo_routes demo_config ?cl (sys_world demo_idle))\<rparr>)"
    by (rule sys_arrive) (use assms in \<open>simp_all add: demo_idle_def\<close>)
  obtain p k where task: "?task = Suspended p k" and
    resumed: "\<exists>k' w. k False (with_env (sv_env (w_server ?w)) ?w) = (Suspended (Guarded ''t'') k', w) \<and>
       max_concurrent_runs (w_coordinator w) = 2 \<and> sv_env (w_server w) = demo_env"
    by (simp add: handle_task_def demo_call_def answer_task_def delete_thread_task_def with_lease_task_def bind_task_def seq_task_def
        acquire_task_def acquire_lease_def with_env_def demo_world_def free_server_def try_op_def on_coordinator_def on_part_def
        acquire_def Let_def dict_has_def finally_task_def delete_under_lease_task_def demo_config_def get_checkpointer_def
        timeout_task_def try_task_def await_shared_def await_op_def)
  obtain k' w where k': "k False (with_env (sv_env (w_server (sys_world ?s))) (sys_world ?s)) = (Suspended (Guarded ''t'') k', w)"
      "max_concurrent_runs (w_coordinator w) = 2" "sv_env (w_server w) = demo_env"
    using resumed by (auto simp: demo_idle_def)
  have "work_step rely ?s (?s\<lparr>sys_world := w, sys_tasks := (sys_tasks ?s)(0 \<mapsto> Suspended (Guarded ''t'') k')\<rparr>)"
    by (rule work_resume [where c = False and k = k and p = p]) (simp add: task, rule disjI1 [OF refl], rule k'(1))
  moreover have "sys_step list_libs (\<lambda>_. 0) demo_routes demo_config served rely demo_idle ?s"
    using arrive by (simp add: demo_idle_def)
  ultimately show thesis
    by (rule_tac that) (auto simp: inside_def k'(2,3) demo_idle_def demo_world_def free_server_def)
qed

abbreviation demo_serves :: "list_cache environment system \<Rightarrow> bool" where
  "demo_serves \<equiv> serves list_libs (\<lambda>_. 0) demo_routes demo_config (\<lambda>cl. \<forall>e. cl_background cl (Inl e)) (\<lambda>_ _. True)"

lemma demo_inside:
  obtains s where "demo_serves s" "inside s 0 ''t''" "max_concurrent_runs (w_coordinator (sys_world s)) = 2"
proof -
  have "\<forall>e. cl_background (demo_call (DeleteThread ''t'') :: list_cache environment call) (Inl e)" by (simp add: demo_call_def)
  then obtain s1 s2 where "sys_step list_libs (\<lambda>_. 0) demo_routes demo_config (\<lambda>cl. \<forall>e. cl_background cl (Inl e)) (\<lambda>_ _. True) demo_idle s1"
      "work_step (\<lambda>_ _. True) s1 s2" "inside s2 0 ''t''" "max_concurrent_runs (w_coordinator (sys_world s2)) = 2"
    by (rule demo_path)
  moreover from this have "demo_serves s2" using demo_idle work_serves unfolding serves_def by blast
  ultimately show thesis using that by blast
qed

theorem requests_exclude_each_other_witness:
  "\<exists>s. demo_serves s \<and> inside s 0 ''t'' \<and> (\<forall>j. inside s j ''t'' \<longrightarrow> j = 0) \<and> card {i. \<exists>t. inside s i t} \<le> 2"
proof -
  obtain s where s: "demo_serves s" "inside s 0 ''t''" "max_concurrent_runs (w_coordinator (sys_world s)) = 2"
    by (rule demo_inside)
  have "j = 0" if "inside s j ''t''" for j using requests_exclude_each_other [OF s(1), of j "''t''" 0] s(2) that by simp
  moreover have "card {i. \<exists>t. inside s i t} \<le> 2" using requests_exclude_each_other [OF s(1)] s(3) by simp
  ultimately show ?thesis using s(1,2) by blast
qed



end
