(* ===== verification/ClaimRace.thy ===== *)
theory ClaimRace
  imports TaskSimulation Concurrency
begin

text \<open>
  A run claims its thread before it takes the lease. What may come in between: another request
  deletes the thread, which frees it of its owner, and a run of another assistant claims it; then
  the first run takes the lease and works on a thread that is no longer its own. The interleaving
  is a path of the system of \<open>Concurrency\<close>.
\<close>


section \<open>Paths of the system\<close>

lemma resume_resume: "resume_with f (resume_with g x s) s = resume_with (\<lambda>r. seq_task (g r) f) x s"
proof (induction x arbitrary: s)
  case (Suspended l k)
  have "resume_with f (resume_with g (fst (k c u)) (snd (k c u))) (snd (k c u)) =
      resume_with (\<lambda>r. seq_task (g r) f) (fst (k c u)) (snd (k c u))" for c u
    by (rule Suspended [of "k c" "k c u"]) (simp_all add: fsts.simps)
  then show ?case by (simp add: fun_eq_iff case_prod_unfold)
qed (simp add: seq_task_def)

lemma seq_assoc: "seq_task (seq_task m g) f = seq_task m (\<lambda>r. seq_task (g r) f)"
  by (simp add: fun_eq_iff seq_task_def resume_resume)

lemma bind_bind:
  "bind_task (bind_task m f) g = seq_task m (\<lambda>r. case r of Inl e \<Rightarrow> finished (Inl e) | Inr x \<Rightarrow> bind_task (f x) g)"
  unfolding bind_task_def seq_assoc
  by (rule arg_cong [where f = "seq_task m"]) (auto simp: seq_finished split: sum.split)

text \<open>A task that runs its first part undisturbed.\<close>

lemma undisturbed_steps:
  assumes "sys_tasks s i = Some (resume_with g x (sys_world s))" "run_outcome x (sys_world s) = (r, w)"
  shows "(work_step rely)\<^sup>*\<^sup>* s (s\<lparr>sys_world := w, sys_tasks := (sys_tasks s)(i \<mapsto> g r w)\<rparr>)"
  using assms
proof (induction x arbitrary: s)
  case (Finished q)
  then have same: "s\<lparr>sys_world := w, sys_tasks := (sys_tasks s)(i \<mapsto> g r w)\<rparr> = s" by (simp add: fun_upd_idem)
  show ?case unfolding same by (rule rtranclp.rtrancl_refl)
next
  case (Suspended l k)
  obtain y t where k: "k False (sys_world s) = (y, t)" by (rule prod.exhaust)
  have same: "with_env (sv_env (w_server (sys_world s))) (sys_world s) = sys_world s" by (simp add: with_env_def)
  let ?s = "s\<lparr>sys_world := t, sys_tasks := (sys_tasks s)(i \<mapsto> resume_with g y t)\<rparr>"
  have "sys_tasks s i = Some (Suspended l (\<lambda>c s. case map_prod (resume_with g) id (k c s) of (f, t) \<Rightarrow> (f t, t)))"
    using Suspended.prems(1) by simp
  from work_resume [OF this disjI1 [OF refl], where c = False and x = "resume_with g y t" and w = t]
  have "work_step rely s ?s" by (simp add: same k)
  moreover have "(work_step rely)\<^sup>*\<^sup>* ?s (?s\<lparr>sys_world := w, sys_tasks := (sys_tasks ?s)(i \<mapsto> g r w)\<rparr>)"
    by (rule Suspended.IH [of "k False" "k False (sys_world s)"]) (simp, rule rangeI, use Suspended.prems(2) k in \<open>simp_all\<close>)
  ultimately show ?case by (simp add: converse_rtranclp_into_rtranclp del: fun_upd_apply)
qed

lemma work_path: "(work_step rely)\<^sup>*\<^sup>* s t \<Longrightarrow> (sys_step L clock R cfg served rely)\<^sup>*\<^sup>* s t"
  by (induction rule: rtranclp_induct) (auto intro: sys_work rtranclp.rtrancl_into_rtrancl)

lemma arrive_and_run:
  assumes "sys_tasks s i = None" "served cl" "handle_task L clock R cfg cl = seq_task m g"
    and "run_task m (sys_world s) = (r, w)"
  shows "(sys_step L clock R cfg served rely)\<^sup>*\<^sup>* s (s\<lparr>sys_world := w, sys_tasks := (sys_tasks s)(i \<mapsto> g r w)\<rparr>)"
proof -
  let ?s = "s\<lparr>sys_tasks := (sys_tasks s)(i \<mapsto> handle_task L clock R cfg cl (sys_world s))\<rparr>"
  have "sys_step L clock R cfg served rely s ?s" by (rule sys_arrive) (fact assms(1,2))+
  moreover have "(work_step rely)\<^sup>*\<^sup>* ?s (?s\<lparr>sys_world := w, sys_tasks := (sys_tasks ?s)(i \<mapsto> g r w)\<rparr>)"
    by (rule undisturbed_steps [where x = "m (sys_world s)"])
      (use assms(4) in \<open>simp_all add: assms(3) seq_task_def run_task_def\<close>)
  then have "(sys_step L clock R cfg served rely)\<^sup>*\<^sup>* ?s (?s\<lparr>sys_world := w, sys_tasks := (sys_tasks ?s)(i \<mapsto> g r w)\<rparr>)"
    by (rule work_path)
  ultimately show ?thesis by (simp add: converse_rtranclp_into_rtranclp del: fun_upd_apply)
qed


section \<open>The path\<close>

text \<open>A synchronous run, up to its claim, and what it has still to do.\<close>

definition rest_of_run ::
  "route_libs \<Rightarrow> request_inputs \<Rightarrow> ('e \<Rightarrow> bool) \<Rightarrow> string \<Rightarrow> run_create \<Rightarrow> 'e server_config \<Rightarrow>
     exc + 'e assistant_config \<Rightarrow> (phase, 'e world, answer) task" where
  "rest_of_run R rq late t request cfg r =
     (case r of
        Inl e \<Rightarrow> finished (Inl e)
      | Inr a \<Rightarrow>
          answer_task RunAnswer
            (bind_task (finished (prepare_input a (case rc_input request of None \<Rightarrow> [] | Some d \<Rightarrow> d))) (\<lambda>input_payload.
             bind_task (finished (build_runnable_config (rl_model_dump R) t (ac_assistant_id a) (rc_config request)
               (rc_checkpoint_id request))) (\<lambda>rc.
             bind_task (with_lease_task t (invoke_under_lease_task R late cfg t (ac_assistant_id a) input_payload rc)) (\<lambda>_.
               finished (Inr \<lparr>rr_run_id = rq_uuid rq 0, rr_thread_id = t, rr_assistant_id = ac_assistant_id a,
                 rr_created_at = rq_now_iso rq, rr_updated_at = rq_now_iso rq, rr_status = ''success'',
                 rr_metadata = (case rc_metadata request of None \<Rightarrow> [] | Some d \<Rightarrow> d)\<rparr>))))))"

lemma run_task_split:
  assumes "cl_request cl = CreateRun t request" "unsupported_sync_options request = []"
  shows "handle_task L clock R cfg cl = seq_task (resolve_run_thread_task R (cl_inputs cl) t request cfg)
    (rest_of_run R (cl_inputs cl) (cl_late cl) t request cfg)"
  using assms(2) unfolding handle_task_def assms(1) request.case Let_def create_run_task_def answer_task_def
  by (simp add: raise_task_def bind_bind [of "resolve_run_thread_task _ _ _ _ _"] rest_of_run_def [abs_def] answer_task_def)


text \<open>A task that is suspended, and resumed in \<open>w\<close> goes on to its next suspension.\<close>

definition goes_on :: "('l, 's, 'a) outcome \<Rightarrow> 'l \<Rightarrow> 's \<Rightarrow> 'l \<Rightarrow> 's \<Rightarrow> bool" where
  "goes_on x p w q w' \<longleftrightarrow> (\<exists>k k'. x = Suspended p k \<and> k False w = (Suspended q k', w'))"

lemma goes_on_seq: "goes_on (m v) p w q w' \<Longrightarrow> goes_on (seq_task m g v) p w q w'"
  by (auto simp: goes_on_def seq_task_def)

lemma goes_on_bind: "goes_on (m v) p w q w' \<Longrightarrow> goes_on (bind_task m f v) p w q w'"
  unfolding bind_task_def by (rule goes_on_seq)

lemma goes_on_with_lease:
  assumes "acquire_lease t (w_server w) = (Inr l, s)" "body (w\<lparr>w_server := s\<rparr>) = Suspended (Guarded t) k"
  shows "goes_on (with_lease_task t body v) Locking w (Guarded t) (w\<lparr>w_server := s\<rparr>)"
  by (simp add: goes_on_def with_lease_task_def bind_task_def seq_task_def acquire_task_def finally_task_def assms)

lemma invoke_suspended:
  assumes "get_graph_runtime cfg a = Inr g" "g_ainvoke g = Some f"
  obtains k where "invoke_under_lease_task R late cfg t a input_payload rc w = Suspended (Guarded t) k"
  by (simp add: invoke_under_lease_task_def try_task_def timeout_task_def invoke_graph_task_def bind_task_def [of "await_op _ _"]
      seq_task_def await_shared_def await_op_def assms)

lemma rest_of_run_resumed:
  assumes "prepare_input a (case rc_input request of None \<Rightarrow> [] | Some d \<Rightarrow> d) = Inr input_payload"
    and "build_runnable_config (rl_model_dump R) t (ac_assistant_id a) (rc_config request) (rc_checkpoint_id request) = Inr rc"
    and "get_graph_runtime cfg (ac_assistant_id a) = Inr g" "g_ainvoke g = Some f"
    and "acquire_lease t (w_server w) = (Inr l, s)"
  shows "goes_on (rest_of_run R rq late t request cfg (Inr a) v) Locking w (Guarded t) (w\<lparr>w_server := s\<rparr>)"
proof -
  obtain k where "invoke_under_lease_task R late cfg t (ac_assistant_id a) input_payload rc (w\<lparr>w_server := s\<rparr>) = Suspended (Guarded t) k"
    by (rule invoke_suspended [OF assms(3,4)])
  then show ?thesis
    unfolding rest_of_run_def answer_task_def sum.case assms(1,2) bind_finished
    by (intro goes_on_bind goes_on_with_lease [OF assms(5)])
qed


definition race_start :: "list_cache environment system" where
  "race_start = \<lparr>sys_world = demo_world still_server, sys_tasks = (\<lambda>_. None)\<rparr>"

definition demo_other_run :: run_create where
  "demo_other_run = demo_run_create\<lparr>rc_assistant_id := ''other''\<rparr>"

abbreviation race_step :: "list_cache environment system \<Rightarrow> list_cache environment system \<Rightarrow> bool" where
  "race_step \<equiv> sys_step list_libs (\<lambda>_. 0) demo_routes two_assistants (\<lambda>_. True) (\<lambda>_ _. False)"

definition claimed_by :: "run_create \<Rightarrow> list_cache environment server \<Rightarrow> list_cache environment server" where
  "claimed_by r s = snd (resolve_run_thread demo_routes demo_request ''t'' r two_assistants s)"

definition after_delete :: "list_cache environment server \<Rightarrow> list_cache environment server" where
  "after_delete s = snd (delete_thread_route (\<lambda>_. False) ''t'' two_assistants s)"

definition race_server :: "list_cache environment server" where
  "race_server = claimed_by demo_other_run (after_delete (claimed_by demo_run_create still_server))"

lemma race_facts:
  "\<not> isl (fst (resolve_run_thread demo_routes demo_request ''t'' demo_run_create two_assistants still_server))"
  "\<not> isl (fst (delete_thread_route (\<lambda>_. False) ''t'' two_assistants (claimed_by demo_run_create still_server)))"
  "\<not> isl (fst (resolve_run_thread demo_routes demo_request ''t'' demo_other_run two_assistants
      (after_delete (claimed_by demo_run_create still_server))))"
  "owner_in (env_view list_libs (sv_env race_server) ''t'') = Some ''other''"
  "\<not> busy (sv_coordinator race_server) ''t''"
  "\<not> int (length (active (sv_coordinator race_server))) \<ge> max_concurrent_runs (sv_coordinator race_server)"
  "\<not> isl (build_runnable_config (rl_model_dump demo_routes) ''t'' ''agent'' (rc_config demo_run_create) (rc_checkpoint_id demo_run_create))"
  by code_simp+

text \<open>What a task that is not disturbed leaves, from what the handler leaves.\<close>

lemma simulated:
  assumes "simulates (run_task m) n" "flags_ok w" "\<not> isl (fst (n (w_server w)))"
  obtains x w' where "run_task m w = (Inr x, w')" "flags_ok w'" "w_server w' = snd (n (w_server w))" "n (w_server w) = (Inr x, w_server w')"
proof -
  obtain r w' where run: "run_task m w = (r, w')" by (rule prod.exhaust)
  have "matches (run_task m) n w" using assms(1,2) by (simp add: simulates_def)
  then have "flags_ok w'" "n (w_server w) = (r, w_server w')" by (simp_all add: matches_def run)
  moreover from this obtain x where "r = Inr x" using assms(3) by (cases r) simp_all
  ultimately show thesis using that run by simp
qed


theorem claim_before_lease_is_lost:
  "\<exists>s. idle race_start \<and>
     race_step\<^sup>*\<^sup>* (race_start\<lparr>sys_tasks := (sys_tasks race_start)(0 \<mapsto>
         handle_task list_libs (\<lambda>_. 0) demo_routes two_assistants (demo_call (CreateRun ''t'' demo_run_create)) (sys_world race_start))\<rparr>) s \<and>
     inside s 0 ''t'' \<and> rc_assistant_id demo_run_create = ''agent'' \<and>
     owner_in (env_view list_libs (sv_env (w_server (sys_world s))) ''t'') = Some ''other''"
proof -
  let ?w = "demo_world still_server" and ?handle = "handle_task list_libs (\<lambda>_. 0) demo_routes two_assistants"
  let ?run = "\<lambda>r. demo_call (CreateRun ''t'' r) :: list_cache environment call"
  let ?delete = "demo_call (DeleteThread ''t'') :: list_cache environment call"
  let ?resolve = "\<lambda>r. resolve_run_thread_task demo_routes demo_request ''t'' r two_assistants"
  let ?rest = "\<lambda>r. rest_of_run demo_routes demo_request (\<lambda>_. False) ''t'' r two_assistants"
  have w: "flags_ok ?w" "w_server ?w = still_server" by (simp_all add: flags_ok_def demo_world_def)
  obtain a w1 where a: "run_task (?resolve demo_run_create) ?w = (Inr a, w1)" "flags_ok w1"
      "w_server w1 = claimed_by demo_run_create still_server"
      "resolve_run_thread demo_routes demo_request ''t'' demo_run_create two_assistants still_server = (Inr a, w_server w1)"
    using simulated [OF simulates_resolve w(1)] race_facts(1) unfolding w(2) claimed_by_def by metis
  obtain u w2 where u: "run_task (delete_thread_task (\<lambda>_. False) ''t'' two_assistants) w1 = (Inr u, w2)" "flags_ok w2"
      "w_server w2 = after_delete (claimed_by demo_run_create still_server)"
    using simulated [OF simulates_delete_thread a(2)] race_facts(2) unfolding a(3) after_delete_def by metis
  obtain b w3 where b: "run_task (?resolve demo_other_run) w2 = (Inr b, w3)" "flags_ok w3" "w_server w3 = race_server"
    using simulated [OF simulates_resolve u(2)] race_facts(3) unfolding u(3) claimed_by_def race_server_def by metis
  have "get_assistant_config two_assistants ''agent'' = Inr a"
    using resolve_assistant [OF a(4)] by (simp add: demo_run_create_def)
  then have agent: "a = demo_assistant"
    by (simp add: get_assistant_config_def get_assistant_def two_assistants_def)

  let ?s0 = "race_start\<lparr>sys_tasks := (sys_tasks race_start)(0 \<mapsto> ?handle (?run demo_run_create) (sys_world race_start))\<rparr>"
  let ?s1 = "?s0\<lparr>sys_world := w1, sys_tasks := (sys_tasks ?s0)(0 \<mapsto> ?rest demo_run_create (Inr a) w1)\<rparr>"
  let ?g = "\<lambda>r. case r of Inl e \<Rightarrow> finished (Inl e) | Inr x \<Rightarrow> finished (Inr NoContent)"
  let ?s2 = "?s1\<lparr>sys_world := w2, sys_tasks := (sys_tasks ?s1)(1 \<mapsto> ?g (Inr u) w2)\<rparr>"
  let ?s3 = "?s2\<lparr>sys_world := w3, sys_tasks := (sys_tasks ?s2)(2 \<mapsto> ?rest demo_other_run (Inr b) w3)\<rparr>"
  have split: "?handle (?run r) = seq_task (?resolve r) (?rest r)" if "unsupported_sync_options r = []" for r
    using run_task_split [of "?run r" "''t''" r list_libs "\<lambda>_. 0" demo_routes two_assistants] that by (simp add: demo_call_def)
  have plain: "unsupported_sync_options demo_run_create = []" "unsupported_sync_options demo_other_run = []" by code_simp+
  have "(work_step (\<lambda>_ _. False))\<^sup>*\<^sup>* ?s0 ?s1"
    by (rule undisturbed_steps [where x = "?resolve demo_run_create ?w"])
      (use a(1) in \<open>simp_all add: split [OF plain(1)] seq_task_def run_task_def race_start_def\<close>)
  then have p1: "race_step\<^sup>*\<^sup>* ?s0 ?s1" by (rule work_path)
  have p2: "race_step\<^sup>*\<^sup>* ?s1 ?s2"
    by (rule arrive_and_run [where cl = ?delete and m = "delete_thread_task (\<lambda>_. False) ''t'' two_assistants"])
      (use u(1) in \<open>simp_all add: race_start_def handle_task_def demo_call_def answer_task_def bind_task_def\<close>)
  have p3: "race_step\<^sup>*\<^sup>* ?s2 ?s3"
    by (rule arrive_and_run [where cl = "?run demo_other_run" and m = "?resolve demo_other_run"])
      (use b(1) in \<open>simp_all add: race_start_def split [OF plain(2)]\<close>)
  have path: "race_step\<^sup>*\<^sup>* ?s0 ?s3" by (rule rtranclp_trans [OF rtranclp_trans [OF p1 p2] p3])

  obtain l c where l: "acquire_lease ''t'' (w_server w3) = (Inr l, race_server\<lparr>sv_coordinator := c\<rparr>)"
    unfolding b(3) by (cases rule: acquire_lease_cases [of race_server "''t''"]) (use race_facts(5,6) in simp_all)
  have "goes_on (?rest demo_run_create (Inr a) w1) Locking w3 (Guarded ''t'') (w3\<lparr>w_server := race_server\<lparr>sv_coordinator := c\<rparr>\<rparr>)"
  proof (rule rest_of_run_resumed [OF _ _ _ _ l])
    show "prepare_input a (case rc_input demo_run_create of None \<Rightarrow> [] | Some d \<Rightarrow> d) = Inr (case rc_input demo_run_create of None \<Rightarrow> [] | Some d \<Rightarrow> d)"
      by (simp add: agent demo_assistant_def prepare_input_def)
    show "build_runnable_config (rl_model_dump demo_routes) ''t'' (ac_assistant_id a) (rc_config demo_run_create)
        (rc_checkpoint_id demo_run_create) = Inr (projr (build_runnable_config (rl_model_dump demo_routes) ''t'' ''agent''
        (rc_config demo_run_create) (rc_checkpoint_id demo_run_create)))"
      using race_facts(7) by (simp add: agent demo_assistant_def isl_def)
    show "get_graph_runtime two_assistants (ac_assistant_id a) = Inr demo_graph"
      by (simp add: agent demo_assistant_def get_graph_runtime_def two_assistants_def)
    show "g_ainvoke demo_graph = Some (the (g_ainvoke demo_graph))" by (simp add: demo_graph_def)
  qed
  then obtain k k' where k: "?rest demo_run_create (Inr a) w1 = Suspended Locking k"
      "k False w3 = (Suspended (Guarded ''t'') k', w3\<lparr>w_server := race_server\<lparr>sv_coordinator := c\<rparr>\<rparr>)"
    by (auto simp: goes_on_def)
  let ?s4 = "?s3\<lparr>sys_world := w3\<lparr>w_server := race_server\<lparr>sv_coordinator := c\<rparr>\<rparr>,
      sys_tasks := (sys_tasks ?s3)(0 \<mapsto> Suspended (Guarded ''t'') k')\<rparr>"
  have same: "with_env (sv_env (w_server w3)) w3 = w3" by (simp add: with_env_def)
  have "work_step (\<lambda>_ _. False) ?s3 ?s4"
    by (rule work_resume [where c = False and k = k and p = Locking and e = "sv_env (w_server w3)"]) (simp_all add: k same)
  then have "race_step\<^sup>*\<^sup>* ?s0 ?s4" using path sys_work by (meson rtranclp.rtrancl_into_rtrancl)
  moreover have "inside ?s4 0 ''t''" by (simp add: inside_def)
  moreover have "owner_in (env_view list_libs (sv_env (w_server (sys_world ?s4))) ''t'') = Some ''other''"
    using race_facts(4) by simp
  moreover have "idle race_start"
    by (simp add: idle_def race_start_def demo_world_def still_server_def free_server_def coordinator_ok_def)
  moreover have "rc_assistant_id demo_run_create = ''agent''" by (simp add: demo_run_create_def)
  ultimately show ?thesis by blast
qed

end
