(* ===== verification/Ownership.thy ===== *)
theory Ownership
  imports Concurrency
begin

text \<open>
  Who owns a thread while requests interleave, over the default thread store and the bounded saver.
  The discipline of \<open>Interleaving\<close> is taken a second time, with the relation that no operation gives
  a thread of one assistant to another; entries may expire at any moment. So a thread that is owned
  throughout a path of the system keeps its owner on it.
\<close>


section \<open>Operations that give nothing away\<close>

abbreviation owner_of :: "'c storage_libs \<Rightarrow> 'c environment \<Rightarrow> string \<Rightarrow> string option" where
  "owner_of L e t \<equiv> owner_in (env_view L e t)"

definition no_transfer :: "'c storage_libs \<Rightarrow> 'c environment \<Rightarrow> 'c environment \<Rightarrow> bool" where
  "no_transfer L e e' \<longleftrightarrow> env_ok L e' \<and> (\<forall>t b. owner_of L e t = Some b \<longrightarrow> owner_of L e' t \<in> {None, Some b})"

definition honest :: "'c storage_libs \<Rightarrow> ('c environment, exc, 'a) op \<Rightarrow> bool" where
  "honest L m \<longleftrightarrow> (\<forall>e. env_ok L e \<longrightarrow> no_transfer L e (snd (m e)))"

text \<open>Operations that leave the thread store alone, and those that keep or drop every owner.\<close>

definition frames_store :: "('c environment, exc, 'a) op \<Rightarrow> bool" where
  "frames_store m \<longleftrightarrow> (\<forall>e. env_store (snd (m e)) = env_store e)"

definition owned_by_none_or :: "'c storage_libs \<Rightarrow> string \<Rightarrow> string \<Rightarrow> 'c environment \<Rightarrow> bool" where
  "owned_by_none_or L t b e \<longleftrightarrow> env_ok L e \<and> owner_of L e t \<in> {None, Some b}"

lemma frames_store_iff: "frames_store m \<longleftrightarrow> (\<forall>S. preserves (\<lambda>e. env_store e = S) m)"
  by (auto simp: frames_store_def preserves_def wp_iff)

lemma same_store: "env_store e' = env_store e \<Longrightarrow> env_ok L e' = env_ok L e \<and> env_view L e' = env_view L e"
  by (simp add: env_ok_def env_view_def)

lemma no_transfer_same: "env_ok L e \<Longrightarrow> env_store e' = env_store e \<Longrightarrow> no_transfer L e e'"
  using same_store [of e' e L] by (simp add: no_transfer_def)

lemma honest_frames: "frames_store m \<Longrightarrow> honest L m"
  by (simp add: honest_def frames_store_def no_transfer_same)

lemma honest_preserves:
  assumes "preserves (env_ok L) m" "\<And>t b. preserves (owned_by_none_or L t b) m"
  shows "honest L m"
  unfolding honest_def no_transfer_def
proof (intro allI impI conjI)
  fix e assume e: "env_ok L e"
  show "env_ok L (snd (m e))" by (rule preservesD [OF assms(1) e])
  fix t b assume "owner_of L e t = Some b"
  then have "owned_by_none_or L t b e" using e by (simp add: owned_by_none_or_def)
  from preservesD [OF assms(2) this] show "owner_of L (snd (m e)) t \<in> {None, Some b}" by (simp add: owned_by_none_or_def)
qed

lemma honest_keeps_owner:
  assumes "\<And>e. env_ok L e \<Longrightarrow> wp m (\<lambda>_. default_store.keeps_owner L e) e"
  shows "honest L m"
  unfolding honest_def no_transfer_def
proof (intro allI impI conjI)
  fix e assume "env_ok L e"
  then have k: "default_store.keeps_owner L e (snd (m e))" using assms by (simp add: wp_iff)
  then show "env_ok L (snd (m e))" by (simp add: default_store.keeps_owner_def)
  fix t b assume "owner_of L e t = Some b"
  then obtain x where x: "env_view L e t = Some x" "st_assistant_id x = Some b"
    by (auto simp: owner_in_def split: option.splits)
  show "owner_of L (snd (m e)) t \<in> {None, Some b}"
  proof (cases "env_view L (snd (m e)) t")
    case (Some y)
    then have "st_assistant_id y = Some b" using k x unfolding default_store.keeps_owner_def by blast
    then show ?thesis by (simp add: owner_in_def Some)
  qed (simp add: owner_in_def)
qed

named_theorems honest_intros \<open>operations that give nothing away\<close>

lemma honest_store [honest_intros]:
  shows "honest L (so_get_thread (memory_store_ops L) k)"
    and "honest L (so_put_thread (memory_store_ops L) th)"
    and "honest L (so_get_assistant_id (memory_store_ops L) k)"
    and "honest L (so_claim_assistant (memory_store_ops L) k a)"
    and "honest L (so_delete_thread (memory_store_ops L) k)"
  by (rule honest_keeps_owner, rule default_store.get_keeps_owner, assumption)
    (rule honest_keeps_owner, rule default_store.put_keeps_owner, assumption,
     rule honest_keeps_owner, rule default_store.owner_keeps_owner, assumption,
     rule honest_keeps_owner, rule default_store.claim_keeps_owner, assumption,
     rule honest_keeps_owner, rule default_store.delete_keeps_owner, assumption)

lemma frames_on_saver: "frames_store (on_saver m)"
  by (simp add: frames_store_def on_saver_def case_prod_unfold)

lemma frames_saver:
  "frames_store (cp_aget_tuple (bounded_saver_ops P scfg) k)"
  "frames_store (cp_alist (bounded_saver_ops P scfg) q f b n)"
  "frames_store (cp_adelete_thread (bounded_saver_ops P scfg) t)"
  by (simp_all add: frames_on_saver)

lemma frames_state: "frames_store (get_thread_state str u now t (bounded_saver_ops P scfg) c ns)"
  unfolding frames_store_iff get_thread_state_def
  by (intro allI preserves_bind preserves_option preserves_basic frames_saver(1) [unfolded frames_store_iff, rule_format])

lemmas honest_saver [honest_intros] = frames_saver [THEN honest_frames] frames_state [THEN honest_frames]

lemma fades_owner: "fades f g \<Longrightarrow> owner_in (f t) \<in> {None, b} \<Longrightarrow> owner_in (g t) \<in> {None, b}"
  using fadesD [of f g t] by (cases "g t") (auto simp: owner_in_def)

lemma status_preserves:
  "preserves (owned_by_none_or L t b) (so_get_thread (memory_store_ops L) k)"
  "preserves (owned_by_none_or L t b) (so_put_thread (memory_store_ops L) th)"
proof -
  show "preserves (owned_by_none_or L t b) (so_get_thread (memory_store_ops L) k)"
    by (rule preservesI, rule wp_mono [OF default_store.get_law]) (auto simp: owned_by_none_or_def dest: fades_owner)
  show "preserves (owned_by_none_or L t b) (so_put_thread (memory_store_ops L) th)"
  proof (rule preservesI, rule wp_mono [OF default_store.put_law])
    fix e and r :: "exc + unit" and e'
    assume e: "owned_by_none_or L t b e" and r: "env_ok L e' \<and> put_result th (env_view L e) r (env_view L e')"
    show "owned_by_none_or L t b e'"
      using e r fades_owner [of _ "env_view L e'" t "Some b"]
      by (cases r) (fastforce simp: owned_by_none_or_def put_result_def owner_in_def split: if_splits)+
  qed (simp add: owned_by_none_or_def)
qed


text \<open>The stream of a run, which updates the status of its thread before and after the graph.\<close>

definition graphs_ignore_store :: "'c environment server_config \<Rightarrow> bool" where
  "graphs_ignore_store cfg \<longleftrightarrow>
     (\<forall>k g. get_graph_runtime cfg k = Inr g \<longrightarrow> graph_keeps_store g \<and>
        (\<forall>f p rc. g_ainvoke g = Some f \<longrightarrow> frames_store (f p rc)) \<and>
        (\<forall>f rc v n. g_aupdate_state g = Some f \<longrightarrow> frames_store (f rc v n)))"

lemma graph_preserves_store:
  assumes "graph_keeps_store g" "\<And>e e'. env_store e' = env_store e \<Longrightarrow> Q e \<Longrightarrow> Q e'"
  shows "graph_preserves Q g"
  unfolding graph_preserves_def
proof (intro allI impI)
  fix f p rc ms e assume f: "g_astream g = Some f" "Q e"
  obtain items ending e' where run: "f p rc ms e = (items, ending, e')" by (rule prod_cases3)
  have kept: "graph_preserves (\<lambda>v. env_store v = env_store e) g" using assms(1) by (simp add: graph_keeps_store_def)
  have "env_store e' = env_store e \<and> list_all (\<lambda>(_, v). env_store v = env_store e) items"
    using kept [unfolded graph_preserves_def, rule_format, OF f(1) refl, of p rc ms] by (simp add: run)
  then show "case f p rc ms e of (items, _, e') \<Rightarrow> Q e' \<and> list_all (\<lambda>(_, v). Q v) items"
    using assms(2) f(2) by (auto simp: run list_all_iff)
qed

lemma status_ok:
  assumes "\<And>k. preserves Q (so_get_thread S k)" "\<And>th. preserves Q (so_put_thread S th)"
  shows "preserves Q (set_thread_status S n t st)"
  unfolding set_thread_status_def by (intro preserves_bind preserves_option preserves_basic assms)

lemma honest_stream:
  assumes "graph_keeps_store g"
  shows "honest L (stream_op late seconds (stream_generator R rq a request t g (memory_store_ops L)))"
proof -
  have kept: "preserves Q (stream_op late seconds (stream_generator R rq a request t g (memory_store_ops L)))"
    if "\<And>e e'. env_store e' = env_store e \<Longrightarrow> Q e \<Longrightarrow> Q e'"
      "\<And>k. preserves Q (so_get_thread (memory_store_ops L) k)" "\<And>th. preserves Q (so_put_thread (memory_store_ops L) th)" for Q
  proof (rule preservesI)
    fix e assume e: "Q e"
    obtain evs left e' where run: "stream_generator R rq a request t g (memory_store_ops L) e = (evs, left, e')" by (rule prod_cases3)
    have "Q e'"
      by (rule stream_response_preserves [OF graph_preserves_store [OF assms that(1)] status_ok [OF that(2,3)] e
            run [unfolded stream_generator_def]])
    then show "wp (stream_op late seconds (stream_generator R rq a request t g (memory_store_ops L))) (\<lambda>_. Q) e"
      by (simp add: wp_def stream_op_def run)
  qed
  show ?thesis
  proof (rule honest_preserves)
    show "preserves (env_ok L) (stream_op late seconds (stream_generator R rq a request t g (memory_store_ops L)))"
      by (rule kept [OF _ default_store_preserves]) (blast dest: same_store)
    show "preserves (owned_by_none_or L u b) (stream_op late seconds (stream_generator R rq a request t g (memory_store_ops L)))" for u b
      by (rule kept [OF _ status_preserves]) (unfold owned_by_none_or_def, metis same_store)
  qed
qed

text \<open>A stateless run has a store of its own.\<close>

lemma frames_with_store:
  assumes "\<And>S. preserves (\<lambda>p. env_store (fst p) = S) f"
  shows "frames_store (with_store m f)"
  unfolding frames_store_def
proof
  fix e
  obtain r p where run: "f (e, m) = (r, p)" by (rule prod.exhaust)
  have "env_store (fst p) = env_store e" using preservesD [OF assms, of "(e, m)" "env_store e"] by (simp add: run)
  then show "env_store (snd (with_store m f e)) = env_store e" by (cases r) (simp_all add: with_store_def run)
qed

lemma stateless_saver_frames:
  "map_option checkpointer_on_first (Some (bounded_saver_ops P scfg)) = Some c \<Longrightarrow>
   preserves (\<lambda>p. env_store (fst p) = S) (cp_aget_tuple c k)"
  by (auto simp: checkpointer_on_first_def intro!: preserves_on_first frames_on_saver [unfolded frames_store_iff, rule_format])

lemma stateless_store_frames:
  "preserves (\<lambda>p. env_store (fst p) = S) (so_get_thread (ephemeral_store_ops L) k)"
  "preserves (\<lambda>p. env_store (fst p) = S) (so_put_thread (ephemeral_store_ops L) th)"
  "preserves (\<lambda>p. env_store (fst p) = S) (so_get_assistant_id (ephemeral_store_ops L) k)"
  "preserves (\<lambda>p. env_store (fst p) = S) (so_claim_assistant (ephemeral_store_ops L) k a)"
  by (simp_all add: ephemeral_store_ops_def preserves_on_second [where Q = "\<lambda>v. env_store v = S"])

lemma honest_stateless [honest_intros]:
  "honest L (with_store m (get_or_create_thread R rq tid (map_option checkpointer_on_first (Some (bounded_saver_ops P scfg)))
     (ephemeral_store_ops L') md))"
  "honest L (with_store m (claim_thread_assistant t a (map_option checkpointer_on_first (Some (bounded_saver_ops P scfg)))
     (ephemeral_store_ops L')))"
  by (intro honest_frames frames_with_store get_or_create_preserves claim_preserves stateless_store_frames;
      erule stateless_saver_frames)+

lemma honest_stateless_stream:
  assumes "graph_keeps_store g"
  shows "honest L (stream_op late seconds (delete_stateless_checkpoints
    (stream_with_store m (stream_generator R rq a request t (graph_on_first g) (ephemeral_store_ops L')))
    (Some (bounded_saver_ops P scfg)) t))"
proof (rule honest_frames)
  let ?f = "stream_with_store m (stream_generator R rq a request t (graph_on_first g) (ephemeral_store_ops L'))"
  let ?C = "bounded_saver_ops P scfg"
  have "env_store e' = env_store e" if "delete_stateless_checkpoints ?f (Some ?C) t e = (evs, left, e')" for e evs left e'
  proof -
    obtain evs1 left1 e1 where run: "?f e = (evs1, left1, e1)" by (rule prod_cases3)
    have "env_store e1 = env_store e"
      using assms unfolding graph_keeps_store_def
      by (intro stateless_stream_preserves [OF _ _ run, where Q = "\<lambda>v. env_store v = env_store e"]) auto
    moreover have "e' = snd (cp_adelete_thread ?C t e1)"
      using that by (auto simp: delete_stateless_checkpoints_def run split: prod.splits sum.splits exc.splits)
    ultimately show ?thesis using frames_saver(3) unfolding frames_store_def by metis
  qed
  then show "frames_store (stream_op late seconds (delete_stateless_checkpoints ?f (Some ?C) t))"
    by (auto simp: frames_store_def stream_op_def split: prod.split)
qed



section \<open>The handlers\<close>

definition owner_fits :: "'c storage_libs \<Rightarrow> unit \<Rightarrow> 'c environment world \<Rightarrow> bool" where
  "owner_fits L h w \<longleftrightarrow> env_ok L (sv_env (w_server w))"

definition owner_guard :: "phase \<Rightarrow> unit \<Rightarrow> bool" where
  "owner_guard p h \<longleftrightarrow> True"

definition owner_move ::
  "'c storage_libs \<Rightarrow> phase \<Rightarrow> unit \<Rightarrow> 'c environment world \<Rightarrow> 'c environment world \<Rightarrow> unit \<Rightarrow> bool" where
  "owner_move L p h w w' h' \<longleftrightarrow>
     (env_ok L (sv_env (w_server w)) \<longrightarrow> no_transfer L (sv_env (w_server w)) (sv_env (w_server w')))"

interpretation owners: discipline "owner_fits L" owner_guard "owner_move L" for L
  by unfold_locales (simp add: owner_fits_def owner_move_def no_transfer_def)

abbreviation safe :: "'c storage_libs \<Rightarrow> (phase, 'c environment world, 'a) task \<Rightarrow> bool" where
  "safe L \<equiv> discipline.steady (owner_fits L) owner_guard (owner_move L) ()"

lemma owner_move_stay: "sv_env (w_server w') = sv_env (w_server w) \<Longrightarrow> owner_move L p h w w' h'"
  by (simp add: owner_move_def no_transfer_same)

lemma safe_await [steady_intros]: "honest L m \<Longrightarrow> safe L (await_shared p m)"
  unfolding owners.steady_def await_shared_def
  by (rule owners.await_ok) (auto simp: owner_guard_def owner_move_stay, simp add: owner_move_def honest_def shared_apply)

lemma safe_suspend [steady_intros]: "safe L (suspend p)"
  unfolding owners.steady_def by (rule owners.suspend_ok) (auto simp: owner_guard_def owner_move_stay)

lemma safe_timeout [steady_intros]: "safe L m \<Longrightarrow> safe L (timeout_task late seconds m)"
  unfolding timeout_task_def by (intro owners.steady_seq owners.steady_reader)

lemma acquire_lease_same_env: "sv_env (snd (acquire_lease t s)) = sv_env s"
  by (cases rule: acquire_lease_cases [of s t]) simp_all

lemma safe_acquire [steady_intros]: "safe L (acquire_task t)"
  unfolding owners.steady_def disciplined_task_def acquire_task_def
  by (auto simp: disc_suspended_iff disc_finished_iff owner_guard_def owner_move_stay acquire_lease_same_env case_prod_unfold)

lemma safe_release [steady_intros]: "safe L (release_task l)"
  unfolding owners.steady_def disciplined_task_def release_task_def
  by (auto simp: disc_suspended_iff disc_finished_iff owner_guard_def owner_move_stay free_slot_def)

lemma safe_with_lease [steady_intros]: "safe L body \<Longrightarrow> safe L (with_lease_task t body)"
  unfolding with_lease_task_def by (intro steady_intros owners.steady_finally)

text \<open>The parts, over the default store and saver.\<close>

abbreviation saver_of :: "parent_ops \<Rightarrow> checkpoint_config \<Rightarrow> 'c environment checkpointer_ops option" where
  "saver_of P scfg \<equiv> Some (bounded_saver_ops P scfg)"

lemma safe_thread_from_checkpoint [steady_intros]: "safe L (thread_from_checkpoint_task p R now t (saver_of P scfg))"
  unfolding thread_from_checkpoint_task_def option.case by (intro steady_intros honest_intros)

lemma safe_get_or_create_thread [steady_intros]:
  "safe L (get_or_create_thread_task p R rq t (saver_of P scfg) (memory_store_ops L) md)"
  unfolding get_or_create_thread_task_def Let_def by (intro steady_intros honest_intros)

lemma safe_thread_exists [steady_intros]: "safe L (thread_exists_task p R rq t (saver_of P scfg) (memory_store_ops L))"
  unfolding thread_exists_task_def by (intro steady_intros honest_intros)

lemma safe_get_thread_assistant_id [steady_intros]:
  "safe L (get_thread_assistant_id_task p t (saver_of P scfg) (memory_store_ops L))"
  unfolding get_thread_assistant_id_task_def
  by (rule owners.steady_bind, intro steady_intros honest_intros, rename_tac a, case_tac a)
    (simp_all only: prod.case option.case, (intro steady_intros honest_intros)+)

lemma safe_claim_thread_assistant [steady_intros]:
  "safe L (claim_thread_assistant_task p t a (saver_of P scfg) (memory_store_ops L))"
  unfolding claim_thread_assistant_task_def by (intro steady_intros honest_intros)

lemma default_configD:
  assumes "default_config L P scfg cfg"
  shows "get_thread_store cfg = memory_store_ops L" "get_checkpointer cfg = saver_of P scfg"
  using assms by (simp_all add: default_config_def)

lemma safe_thread_handlers:
  assumes "default_config L P scfg cfg"
  shows "safe L (create_thread_task R rq b cfg)"
    and "safe L (get_thread_task R rq t cfg)"
    and "safe L (get_state_task R rq t cfg)"
    and "safe L (get_state_checkpoint_task R rq t sr cfg)"
    and "safe L (get_history_task R rq t hr cfg)"
    and "safe L (delete_thread_task late t cfg)"
    and "safe L (resolve_run_thread_task R rq t request cfg)"
  unfolding create_thread_task_def get_thread_task_def get_state_task_def get_state_checkpoint_task_def
    get_history_task_def delete_thread_task_def delete_under_lease_task_def resolve_run_thread_task_def Let_def
    default_configD [OF assms] require_checkpointer_def option.case bind_finished
  by (intro steady_intros honest_intros)+


lemma safe_update_state:
  assumes "default_config L P scfg cfg" "graphs_ignore_store cfg"
  shows "safe L (update_state_task R rq late t su cfg)"
proof -
  have update: "safe L (case g_aupdate_state g of
      None \<Rightarrow> finished (Inl e)
    | Some update \<Rightarrow> try_task (timeout_task late seconds (await_shared (Guarded t) (update (f update) v n))) h)"
    if "get_graph_runtime cfg a = Inr g" for a g e f v n h seconds
    using assms(2) [unfolded graphs_ignore_store_def, rule_format, OF that]
    by (cases "g_aupdate_state g") (auto intro!: steady_intros honest_frames)
  have "safe L (update_under_lease_task R rq late t su cfg (bounded_saver_ops P scfg))"
    unfolding update_under_lease_task_def Let_def default_configD [OF assms(1)]
    by (rule steady_intros honest_intros owners.steady_known update)+
  then show ?thesis
    unfolding update_state_task_def default_configD [OF assms(1)] require_checkpointer_def option.case bind_finished
    by (intro steady_intros)
qed

lemma safe_create_run:
  assumes "default_config L P scfg cfg" "graphs_ignore_store cfg"
  shows "safe L (create_run_task R rq late t request cfg)"
proof -
  have "safe L (invoke_under_lease_task R late cfg t a p rc)" for a p rc
    unfolding invoke_under_lease_task_def
  proof (intro owners.steady_try safe_timeout owners.steady_known)
    fix g assume "get_graph_runtime cfg a = Inr g"
    then show "safe L (invoke_graph_task t (py_str (rl_text R)) g p rc)"
      using assms(2) [unfolded graphs_ignore_store_def, rule_format]
      by (cases "g_ainvoke g") (auto simp: invoke_graph_task_def intro!: steady_intros honest_frames)
  qed
  then show ?thesis
    unfolding create_run_task_def Let_def by (intro steady_intros safe_thread_handlers(7) [OF assms(1)])
qed

lemma safe_respond:
  assumes "honest L (stream_op late seconds generator)"
  shows "safe L (respond_task T late bg t generator lease seconds)"
  unfolding respond_task_def run_with_lease_task_def
  by (intro owners.steady_seq steady_intros owners.steady_finally assms)

lemma safe_streaming:
  assumes "\<And>g. r = Inr g \<Longrightarrow> honest L (stream_op late seconds (gen g))"
  shows "safe L (bind_task (acquire_task t) (\<lambda>l. bind_task (finished r) (\<lambda>g. respond_task T late bg t (gen g) l seconds)))"
  by (rule owners.steady_bind [OF safe_acquire], rule owners.steady_known, rule safe_respond, rule assms)

lemma graph_of_store: "graphs_ignore_store cfg \<Longrightarrow> get_graph_runtime cfg a = Inr g \<Longrightarrow> graph_keeps_store g"
  by (simp add: graphs_ignore_store_def)

lemma safe_stream_run:
  assumes "default_config L P scfg cfg" "graphs_ignore_store cfg"
  shows "safe L (stream_run_with_thread_task R rq late bg t request cfg)"
  unfolding stream_run_with_thread_task_def default_configD [OF assms(1)]
proof (rule owners.steady_bind [OF owners.steady_raise], rule owners.steady_bind [OF safe_thread_handlers(7) [OF assms(1)]])
  show "safe L (bind_task (acquire_task t) (\<lambda>l. bind_task (finished (get_graph_runtime cfg (ac_assistant_id a))) (\<lambda>g.
      respond_task (rl_text R) late bg t (stream_generator R rq a request t g (memory_store_ops L)) l (cfg_run_timeout_seconds cfg))))" for a
    by (rule safe_streaming) (rule honest_stream, rule graph_of_store [OF assms(2)])
qed

lemma safe_stateless:
  assumes "default_config L P scfg cfg" "graphs_ignore_store cfg"
  shows "safe L (stream_run_stateless_task L' clock R rq late bg request cfg)"
proof -
  have "safe L (bind_task (acquire_task t) (\<lambda>l. bind_task (finished (get_graph_runtime cfg k)) (\<lambda>g.
      respond_task T late bg t (delete_stateless_checkpoints
        (stream_with_store m (stream_generator R rq a request t (graph_on_first g) (ephemeral_store_ops L'))) (saver_of P scfg) t)
        l seconds)))" for t k T m a seconds
    by (rule safe_streaming) (rule honest_stateless_stream, rule graph_of_store [OF assms(2)])
  then show ?thesis
    unfolding stream_run_stateless_task_def Let_def default_configD [OF assms(1)]
    by (rule_tac owners.steady_bind [OF owners.steady_finished], rule_tac owners.steady_bind [OF owners.steady_raise],
        rule_tac owners.steady_bind [OF owners.steady_finished], rule_tac owners.steady_bind [OF safe_await [OF honest_stateless(1)]],
        rule_tac owners.steady_cases(3), rule_tac owners.steady_bind [OF safe_await [OF honest_stateless(2)]],
        rule_tac owners.steady_cases(3))
qed

lemma safe_answer: "safe L m \<Longrightarrow> safe L (answer_task f m)"
  unfolding answer_task_def by (intro steady_intros)

lemma safe_handle:
  assumes "default_config L P scfg cfg" "graphs_ignore_store cfg"
  shows "safe L (handle_task L' clock R cfg cl)"
  unfolding handle_task_def Let_def
  by (cases "cl_request cl")
    (simp_all add: safe_answer safe_thread_handlers [OF assms(1)] safe_update_state [OF assms] safe_create_run [OF assms]
      safe_stream_run [OF assms] safe_stateless [OF assms])



section \<open>Properties\<close>

text \<open>Beside the requests nothing writes to the thread store, which is the server's own.\<close>

definition same_store_only :: "'c environment \<Rightarrow> 'c environment \<Rightarrow> bool" where
  "same_store_only e e' \<longleftrightarrow> env_store e' = env_store e"

abbreviation sys_owner :: "'c storage_libs \<Rightarrow> 'c environment system \<Rightarrow> string \<Rightarrow> string option" where
  "sys_owner L s t \<equiv> owner_of L (sv_env (w_server (sys_world s))) t"

definition owner_inv :: "'c storage_libs \<Rightarrow> 'c environment system \<Rightarrow> bool" where
  "owner_inv L s \<longleftrightarrow> env_ok L (sv_env (w_server (sys_world s))) \<and>
     (\<forall>i x. sys_tasks s i = Some x \<longrightarrow> disciplined (owner_fits L) owner_guard (owner_move L) (\<lambda>_ h'. h' = ()) () x)"

lemma owner_kept_step:
  assumes "default_config L P scfg cfg" "graphs_ignore_store cfg"
    and "owner_inv L s" "sys_step L' clock R cfg served same_store_only s s'"
  shows "owner_inv L s' \<and> no_transfer L (sv_env (w_server (sys_world s))) (sv_env (w_server (sys_world s')))"
  using assms(4)
proof (cases rule: sys_step.cases)
  case (sys_arrive i cl)
  have "owner_fits L () (sys_world s)" using assms(3) by (simp add: owner_inv_def owner_fits_def)
  then have "disciplined (owner_fits L) owner_guard (owner_move L) (\<lambda>_ h'. h' = ()) () (handle_task L' clock R cfg cl (sys_world s))"
    using safe_handle [OF assms(1,2)] unfolding owners.steady_def disciplined_task_def by blast
  then show ?thesis using assms(3) by (auto simp: sys_arrive(1) owner_inv_def no_transfer_def)
next
  case sys_work
  then show ?thesis
  proof (cases rule: work_step.cases)
    case (work_resume i p k e c x w)
    let ?now = "with_env e (sys_world s)"
    have same: "env_store e = env_store (sv_env (w_server (sys_world s)))" using work_resume(3) by (auto simp: same_store_only_def)
    have ok: "owner_fits L () ?now"
      using assms(3) same_store [OF same] by (simp add: owner_inv_def owner_fits_def with_env_def)
    have "disciplined (owner_fits L) owner_guard (owner_move L) (\<lambda>_ h'. h' = ()) () (Suspended p k)"
      using assms(3) work_resume(2) by (simp add: owner_inv_def)
    then have "owner_move L p () ?now w ()" and x: "disciplined (owner_fits L) owner_guard (owner_move L) (\<lambda>_ h'. h' = ()) () x"
      using ok work_resume(4) unfolding disc_suspended_iff by (metis fst_conv snd_conv old.unit.exhaust)+
    then have "no_transfer L e (sv_env (w_server w))"
      using ok by (simp add: owner_move_def owner_fits_def with_env_def)
    then have "no_transfer L (sv_env (w_server (sys_world s))) (sv_env (w_server w))"
      using same_store [OF same] by (simp add: no_transfer_def)
    then show ?thesis using assms(3) x by (auto simp: work_resume(1) owner_inv_def no_transfer_def)
  next
    case (work_release t n)
    then show ?thesis
      using assms(3) by (auto simp: owner_inv_def released_detached_def free_slot_def intro: no_transfer_same)
  qed
qed

lemma owner_inv_steps:
  assumes "(sys_step L' clock R cfg served same_store_only)\<^sup>*\<^sup>* s s'" "default_config L P scfg cfg" "graphs_ignore_store cfg" "owner_inv L s"
  shows "owner_inv L s'"
  using assms(1,4) by (induction rule: rtranclp_induct) (blast dest: owner_kept_step [OF assms(2,3)])+


lemma demo_graphs_ignore_store: "graphs_ignore_store demo_config"
  using demo_graph_keeps_store
  by (auto simp: graphs_ignore_store_def get_graph_runtime_def demo_config_def demo_graph_def frames_store_def ret_def split: if_splits)


end
