(* ===== verification/Middleware.thy ===== *)
theory Middleware
  imports PyValues
begin

text \<open>
  \<open>RequestBodyLimitMiddleware\<close> (\<open>middleware.py\<close>). The server's \<open>receive\<close> is the sequence of the
  messages its calls return; the application behind the middleware is a parameter that gets a
  \<open>receive\<close> of its own. The loop that buffers messages need not end, so it is a partial
  function: \<open>None\<close> is a request the middleware keeps waiting for.
\<close>


section \<open>Messages and headers\<close>

text \<open>Bytes are strings of \<open>char\<close>. A missing \<open>body\<close> or \<open>more_body\<close> key is \<open>None\<close>.\<close>

datatype message =
    HttpRequest "string option" "bool option"
  | HttpDisconnect
  | OtherMessage string

record scope =
  scope_type :: string
  scope_headers :: "(string \<times> string) list"

definition body_of :: "message \<Rightarrow> string" where
  "body_of m = (case m of HttpRequest (Some b) _ \<Rightarrow> b | _ \<Rightarrow> [])"

definition is_request :: "message \<Rightarrow> bool" where
  "is_request m = (case m of HttpRequest _ _ \<Rightarrow> True | _ \<Rightarrow> False)"

definition more_of :: "message \<Rightarrow> bool" where
  "more_of m = (case m of HttpRequest _ (Some b) \<Rightarrow> b | _ \<Rightarrow> False)"

text \<open>\<open>dict(headers)\<close>: of several headers of one name the last counts.\<close>

definition header_dict :: "(string \<times> string) list \<Rightarrow> (string, string) dict" where
  "header_dict hs = fold (\<lambda>(k, v) d. dict_set d k v) hs []"

text \<open>
  \<open>int(b)\<close> on bytes: white space around, a sign, decimal digits with single underscores between
  them, at most 4300 digits; anything else is a \<open>ValueError\<close>, \<open>None\<close> here.
\<close>

definition is_space :: "char \<Rightarrow> bool" where
  "is_space c \<longleftrightarrow> of_char c \<in> {9, 10, 11, 12, 13, 32 :: nat}"

definition is_digit :: "char \<Rightarrow> bool" where
  "is_digit c \<longleftrightarrow> 48 \<le> (of_char c :: nat) \<and> (of_char c :: nat) \<le> 57"

fun digits_ok :: "string \<Rightarrow> bool" where
  "digits_ok [] = False"
| "digits_ok [c] = is_digit c"
| "digits_ok (c # d # cs) = (is_digit c \<and> (if d = CHR ''_'' then digits_ok cs else digits_ok (d # cs)))"

definition digits_value :: "string \<Rightarrow> int" where
  "digits_value cs = foldl (\<lambda>n c. 10 * n + (int (of_char c) - 48)) 0 (filter is_digit cs)"

definition strip :: "string \<Rightarrow> string" where
  "strip cs = rev (dropWhile is_space (rev (dropWhile is_space cs)))"

definition py_int :: "string \<Rightarrow> int option" where
  "py_int b =
     (let cs = strip b;
          (negative, ds) = (case cs of
             c # rest \<Rightarrow> if c = CHR ''-'' then (True, rest) else if c = CHR ''+'' then (False, rest) else (False, cs)
           | [] \<Rightarrow> (False, []))
      in if digits_ok ds \<and> length (filter is_digit ds) \<le> 4300
         then Some (if negative then - digits_value ds else digits_value ds) else None)"

definition declared_too_large :: "int \<Rightarrow> scope \<Rightarrow> bool" where
  "declared_too_large max_body_bytes sc =
     (case dict_get (header_dict (scope_headers sc)) ''content-length'' of
        None \<Rightarrow> False
      | Some content_length \<Rightarrow>
          (let declared_length = (case py_int content_length of None \<Rightarrow> 0 | Some n \<Rightarrow> n)
           in declared_length > max_body_bytes))"


section \<open>The middleware\<close>

text \<open>The loop: the messages read, and whether the limit was crossed by the last of them.\<close>

partial_function (option) read_body ::
  "(nat \<Rightarrow> message) \<Rightarrow> int \<Rightarrow> nat \<Rightarrow> int \<Rightarrow> message list \<Rightarrow> (bool \<times> message list) option" where
  "read_body receive max_body_bytes i consumed messages =
     (let message = receive i; messages' = messages @ [message] in
      if is_request message
      then (let consumed' = consumed + int (length (body_of message)) in
            if consumed' > max_body_bytes then Some (True, messages')
            else if \<not> more_of message then Some (False, messages')
            else read_body receive max_body_bytes (Suc i) consumed' messages')
      else if message = HttpDisconnect then Some (False, messages')
      else read_body receive max_body_bytes (Suc i) consumed messages')"

declare read_body.simps [code]

text \<open>
  \<open>replay_receive\<close>: the result of its \<open>k\<close>-th call. When the buffered messages are used up it
  calls the server's \<open>receive\<close>, whose calls so far are as many as there are buffered messages.
\<close>

definition replay_receive :: "message list \<Rightarrow> (nat \<Rightarrow> message) \<Rightarrow> nat \<Rightarrow> message" where
  "replay_receive messages receive k =
     (if k < length messages then messages ! k
      else receive (length messages + (k - length messages)))"

datatype 'r response = Rejected413 | FromApp 'r

definition request_body_limit ::
  "int \<Rightarrow> (scope \<Rightarrow> (nat \<Rightarrow> message) \<Rightarrow> 'r) \<Rightarrow> scope \<Rightarrow> (nat \<Rightarrow> message) \<Rightarrow> 'r response option" where
  "request_body_limit max_body_bytes app sc receive =
     (if scope_type sc \<noteq> ''http'' then Some (FromApp (app sc receive))
      else if declared_too_large max_body_bytes sc then Some Rejected413
      else (case read_body receive max_body_bytes 0 0 [] of
              None \<Rightarrow> None
            | Some (True, _) \<Rightarrow> Some Rejected413
            | Some (False, messages) \<Rightarrow> Some (FromApp (app sc (replay_receive messages receive)))))"


section \<open>What the loop reads\<close>

definition ends :: "message \<Rightarrow> bool" where
  "ends m \<longleftrightarrow> m = HttpDisconnect \<or> (is_request m \<and> \<not> more_of m)"

definition body_bytes :: "(nat \<Rightarrow> message) \<Rightarrow> nat \<Rightarrow> int" where
  "body_bytes receive k = (\<Sum>i<k. int (length (body_of (receive i))))"

lemma body_of_other: "\<not> is_request m \<Longrightarrow> body_of m = []"
  by (cases m) (auto simp: is_request_def body_of_def)

lemma body_bytes_Suc [simp]: "body_bytes receive (Suc k) = body_bytes receive k + int (length (body_of (receive k)))"
  by (simp add: body_bytes_def)

lemma body_bytes_mono: "i \<le> j \<Longrightarrow> body_bytes receive i \<le> body_bytes receive j"
  unfolding body_bytes_def by (rule sum_mono2) auto

text \<open>One iteration, with the totals written as sums.\<close>

lemma read_body_step:
  "read_body receive m i (body_bytes receive i) (map receive [0..<i]) =
     (if body_bytes receive (Suc i) > m \<and> is_request (receive i) then Some (True, map receive [0..<Suc i])
      else if ends (receive i) then Some (False, map receive [0..<Suc i])
      else read_body receive m (Suc i) (body_bytes receive (Suc i)) (map receive [0..<Suc i]))"
  by (subst read_body.simps) (auto simp: Let_def ends_def is_request_def body_of_other)

lemma read_body_skip:
  assumes "\<And>j. i \<le> j \<Longrightarrow> j < k \<Longrightarrow> \<not> ends (receive j)" "body_bytes receive k \<le> m" "i \<le> k"
  shows "read_body receive m i (body_bytes receive i) (map receive [0..<i]) =
    read_body receive m k (body_bytes receive k) (map receive [0..<k])"
  using assms(3,1)
proof (induction i rule: inc_induct)
  case (step i)
  have "body_bytes receive (Suc i) \<le> m"
    using body_bytes_mono [of "Suc i" k receive] assms(2) step.hyps by linarith
  then show ?case using step by (subst read_body_step) (simp del: body_bytes_Suc)
qed simp

definition reads_until :: "(nat \<Rightarrow> message) \<Rightarrow> nat \<Rightarrow> bool" where
  "reads_until receive k \<longleftrightarrow> (\<forall>j<k. \<not> ends (receive j))"

text \<open>The three ways the loop goes on: it stops within the limit, it crosses it, or neither ever.\<close>

lemma read_body_within:
  assumes "reads_until receive k" "ends (receive k)" "body_bytes receive (Suc k) \<le> m"
  shows "read_body receive m 0 0 [] = Some (False, map receive [0..<Suc k])"
proof -
  have "body_bytes receive k \<le> m" using body_bytes_mono [of k "Suc k" receive] assms(3) by simp
  from read_body_skip [of 0 k receive, OF _ this]
  have "read_body receive m 0 0 [] = read_body receive m k (body_bytes receive k) (map receive [0..<k])"
    using assms(1) by (simp add: reads_until_def body_bytes_def)
  then show ?thesis using assms(2,3) by (simp add: read_body_step [of receive m k] del: body_bytes_Suc)
qed

lemma read_body_crossing:
  assumes "reads_until receive k" "body_bytes receive k \<le> m" "m < body_bytes receive (Suc k)"
  shows "read_body receive m 0 0 [] = Some (True, map receive [0..<Suc k])"
proof -
  from read_body_skip [of 0 k receive, OF _ assms(2)]
  have "read_body receive m 0 0 [] = read_body receive m k (body_bytes receive k) (map receive [0..<k])"
    using assms(1) by (simp add: reads_until_def body_bytes_def)
  moreover have "is_request (receive k)" using assms(2,3) body_of_other [of "receive k"] by (cases "is_request (receive k)") auto
  ultimately show ?thesis using assms(3) by (simp add: read_body_step [of receive m k] del: body_bytes_Suc)
qed

lemma read_body_forever:
  assumes "\<And>k. \<not> ends (receive k)" "\<And>k. body_bytes receive k \<le> m"
  shows "read_body receive m 0 0 [] = None"
proof -
  have "\<not> (\<forall>k. \<not> ends (rc k) \<and> body_bytes rc k \<le> mx) \<or> consumed \<noteq> body_bytes rc i \<or> msgs \<noteq> map rc [0..<i]"
    if "read_body rc mx i consumed msgs = Some y" for rc mx i consumed msgs y
    using that
  proof (induction rule: read_body.raw_induct [rotated, consumes 1, case_names step])
    case (step rb rc mx i consumed msgs y)
    show ?case
    proof (rule ccontr)
      assume "\<not> ?case"
      then have never: "\<And>k. \<not> ends (rc k)" "\<And>k. body_bytes rc k \<le> mx"
        and here: "consumed = body_bytes rc i" "msgs = map rc [0..<i]" by auto
      have "body_bytes rc (Suc i) \<le> mx" by (rule never(2))
      then have "rb rc mx (Suc i) (body_bytes rc (Suc i)) (map rc [0..<Suc i]) = Some y"
        using step.hyps never(1) [of i] here body_of_other [of "rc i"]
        by (auto simp: ends_def Let_def split: if_splits)
      from step.IH [OF this] show False using never by auto
    qed
  qed
  from this [of receive m 0 0 "[]"] show ?thesis
    using assms by (cases "read_body receive m 0 0 []") (auto simp: body_bytes_def)
qed

text \<open>Exactly one of the three happens.\<close>

lemma read_body_cases:
  assumes "0 \<le> m"
  obtains (within) k where "reads_until receive k" "ends (receive k)" "body_bytes receive (Suc k) \<le> m"
      "read_body receive m 0 0 [] = Some (False, map receive [0..<Suc k])"
  | (crossing) k where "reads_until receive k" "body_bytes receive k \<le> m" "m < body_bytes receive (Suc k)"
      "read_body receive m 0 0 [] = Some (True, map receive [0..<Suc k])"
  | (forever) "\<And>k. \<not> ends (receive k)" "\<And>k. body_bytes receive k \<le> m" "read_body receive m 0 0 [] = None"
proof (cases "\<exists>k. ends (receive k) \<or> m < body_bytes receive (Suc k)")
  case True
  define k where "k = (LEAST k. ends (receive k) \<or> m < body_bytes receive (Suc k))"
  have k: "ends (receive k) \<or> m < body_bytes receive (Suc k)" unfolding k_def using True by (rule LeastI_ex)
  have least: "\<not> ends (receive j) \<and> body_bytes receive (Suc j) \<le> m" if "j < k" for j
    using not_less_Least [OF that [unfolded k_def]] by (simp add: not_less)
  then have until: "reads_until receive k" by (simp add: reads_until_def)
  show ?thesis
  proof (cases "m < body_bytes receive (Suc k)")
    case False
    then show ?thesis using within [OF until] k read_body_within [OF until] by simp
  next
    case crossed: True
    show ?thesis
    proof (cases "body_bytes receive k \<le> m")
      case True
      then show ?thesis using crossing [OF until] crossed read_body_crossing [OF until] by simp
    next
      case False
      then have "k = 0" using least [of "k - 1"] by (cases k) simp_all
      then have "m < 0" using False by (simp add: body_bytes_def)
      then show ?thesis using assms by simp
    qed
  qed
next
  case False
  then have never: "\<not> ends (receive k)" "body_bytes receive (Suc k) \<le> m" for k by (auto simp: not_less)
  have le: "body_bytes receive k \<le> m" for k using never(2) [of k] body_bytes_mono [of k "Suc k" receive] by simp
  show ?thesis by (rule forever [OF never(1) le read_body_forever [OF never(1) le]])
qed

lemma replay_is_receive: "replay_receive (map receive [0..<n]) receive = receive"
  by (rule ext) (simp add: replay_receive_def)


section \<open>Properties\<close>

text \<open>
  C29: The middleware is transparent: whenever the application runs, behind whatever buffering,
  the \<open>receive\<close> it is given returns on every call, in order, exactly what the server's own
  \<open>receive\<close> would have returned, so its result is the one it would have had without the
  middleware.
\<close>

theorem middleware_transparent:
  assumes "0 \<le> max_body_bytes" "request_body_limit max_body_bytes app sc receive = Some (FromApp r)"
  shows "r = app sc receive"
proof (cases rule: read_body_cases [OF assms(1), of receive, case_names within crossing forever])
  case (within k)
  then show ?thesis using assms(2)
    by (auto simp: request_body_limit_def replay_is_receive simp del: upt_Suc split: if_splits)
qed (use assms(2) in \<open>auto simp: request_body_limit_def split: if_splits\<close>)

text \<open>A body in two chunks; the application reads both, and then what the server has next.\<close>

definition two_chunks :: "nat \<Rightarrow> message" where
  "two_chunks k = (if k = 0 then HttpRequest (Some ''ab'') (Some True)
                   else if k = 1 then HttpRequest (Some ''c'') None else HttpDisconnect)"

definition plain_scope :: scope where
  "plain_scope = \<lparr>scope_type = ''http'', scope_headers = []\<rparr>"

theorem middleware_transparent_witness:
  "request_body_limit 3 (\<lambda>_ rc. map rc [0..<3]) plain_scope two_chunks =
     Some (FromApp [HttpRequest (Some ''ab'') (Some True), HttpRequest (Some ''c'') None, HttpDisconnect])"
proof -
  have "read_body two_chunks 3 0 0 [] = Some (False, [two_chunks 0, two_chunks 1])"
    by (simp add: read_body.simps two_chunks_def Let_def is_request_def body_of_def more_of_def)
  then obtain r where r: "request_body_limit 3 (\<lambda>_ rc. map rc [0..<3]) plain_scope two_chunks = Some (FromApp r)"
    by (simp add: request_body_limit_def plain_scope_def declared_too_large_def header_dict_def)
  have "r = map two_chunks [0..<3]" using middleware_transparent [OF _ r] by simp
  then show ?thesis using r by (simp add: two_chunks_def upt_rec)
qed

text \<open>
  C28: The limit is exact. An HTTP request is answered 413 just when its declared length is
  above the limit or the bytes of its body cross it before the body ends; it reaches the
  application just when the body ends, or the client disconnects, with no more bytes than the
  limit; and otherwise (the declared length is within the limit and chunks keep coming without
  adding up to more than the limit, empty ones for instance) the middleware never answers and
  goes on buffering.
\<close>

theorem body_limit_exact:
  assumes "0 \<le> max_body_bytes" "scope_type sc = ''http''"
  shows "(request_body_limit max_body_bytes app sc receive = Some Rejected413 \<longleftrightarrow>
      declared_too_large max_body_bytes sc \<or>
      (\<exists>k. reads_until receive k \<and> max_body_bytes < body_bytes receive (Suc k))) \<and>
    ((\<exists>r. request_body_limit max_body_bytes app sc receive = Some (FromApp r)) \<longleftrightarrow>
      \<not> declared_too_large max_body_bytes sc \<and>
      (\<exists>k. reads_until receive k \<and> ends (receive k) \<and> body_bytes receive (Suc k) \<le> max_body_bytes)) \<and>
    (request_body_limit max_body_bytes app sc receive = None \<longleftrightarrow>
      \<not> declared_too_large max_body_bytes sc \<and>
      (\<forall>k. \<not> ends (receive k) \<and> body_bytes receive k \<le> max_body_bytes))"
proof (cases "declared_too_large max_body_bytes sc")
  case True
  then show ?thesis using assms(2) by (simp add: request_body_limit_def)
next
  case small: False
  show ?thesis
  proof (cases rule: read_body_cases [OF assms(1), of receive, case_names within crossing forever])
    case (within k)
    have "\<not> max_body_bytes < body_bytes receive (Suc j)" if "reads_until receive j" for j
    proof -
      have "j \<le> k" using that within(2) by (meson reads_until_def not_less)
      then show ?thesis using body_bytes_mono [of "Suc j" "Suc k" receive] within(3) by simp
    qed
    then show ?thesis using assms(2) small within
      by (auto simp: request_body_limit_def simp del: upt_Suc body_bytes_Suc)
  next
    case (crossing k)
    have "\<not> (ends (receive j) \<and> body_bytes receive (Suc j) \<le> max_body_bytes)" if "reads_until receive j" for j
    proof
      assume j: "ends (receive j) \<and> body_bytes receive (Suc j) \<le> max_body_bytes"
      then have "k \<le> j" using crossing(1) by (meson reads_until_def not_less)
      then show False using body_bytes_mono [of "Suc k" "Suc j" receive] crossing(3) j by simp
    qed
    moreover have "\<not> (\<forall>j. body_bytes receive j \<le> max_body_bytes)" using crossing(3) by (meson not_less)
    ultimately show ?thesis using assms(2) small crossing
      by (auto simp: request_body_limit_def simp del: upt_Suc body_bytes_Suc)
  next
    case forever
    then show ?thesis using assms(2) small
      by (auto simp: request_body_limit_def not_less simp del: body_bytes_Suc)
  qed
qed

theorem body_limit_exact_witness:
  "request_body_limit 2 (\<lambda>_ rc. rc 0) plain_scope two_chunks = Some Rejected413 \<and>
   request_body_limit 2 (\<lambda>_ rc. rc 0) plain_scope (\<lambda>_. HttpRequest (Some []) (Some True)) = None"
proof -
  have plain: "scope_type plain_scope = ''http''" "\<not> declared_too_large 2 plain_scope"
    by (simp_all add: plain_scope_def declared_too_large_def header_dict_def)
  have "reads_until two_chunks 1 \<and> 2 < body_bytes two_chunks (Suc 1)"
    by (simp add: reads_until_def two_chunks_def ends_def is_request_def more_of_def body_bytes_def body_of_def numeral_2_eq_2)
  then have a: "request_body_limit 2 (\<lambda>_ rc. rc 0) plain_scope two_chunks = Some Rejected413"
    using body_limit_exact [of 2 plain_scope "\<lambda>_ rc. rc 0" two_chunks] plain by auto
  let ?r = "\<lambda>_ :: nat. HttpRequest (Some []) (Some True)"
  have "\<forall>k. \<not> ends (?r k) \<and> body_bytes ?r k \<le> 2"
    by (simp add: ends_def is_request_def more_of_def body_bytes_def body_of_def)
  then have "request_body_limit 2 (\<lambda>_ rc. rc 0) plain_scope ?r = None"
    using body_limit_exact [of 2 plain_scope "\<lambda>_ rc. rc 0" ?r] plain by auto
  then show ?thesis using a by simp
qed

end
