(* ===== verification/AssistantRoutes.thy ===== *)
theory AssistantRoutes
  imports ThreadRoutes
begin

text \<open>
  \<open>routes/assistants.py\<close> and \<open>routes/health.py\<close>: what a client may learn of the configured
  assistants. The handlers read the configuration only, so they are functions of it. The graph of
  an assistant is the application's (\<open>graph_ops\<close>); the installed package's version is an argument.
\<close>


section \<open>Python's equality\<close>

text \<open>
  \<open>==\<close> on the dynamic values: numbers compare across their types, NaN equals nothing,
  dictionaries compare as mappings, and an object without \<open>__eq__\<close> equals no other value.
\<close>

fun number_of :: "pyval \<Rightarrow> pyfloat option" where
  "number_of (PBool b) = Some (Fin (if b then 1 else 0))"
| "number_of (PInt i) = Some (Fin (of_int i))"
| "number_of (PFloat f) = Some f"
| "number_of _ = None"

definition numbers_eq :: "pyval \<Rightarrow> pyval \<Rightarrow> bool" where
  "numbers_eq v w =
     (case (number_of v, number_of w) of (Some f, Some g) \<Rightarrow> f = g \<and> f \<noteq> NaN | _ \<Rightarrow> False)"

function py_eq :: "pyval \<Rightarrow> pyval \<Rightarrow> bool" where
  "py_eq v w =
     (case v of
        PNone \<Rightarrow> w = PNone
      | PStr s \<Rightarrow> w = PStr s
      | PList xs \<Rightarrow> (case w of PList ys \<Rightarrow> list_all2 py_eq xs ys | _ \<Rightarrow> False)
      | PTuple xs \<Rightarrow> (case w of PTuple ys \<Rightarrow> list_all2 py_eq xs ys | _ \<Rightarrow> False)
      | PDict d \<Rightarrow>
          (case w of
             PDict e \<Rightarrow>
               length d = length e \<and>
               list_all (\<lambda>(k, x). case find (\<lambda>(k', _). py_eq k k') e of None \<Rightarrow> False | Some (_, y) \<Rightarrow> py_eq x y) d
           | _ \<Rightarrow> False)
      | _ \<Rightarrow> numbers_eq v w)"
  by pat_completeness auto

lemma size_list_member: "x \<in> set xs \<Longrightarrow> size x < Suc (size_list size xs)"
  by (induction xs) auto

lemma size_pair_member:
  "(k, x) \<in> set d \<Longrightarrow> size k < Suc (size_list (size_prod size size) d) \<and> size x < Suc (size_list (size_prod size size) d)"
  by (induction d) auto

termination py_eq
  by (relation "measure (\<lambda>(v, _). size v)")
    (auto dest: size_list_member size_pair_member)

declare py_eq.simps [simp del]


section \<open>Assistant metadata\<close>

text \<open>The constructor of the pydantic model \<open>Assistant\<close>, called with the fields of a configuration.\<close>

definition assistant_of :: "'w assistant_config \<Rightarrow> exc + assistant_model" where
  "assistant_of a =
     (if str_keyed (ac_metadata a)
      then Inr \<lparr>am_assistant_id = ac_assistant_id a, am_graph_id = ac_graph_id a,
                am_config = \<lparr>cm_tags = None, cm_recursion_limit = None, cm_configurable = None\<rparr>,
                am_created_at = ac_created_at a, am_updated_at = ac_created_at a,
                am_metadata = Some (ac_metadata a), am_version = 1, am_name = ac_name a,
                am_description = Some (ac_description a)\<rparr>
      else Inl (ValueError ''validation error for Assistant''))"

definition assistant_response :: "'w server_config \<Rightarrow> string \<Rightarrow> exc + assistant_model" where
  "assistant_response cfg assistant_id = bind_sum (get_assistant_config cfg assistant_id) assistant_of"

definition get_assistant_route :: "'w server_config \<Rightarrow> string \<Rightarrow> exc + assistant_model" where
  "get_assistant_route cfg assistant_id = assistant_response cfg assistant_id"

definition get_assistant_graph :: "'w server_config \<Rightarrow> string \<Rightarrow> exc + pydict" where
  "get_assistant_graph cfg assistant_id =
     bind_sum (get_assistant_config cfg assistant_id) (\<lambda>a.
       case ac_graph a of
         Some g \<Rightarrow> Inr g
       | None \<Rightarrow>
           bind_sum (get_graph_runtime cfg assistant_id) (\<lambda>graph_provider.
             case g_topology graph_provider of
               None \<Rightarrow> Inl (HTTPException 501 ''Graph topology is not available for this assistant'')
             | Some None \<Rightarrow> Inl (HTTPException 501 ''Graph topology is not serializable for this assistant'')
             | Some (Some json) \<Rightarrow> Inr json))"

text \<open>\<open>_graph_schema\<close> of a method of the graph: the method is missing, or returns a value.\<close>

definition graph_schema_of :: "pyval option \<Rightarrow> pydict option" where
  "graph_schema_of m = (case m of Some (PDict d) \<Rightarrow> Some d | _ \<Rightarrow> None)"

definition make_graph_schema ::
  "string \<Rightarrow> pydict option \<Rightarrow> pydict option \<Rightarrow> pydict option \<Rightarrow> pydict option \<Rightarrow> exc + graph_schema" where
  "make_graph_schema g i out st c =
     (if optional str_keyed i \<and> optional str_keyed out \<and> optional str_keyed st \<and> optional str_keyed c
      then Inr \<lparr>gs_graph_id = g, gs_input_schema = i, gs_output_schema = out, gs_state_schema = st,
                gs_config_schema = c\<rparr>
      else Inl (ValueError ''validation error for GraphSchema''))"

definition get_assistant_schemas :: "'w server_config \<Rightarrow> string \<Rightarrow> exc + graph_schema" where
  "get_assistant_schemas cfg assistant_id =
     bind_sum (get_assistant_config cfg assistant_id) (\<lambda>a.
     bind_sum (get_graph_runtime cfg assistant_id) (\<lambda>graph.
       (let input_schema = (case ac_input_schema a of Some d \<Rightarrow> Some d | None \<Rightarrow> graph_schema_of (g_input_schema graph));
            output_schema = (case ac_output_schema a of Some d \<Rightarrow> Some d | None \<Rightarrow> graph_schema_of (g_output_schema graph))
        in make_graph_schema (ac_graph_id a) input_schema output_schema
             (case ac_state_schema a of Some d \<Rightarrow> Some d | None \<Rightarrow> input_schema) (ac_config_schema a))))"


section \<open>Search\<close>

text \<open>\<open>xs[start:stop]\<close>\<close>

definition slice_index :: "'a list \<Rightarrow> int \<Rightarrow> nat" where
  "slice_index xs i = nat (if i < 0 then max 0 (i + int (length xs)) else min i (int (length xs)))"

definition py_slice :: "'a list \<Rightarrow> int \<Rightarrow> int \<Rightarrow> 'a list" where
  "py_slice xs start stop = take (slice_index xs stop - slice_index xs start) (drop (slice_index xs start) xs)"

definition search_matches :: "assistant_search \<Rightarrow> 'w assistant_config \<Rightarrow> bool" where
  "search_matches r a \<longleftrightarrow>
     (case as_graph_id r of None \<Rightarrow> True | Some g \<Rightarrow> ac_graph_id a = g) \<and>
     (case as_metadata r of
        None \<Rightarrow> True
      | Some md \<Rightarrow> list_all (\<lambda>(k, v). py_eq (dict_get_or (ac_metadata a) k PNone) v) md)"

fun all_results :: "(exc + 'a) list \<Rightarrow> exc + 'a list" where
  "all_results [] = Inr []"
| "all_results (r # rs) = bind_sum r (\<lambda>x. bind_sum (all_results rs) (\<lambda>xs. Inr (x # xs)))"

definition search_assistants :: "assistant_search \<Rightarrow> 'w server_config \<Rightarrow> exc + assistant_model list" where
  "search_assistants r cfg =
     bind_sum (all_results (map assistant_of (filter (search_matches r) (map snd (cfg_assistants cfg))))) (\<lambda>results.
       Inr (py_slice results (as_offset r) (as_offset r + as_limit r)))"


section \<open>Health\<close>

definition health_check :: "(string \<times> string) list" where
  "health_check = [(''status'', ''ok'')]"

definition info :: "string \<Rightarrow> (string \<times> string) list" where
  "info version = [(''version'', version), (''type'', ''langgraph-server'')]"


section \<open>Facts\<close>

lemma assistant_of_Inr: "assistant_of a = Inr m \<Longrightarrow> am_assistant_id m = ac_assistant_id a"
  by (auto simp: assistant_of_def split: if_splits)

lemma graph_schema_of_native:
  "case graph_schema_of m of Some d \<Rightarrow> m = Some (PDict d) | None \<Rightarrow> \<forall>d. m \<noteq> Some (PDict d)"
  by (simp add: graph_schema_of_def split: option.split pyval.split)

lemma all_results_map:
  "\<forall>x\<in>set xs. \<exists>y. f x = Inr y \<Longrightarrow> all_results (map f xs) = Inr (map (\<lambda>x. projr (f x)) xs)"
  by (induction xs) auto

lemma py_slice_page:
  assumes "0 \<le> start" "0 \<le> n"
  shows "py_slice xs start (start + n) = take (nat n) (drop (nat start) xs)"
proof (cases "nat start \<le> length xs")
  case True
  then have "slice_index xs start = nat start" using assms by (simp add: slice_index_def)
  moreover have "slice_index xs (start + n) - nat start = min (nat n) (length xs - nat start)"
    using assms True by (auto simp: slice_index_def min_def)
  ultimately show ?thesis by (simp add: py_slice_def min_def)
next
  case False
  then show ?thesis using assms by (simp add: py_slice_def slice_index_def)
qed

lemma concat_pages: "concat (map (\<lambda>i. take l (drop (i * l) xs)) [0..<n]) = take (n * l) xs"
proof (induction n)
  case (Suc n)
  have "Suc n * l = n * l + l" by simp
  then show ?case using Suc by (simp only: take_add) simp
qed simp


section \<open>Properties\<close>

text \<open>
  C33: Paging through the assistants misses none and repeats none: for an accepted search, the pages
  at the offsets \<open>0\<close>, \<open>limit\<close>, \<open>2 * limit\<close>, \dots each hold at most \<open>limit\<close> assistants, and enough of
  them together hold every configured assistant that matches exactly once, as the assistant's own
  route describes it, and nothing else.
\<close>

theorem search_pages_exact:
  assumes "dict_wf (cfg_assistants cfg)" "check_registry (cfg_assistants cfg) = Inr ()"
    and "list_all (\<lambda>(_, a). str_keyed (ac_metadata a)) (cfg_assistants cfg)"
    and "assistant_search_ok r" "length (cfg_assistants cfg) \<le> n * nat (as_limit r)"
  shows "\<exists>page. (\<forall>i. search_assistants (r\<lparr>as_offset := int i * as_limit r\<rparr>) cfg = Inr (page i) \<and>
        length (page i) \<le> nat (as_limit r)) \<and>
     distinct (map am_assistant_id (concat (map page [0..<n]))) \<and>
     (\<forall>m. m \<in> set (concat (map page [0..<n])) \<longleftrightarrow>
        (\<exists>k a. get_assistant cfg k = Some a \<and> search_matches r a \<and> get_assistant_route cfg k = Inr m))"
proof -
  let ?d = "cfg_assistants cfg"
  let ?hits = "filter (search_matches r) (map snd ?d)"
  let ?found = "map (\<lambda>a. projr (assistant_of a)) ?hits" and ?l = "nat (as_limit r)"
  let ?page = "\<lambda>i. take ?l (drop (i * ?l) ?found)"
  have ok: "\<exists>m. assistant_of a = Inr m" if "a \<in> set (map snd ?d)" for a
    using that assms(3) by (auto simp: assistant_of_def list_all_iff)
  have results: "all_results (map assistant_of ?hits) = Inr ?found"
    by (rule all_results_map) (use ok in simp)
  have l: "1 \<le> as_limit r" using assms(4) by (simp add: assistant_search_ok_def)
  have matches: "search_matches (r\<lparr>as_offset := i\<rparr>) = search_matches r" for i
    by (simp add: search_matches_def fun_eq_iff)
  have page: "search_assistants (r\<lparr>as_offset := int i * as_limit r\<rparr>) cfg = Inr (?page i)" for i
    using l by (simp add: search_assistants_def matches results py_slice_page nat_mult_distrib)
  have "length ?hits \<le> length ?d" using length_filter_le [of "search_matches r" "map snd ?d"] by simp
  then have "length ?hits \<le> n * ?l" using assms(5) by (rule le_trans)
  then have "length ?found \<le> n * ?l" by (simp only: length_map)
  then have all: "concat (map ?page [0..<n]) = ?found" by (simp only: concat_pages take_all)
  have key: "k = ac_assistant_id a" if "(k, a) \<in> set ?d" for k a
    using that assms(2) by (auto simp: check_registry_Inr list_all_iff)
  have keys: "map ac_assistant_id (map snd ?d) = map fst ?d" using key by auto
  have ids: "map am_assistant_id ?found = map ac_assistant_id ?hits"
  proof -
    have "am_assistant_id (projr (assistant_of a)) = ac_assistant_id a" if "a \<in> set ?hits" for a
      using that ok [of a] by (auto dest: assistant_of_Inr)
    then show ?thesis by simp
  qed
  have "distinct (map ac_assistant_id (map snd ?d))" using assms(1) by (simp only: keys dict_wf_def)
  then have once: "distinct (map am_assistant_id ?found)" unfolding ids by (rule distinct_map_filter)
  have "m \<in> set ?found \<longleftrightarrow> (\<exists>k a. get_assistant cfg k = Some a \<and> search_matches r a \<and> get_assistant_route cfg k = Inr m)" for m
  proof -
    have "get_assistant cfg k = Some a \<longleftrightarrow> (k, a) \<in> set ?d" for k a
      using assms(1) by (auto simp: get_assistant_def dict_wf_def intro: map_of_is_SomeI dest: map_of_SomeD)
    moreover have "get_assistant_route cfg k = assistant_of a" if "get_assistant cfg k = Some a" for k a
      using that by (simp add: get_assistant_route_def assistant_response_def get_assistant_config_def)
    ultimately have "(\<exists>k a. get_assistant cfg k = Some a \<and> search_matches r a \<and> get_assistant_route cfg k = Inr m) \<longleftrightarrow>
        (\<exists>(k, a) \<in> set ?d. search_matches r a \<and> assistant_of a = Inr m)" by fastforce
    also have "\<dots> \<longleftrightarrow> (\<exists>a \<in> set ?hits. assistant_of a = Inr m)" by force
    also have "\<dots> \<longleftrightarrow> m \<in> set ?found"
    proof -
      have "assistant_of a = Inr m \<longleftrightarrow> m = projr (assistant_of a)" if "a \<in> set ?hits" for a
        using that ok [of a] by auto
      then show ?thesis by (auto simp del: set_filter)
    qed
    finally show ?thesis ..
  qed
  then show ?thesis using page once by (intro exI [of _ ?page]) (simp only: all length_take min.cobounded2 simp_thms)
qed

text \<open>Three assistants of two graphs, searched by graph in pages of one.\<close>

definition demo_assistants :: "list_cache environment server_config" where
  "demo_assistants = demo_config\<lparr>cfg_assistants :=
     [(''a'', demo_assistant\<lparr>ac_assistant_id := ''a''\<rparr>),
      (''b'', demo_assistant\<lparr>ac_assistant_id := ''b'', ac_graph_id := ''other''\<rparr>),
      (''c'', demo_assistant\<lparr>ac_assistant_id := ''c'', ac_metadata := [(PStr ''k'', PInt 1)]\<rparr>)]\<rparr>"

definition demo_search :: assistant_search where
  "demo_search = \<lparr>as_graph_id = Some ''graph'', as_metadata = None, as_limit = 1, as_offset = 0\<rparr>"

theorem search_pages_exact_witness:
  "\<exists>page. distinct (map am_assistant_id (concat (map page [0..<3]))) \<and>
     search_assistants (demo_search\<lparr>as_offset := 1\<rparr>) demo_assistants = Inr (page 1) \<and> length (page 1) \<le> 1"
proof -
  have r: "as_limit demo_search = 1" by (simp add: demo_search_def)
  have "dict_wf (cfg_assistants demo_assistants)" "check_registry (cfg_assistants demo_assistants) = Inr ()"
    "list_all (\<lambda>(_, a). str_keyed (ac_metadata a)) (cfg_assistants demo_assistants)"
    "length (cfg_assistants demo_assistants) \<le> 3 * nat (as_limit demo_search)"
    by (simp_all add: demo_assistants_def demo_assistant_def dict_wf_def str_keyed_def demo_search_def)
  moreover have "assistant_search_ok demo_search" by code_simp
  ultimately obtain page where
    page: "\<And>i. search_assistants (demo_search\<lparr>as_offset := int i * as_limit demo_search\<rparr>) demo_assistants = Inr (page i)"
      "\<And>i. length (page i) \<le> nat (as_limit demo_search)"
      "distinct (map am_assistant_id (concat (map page [0..<3])))"
    using search_pages_exact [of demo_assistants demo_search 3] by blast
  show ?thesis using page(1) [of 1] page(2) [of 1] page(3) unfolding r by (intro exI [of _ page]) simp
qed

text \<open>
  The three routes on one assistant agree on what exists: an id that is not configured is a 404
  on each of them; a configured one whose mappings have string keys is described under its own id,
  its schemas come with the configured one before the graph's own, the state schema falls back to
  the input schema, and its topology is the configured one, the graph's own, or a 501.
\<close>

theorem assistant_routes_agree:
  assumes "config_consistent cfg"
  shows "case get_assistant cfg k of
     None \<Rightarrow> (\<exists>e. e = HTTPException 404 (''Assistant '' @ k @ '' not found'') \<and>
        get_assistant_route cfg k = Inl e \<and> get_assistant_graph cfg k = Inl e \<and> get_assistant_schemas cfg k = Inl e)
   | Some a \<Rightarrow> (\<exists>g. get_graph_runtime cfg k = Inr g \<and>
        (str_keyed (ac_metadata a) \<longrightarrow> (\<exists>m. get_assistant_route cfg k = Inr m \<and> am_assistant_id m = k)) \<and>
        (\<forall>s. get_assistant_schemas cfg k = Inr s \<longrightarrow> gs_graph_id s = ac_graph_id a \<and>
           (ac_input_schema a \<noteq> None \<longrightarrow> gs_input_schema s = ac_input_schema a) \<and>
           (ac_input_schema a = None \<longrightarrow> (case gs_input_schema s of Some d \<Rightarrow> g_input_schema g = Some (PDict d)
              | None \<Rightarrow> \<forall>d. g_input_schema g \<noteq> Some (PDict d))) \<and>
           (gs_state_schema s = None \<longrightarrow> gs_input_schema s = None)) \<and>
        (case get_assistant_graph cfg k of
           Inr t \<Rightarrow> (if ac_graph a = None then g_topology g = Some (Some t) else ac_graph a = Some t)
         | Inl e \<Rightarrow> ac_graph a = None \<and> (\<exists>m. e = HTTPException 501 m) \<and> (\<forall>t. g_topology g \<noteq> Some (Some t))))"
proof (cases "get_assistant cfg k")
  case None
  then show ?thesis
    by (simp add: get_assistant_route_def assistant_response_def get_assistant_graph_def get_assistant_schemas_def
        get_assistant_config_def)
next
  case (Some a)
  obtain g where id: "ac_assistant_id a = k" and g: "get_graph_runtime cfg k = Inr g"
    using assms [unfolded config_consistent_def, rule_format, of k] Some by auto
  have a: "get_assistant_config cfg k = Inr a" using Some by (simp add: get_assistant_config_def)
  have "\<exists>m. get_assistant_route cfg k = Inr m \<and> am_assistant_id m = k" if "str_keyed (ac_metadata a)"
    using that id by (simp add: get_assistant_route_def assistant_response_def a assistant_of_def)
  moreover have "gs_graph_id s = ac_graph_id a \<and>
           (ac_input_schema a \<noteq> None \<longrightarrow> gs_input_schema s = ac_input_schema a) \<and>
           (ac_input_schema a = None \<longrightarrow> (case gs_input_schema s of Some d \<Rightarrow> g_input_schema g = Some (PDict d)
              | None \<Rightarrow> \<forall>d. g_input_schema g \<noteq> Some (PDict d))) \<and>
           (gs_state_schema s = None \<longrightarrow> gs_input_schema s = None)" if "get_assistant_schemas cfg k = Inr s" for s
  proof -
    let ?i = "case ac_input_schema a of Some d \<Rightarrow> Some d | None \<Rightarrow> graph_schema_of (g_input_schema g)"
    have "gs_graph_id s = ac_graph_id a" "gs_input_schema s = ?i"
      "gs_state_schema s = (case ac_state_schema a of Some d \<Rightarrow> Some d | None \<Rightarrow> ?i)"
      using that unfolding get_assistant_schemas_def a g bind_sum_simps Let_def make_graph_schema_def
      by (auto split: if_split_asm)
    then show ?thesis using graph_schema_of_native [of "g_input_schema g"]
      by (cases "ac_input_schema a"; cases "ac_state_schema a") auto
  qed
  moreover have "case get_assistant_graph cfg k of
           Inr t \<Rightarrow> (if ac_graph a = None then g_topology g = Some (Some t) else ac_graph a = Some t)
         | Inl e \<Rightarrow> ac_graph a = None \<and> (\<exists>m. e = HTTPException 501 m) \<and> (\<forall>t. g_topology g \<noteq> Some (Some t))"
    by (simp add: get_assistant_graph_def a g split: option.split)
  ultimately show ?thesis unfolding Some option.case using g by blast
qed

theorem assistant_routes_agree_witness:
  "get_assistant_graph demo_config ''x'' = Inl (HTTPException 404 ''Assistant x not found'') \<and>
   (\<exists>m. get_assistant_route demo_config ''agent'' = Inr m \<and> am_assistant_id m = ''agent'')"
proof
  have none: "get_assistant demo_config ''x'' = None"
    and some: "get_assistant demo_config ''agent'' = Some demo_assistant"
    by (simp_all add: get_assistant_def demo_config_def)
  note agree = assistant_routes_agree [OF make_server_config_consistent [OF demo_config_made]]
  show "get_assistant_graph demo_config ''x'' = Inl (HTTPException 404 ''Assistant x not found'')"
    using agree [of "''x''"] by (simp add: none)
  show "\<exists>m. get_assistant_route demo_config ''agent'' = Inr m \<and> am_assistant_id m = ''agent''"
    using agree [of "''agent''"] unfolding some option.case by (auto simp: demo_assistant_def str_keyed_def)
qed

end
