(* ===== verification/Factory.thy ===== *)
theory Factory
  imports RunRoutes AssistantRoutes
begin

text \<open>
  \<open>factory.py\<close>: the router of all endpoints, how it finds its configuration, the lifetime of a
  configuration and its checkpoint saver in an application, and the standalone application.
  Starlette's and FastAPI's objects appear as the data the code gives them: a router is its
  prefix, tags, bound configuration and route templates; an application is the attribute
  \<open>app.state.langgraph_config\<close> and a world that its saver and its own code work on.
\<close>


section \<open>Routes\<close>

text \<open>A path template is its segments, between slashes.\<close>

datatype segment = Lit string | Param string

type_synonym route = "string \<times> segment list \<times> string"

definition health_router :: "route list" where
  "health_router =
     [(''GET'', [Lit ''health''], ''health:check''),
      (''GET'', [Lit ''info''], ''health:info'')]"

definition assistants_router :: "route list" where
  "assistants_router =
     [(''GET'', [Lit ''assistants'', Param ''assistant_id''], ''assistants:get''),
      (''GET'', [Lit ''assistants'', Param ''assistant_id'', Lit ''graph''], ''assistants:get-graph''),
      (''GET'', [Lit ''assistants'', Param ''assistant_id'', Lit ''schemas''], ''assistants:get-schemas''),
      (''POST'', [Lit ''assistants'', Lit ''search''], ''assistants:search'')]"

definition threads_router :: "route list" where
  "threads_router =
     [(''POST'', [Lit ''threads''], ''threads:create''),
      (''GET'', [Lit ''threads'', Param ''thread_id''], ''threads:get''),
      (''GET'', [Lit ''threads'', Param ''thread_id'', Lit ''state''], ''threads:get-state''),
      (''POST'', [Lit ''threads'', Param ''thread_id'', Lit ''state'', Lit ''checkpoint''], ''threads:get-state-checkpoint''),
      (''POST'', [Lit ''threads'', Param ''thread_id'', Lit ''state''], ''threads:update-state''),
      (''DELETE'', [Lit ''threads'', Param ''thread_id''], ''threads:delete''),
      (''POST'', [Lit ''threads'', Param ''thread_id'', Lit ''history''], ''threads:get-history'')]"

definition runs_router :: "route list" where
  "runs_router =
     [(''POST'', [Lit ''threads'', Param ''thread_id'', Lit ''runs'', Lit ''stream''], ''runs:stream-with-thread''),
      (''POST'', [Lit ''runs'', Lit ''stream''], ''runs:stream-stateless''),
      (''POST'', [Lit ''threads'', Param ''thread_id'', Lit ''runs''], ''runs:create'')]"

record 'c api_router =
  ar_prefix :: "string list"
  ar_tags :: "string list"
  ar_bound :: "'c option"
  ar_routes :: "route list"

definition include_router :: "route list \<Rightarrow> 'c api_router \<Rightarrow> 'c api_router" where
  "include_router rs r =
     r\<lparr>ar_routes := ar_routes r @ map (\<lambda>(m, p, n). (m, map Lit (ar_prefix r) @ p, n)) rs\<rparr>"

definition create_router :: "'c option \<Rightarrow> string list \<Rightarrow> string list option \<Rightarrow> 'c api_router" where
  "create_router config prefix tags =
     include_router runs_router
       (include_router threads_router
         (include_router assistants_router
           (include_router health_router
             \<lparr>ar_prefix = prefix, ar_tags = (case tags of None \<Rightarrow> [] | Some ts \<Rightarrow> ts), ar_bound = config, ar_routes = []\<rparr>)))"

text \<open>
  A request behind a router: \<open>bind_config\<close> runs first, where there is one. The application's
  attribute may be missing, which \<open>getattr(..., None)\<close> reads as \<open>None\<close>.
\<close>

definition bind_config :: "'c api_router \<Rightarrow> 'c slot \<Rightarrow> 'c slot" where
  "bind_config r request_state = (case ar_bound r of None \<Rightarrow> request_state | Some c \<Rightarrow> ConfigSlot c)"

definition attribute_or_none :: "'c slot option \<Rightarrow> 'c slot" where
  "attribute_or_none attr = (case attr of None \<Rightarrow> EmptySlot | Some v \<Rightarrow> v)"

definition serve ::
  "'w server_config api_router \<Rightarrow> 'w server_config slot \<Rightarrow> 'w server_config slot option \<Rightarrow> pyval \<Rightarrow>
     ('w server_config \<Rightarrow> ('w server, exc, 'a) op) \<Rightarrow> ('w server, exc, 'a) op" where
  "serve r request_state app_attr request handler =
     endpoint (bind_config r request_state) (attribute_or_none app_attr) request handler"


section \<open>Lifetimes\<close>

record ('c, 'w) app =
  app_attr :: "'c slot option"
  app_world :: 'w

definition on_world :: "('w, exc, 'a) op \<Rightarrow> (('c, 'w) app, exc, 'a) op" where
  "on_world m = on_part app_world (\<lambda>w a. a\<lparr>app_world := w\<rparr>) m"

text \<open>
  What \<open>getattr\<close> finds on a checkpoint saver. \<open>__aenter__\<close> returns whether its value is the saver
  itself, \<open>__aexit__\<close> whether it suppresses the exception it is told of.
\<close>

record 'w lifecycle =
  lc_aenter :: "('w, exc, bool) op option"
  lc_aexit :: "(exc option \<Rightarrow> ('w, exc, bool) op) option"
  lc_aclose :: "('w, exc, unit) op option"

text \<open>\<open>async with\<close> after \<open>__aenter__\<close>; \<open>suppressed\<close> is what follows a suppressed exception.\<close>

definition async_with ::
  "(exc option \<Rightarrow> ('s, exc, bool) op) \<Rightarrow> ('s, exc, unit) op \<Rightarrow> ('s, exc, unit) op \<Rightarrow> ('s, exc, unit) op" where
  "async_with leave suppressed body s =
     (case body s of
        (Inr _, t) \<Rightarrow> bind_op (leave None) (\<lambda>_. ret ()) t
      | (Inl e, t) \<Rightarrow> bind_op (leave (Some e)) (\<lambda>b. if b then suppressed else raise e) t)"

text \<open>
  The generator \<open>_checkpointer_lifespan\<close> with the caller's block \<open>body\<close> in place of its \<open>yield\<close>.
  One that ends before it yields is an error of \<open>asynccontextmanager\<close>.
\<close>

definition checkpointer_lifespan ::
  "'w lifecycle option \<Rightarrow> (('c, 'w) app, exc, unit) op \<Rightarrow> (('c, 'w) app, exc, unit) op" where
  "checkpointer_lifespan checkpointer body =
     (case checkpointer of
        None \<Rightarrow> body
      | Some c \<Rightarrow>
          (case (lc_aenter c, lc_aexit c) of
             (Some enter, Some exit_context) \<Rightarrow>
               bind_op (on_world enter) (\<lambda>entered_itself.
                 if \<not> entered_itself
                 then async_with (\<lambda>e. on_world (exit_context e)) (raise (RuntimeError ''generator did not yield''))
                        (raise (RuntimeError ''checkpointer context manager must return itself''))
                 else async_with (\<lambda>e. on_world (exit_context e)) (ret ()) body)
           | _ \<Rightarrow>
               finally_op body (case lc_aclose c of None \<Rightarrow> ret () | Some close \<Rightarrow> on_world close)))"

text \<open>\<open>previous is sentinel\<close>: the attribute was missing; deleting a missing attribute raises.\<close>

definition restore_attr :: "'c slot option \<Rightarrow> (('c, 'w) app, exc, unit) op" where
  "restore_attr previous a =
     (case previous of
        None \<Rightarrow> (if app_attr a = None then (Inl (OtherError ''langgraph_config''), a) else (Inr (), a\<lparr>app_attr := None\<rparr>))
      | Some v \<Rightarrow> (Inr (), a\<lparr>app_attr := Some v\<rparr>))"

definition langgraph_lifespan ::
  "'w lifecycle option \<Rightarrow> 'c \<Rightarrow> (('c, 'w) app, exc, unit) op \<Rightarrow> (('c, 'w) app, exc, unit) op" where
  "langgraph_lifespan checkpointer config body a =
     bind_op (modify_op (\<lambda>a. a\<lparr>app_attr := Some (ConfigSlot config)\<rparr>)) (\<lambda>_.
       finally_op (checkpointer_lifespan checkpointer body) (restore_attr (app_attr a))) a"


section \<open>The standalone application\<close>

text \<open>The middleware of an application, outermost first: \<open>add_middleware\<close> puts a new one outside.\<close>

datatype middleware =
    RequestBodyLimit pyval
  | Cors (cors_origins: "string list") (cors_methods: "string list") (cors_headers: "string list") (cors_credentials: bool)

record 'w fastapi_app =
  fa_title :: string
  fa_description :: string
  fa_version :: string
  fa_debug :: bool
  fa_lifespan_config :: "'w server_config"
  fa_middleware :: "middleware list"
  fa_routers :: "'w server_config api_router list"

definition add_middleware :: "middleware \<Rightarrow> 'w fastapi_app \<Rightarrow> 'w fastapi_app" where
  "add_middleware m app = app\<lparr>fa_middleware := m # fa_middleware app\<rparr>"

definition install_routes :: "'w server_config \<Rightarrow> string list \<Rightarrow> string list \<Rightarrow> 'w fastapi_app \<Rightarrow> 'w fastapi_app" where
  "install_routes config prefix tags app =
     app\<lparr>fa_routers := fa_routers app @ [create_router (Some config) prefix (Some tags)]\<rparr>"

definition create_app :: "'w standalone_args \<Rightarrow> exc + 'w fastapi_app \<times> coordinator" where
  "create_app config =
     bind_sum (to_server_config config) (\<lambda>(server_config, c).
       (let app = \<lparr>fa_title = st_title config, fa_description = st_description config, fa_version = st_version config,
                   fa_debug = st_debug config, fa_lifespan_config = server_config, fa_middleware = [], fa_routers = []\<rparr>;
            app = (if st_max_request_body_bytes config \<noteq> PNone
                   then add_middleware (RequestBodyLimit (st_max_request_body_bytes config)) app else app);
            app = (if st_cors_origins config \<noteq> []
                   then add_middleware (Cors (st_cors_origins config) [''GET'', ''POST'', ''PUT'', ''DELETE'', ''OPTIONS'']
                          [''*''] (''*'' \<notin> set (st_cors_origins config))) app
                   else app)
        in Inr (install_routes server_config [] [''langgraph''] app, c)))"

section \<open>Facts\<close>

definition segment_matches :: "segment \<Rightarrow> string \<Rightarrow> bool" where
  "segment_matches g x = (case g of Lit l \<Rightarrow> x = l | Param _ \<Rightarrow> True)"

text \<open>A route serves a request: its method, and its template filled in.\<close>

definition route_matches :: "string \<Rightarrow> string list \<Rightarrow> route \<Rightarrow> bool" where
  "route_matches m path r = (case r of (m', template, _) \<Rightarrow> m' = m \<and> list_all2 segment_matches template path)"

fun segments_overlap :: "segment \<Rightarrow> segment \<Rightarrow> bool" where
  "segments_overlap (Lit a) (Lit b) = (a = b)"
| "segments_overlap _ _ = True"

definition routes_overlap :: "route \<Rightarrow> route \<Rightarrow> bool" where
  "routes_overlap r r' =
     (fst r = fst r' \<and> list_all2 segments_overlap (fst (snd r)) (fst (snd r')))"

lemma segments_overlap: "segment_matches g x \<Longrightarrow> segment_matches g' x \<Longrightarrow> segments_overlap g g'"
  by (cases g; cases g') (auto simp: segment_matches_def)

lemma templates_overlap:
  "list_all2 segment_matches t p \<Longrightarrow> list_all2 segment_matches t' p \<Longrightarrow> list_all2 segments_overlap t t'"
  unfolding list_all2_conv_all_nth by (metis segments_overlap)

lemma routes_overlap: "route_matches m p r \<Longrightarrow> route_matches m p r' \<Longrightarrow> routes_overlap r r'"
  by (auto simp: route_matches_def routes_overlap_def intro: templates_overlap)

abbreviation all_routes :: "route list" where
  "all_routes \<equiv> health_router @ assistants_router @ threads_router @ runs_router"

lemma create_router_routes:
  "ar_routes (create_router config prefix tags) = map (\<lambda>(m, p, n). (m, map Lit prefix @ p, n)) all_routes"
  by (simp add: create_router_def include_router_def)

lemma all_routes_disjoint: "list_all (\<lambda>r. list_all (\<lambda>r'. routes_overlap r r' \<longrightarrow> r = r') all_routes) all_routes"
  by code_simp

lemma prefix_overlap: "list_all2 segments_overlap (map Lit pre @ p) (map Lit pre @ p') \<longleftrightarrow> list_all2 segments_overlap p p'"
  by (induction pre) auto

lemma finally_result: "snd (finally_op m f s) = snd (f (snd (m s)))"
  by (auto simp: finally_op_def case_prod_unfold split: sum.split)

lemma restore_attr_attr: "app_attr (snd (restore_attr previous a)) = previous"
  by (simp add: restore_attr_def split: option.split)

lemma lifespan_snd:
  "snd (langgraph_lifespan checkpointer config body a) =
     snd (restore_attr (app_attr a) (snd (checkpointer_lifespan checkpointer body (a\<lparr>app_attr := Some (ConfigSlot config)\<rparr>))))"
  by (simp add: langgraph_lifespan_def bind_op_def modify_op_def finally_result)

lemma on_world_attr: "app_attr (snd (on_world m a)) = app_attr a"
  by (simp add: on_world_def on_part_def case_prod_unfold)

lemma checkpointer_lifespan_cong:
  assumes "\<And>b. app_attr b = app_attr a \<Longrightarrow> body b = body' b"
  shows "checkpointer_lifespan checkpointer body a = checkpointer_lifespan checkpointer body' a"
proof (cases checkpointer)
  case None
  then show ?thesis using assms [of a] by (simp add: checkpointer_lifespan_def)
next
  case (Some c)
  have here: "finally_op body f a = finally_op body' f a" for f using assms [of a] by (simp add: finally_op_def)
  have inside: "bind_op (on_world enter) (\<lambda>x. if \<not> x then failed else async_with leave u body) a =
      bind_op (on_world enter) (\<lambda>x. if \<not> x then failed else async_with leave u body') a" for enter leave u failed
    using assms [of "snd (on_world enter a)"] on_world_attr [of enter a]
    by (simp add: bind_op_def case_prod_unfold async_with_def split: sum.split)
  show ?thesis by (simp add: checkpointer_lifespan_def Some here inside split: option.split)
qed


section \<open>Properties\<close>

text \<open>
  C38: A configuration is exposed for the lifetime of the application and no longer: whatever the
  saver's context manager and the application do, and however they end, \<open>app.state\<close> has
  afterwards the attribute it had before, or none if it had none; and the application's code runs
  only where the attribute is the new configuration.
\<close>

theorem lifespan_restores:
  assumes "\<And>b. app_attr b = Some (ConfigSlot config) \<Longrightarrow> body b = body' b"
  shows "app_attr (snd (langgraph_lifespan checkpointer config body a)) = app_attr a \<and>
     langgraph_lifespan checkpointer config body a = langgraph_lifespan checkpointer config body' a"
proof
  show "app_attr (snd (langgraph_lifespan checkpointer config body a)) = app_attr a"
    by (simp add: lifespan_snd restore_attr_attr)
  have "checkpointer_lifespan checkpointer body b = checkpointer_lifespan checkpointer body' b"
    if b: "app_attr b = Some (ConfigSlot config)" for b
    by (rule checkpointer_lifespan_cong) (use assms b in auto)
  then show "langgraph_lifespan checkpointer config body a = langgraph_lifespan checkpointer config body' a"
    by (simp add: langgraph_lifespan_def bind_op_def modify_op_def finally_op_def)
qed

text \<open>
  C39: A saver is never left open: if \<open>__aenter__\<close> opens it exactly when it returns, and
  \<open>__aexit__\<close> (or, where the saver is no context manager, \<open>aclose\<close>) leaves it closed whether it
  returns or raises, then after the lifespan it is closed, on every path: a failing enter, a value
  that is not the saver, an application that raises or is cancelled, and a failing exit.
\<close>

theorem lifespan_closes_saver:
  assumes "\<And>enter w. lc_aenter c = Some enter \<Longrightarrow> \<not> opened w \<Longrightarrow> (opened (snd (enter w)) \<longleftrightarrow> \<not> isl (fst (enter w)))"
    and "\<And>leave e w. lc_aexit c = Some leave \<Longrightarrow> opened w \<Longrightarrow> \<not> opened (snd (leave e w))"
    and "\<And>close w. lc_aenter c = None \<or> lc_aexit c = None \<Longrightarrow> lc_aclose c = Some close \<Longrightarrow> \<not> opened (snd (close w))"
    and "lc_aenter c = None \<or> lc_aexit c = None \<Longrightarrow> lc_aclose c \<noteq> None"
    and "\<And>b. opened (app_world b) \<Longrightarrow> opened (app_world (snd (body b)))"
    and "\<not> opened (app_world a)"
  shows "\<not> opened (app_world (snd (langgraph_lifespan (Some c) config body a)))"
proof -
  let ?a = "a\<lparr>app_attr := Some (ConfigSlot config)\<rparr>"
  have restore: "app_world (snd (restore_attr v b)) = app_world b" for v and b :: "('b, 'a) app"
    by (simp add: restore_attr_def split: option.split)
  have exits: "\<not> opened (app_world (snd (async_with (\<lambda>e. on_world (leave e)) sup m b)))"
    if leave: "lc_aexit c = Some leave" and m: "opened (app_world (snd (m b)))"
      and sup: "\<And>b. app_world (snd (sup b)) = app_world b" for leave sup m and b :: "('b, 'a) app"
    using assms(2) [OF leave m] sup
    by (auto simp: async_with_def bind_op_def on_world_def on_part_def ret_def raise_def case_prod_unfold split: sum.split)
  have "\<not> opened (app_world (snd (checkpointer_lifespan (Some c) body ?a)))"
  proof (cases "lc_aenter c = None \<or> lc_aexit c = None")
    case True
    then obtain close where close: "lc_aclose c = Some close" using assms(4) by blast
    have "checkpointer_lifespan (Some c) body = finally_op body (on_world close)"
      using True by (auto simp: checkpointer_lifespan_def close split: option.split)
    then show ?thesis using assms(3) [OF True close]
      by (simp add: finally_result on_world_def on_part_def case_prod_unfold)
  next
    case False
    then obtain enter leave where c: "lc_aenter c = Some enter" "lc_aexit c = Some leave" by auto
    obtain r w where enter: "enter (app_world a) = (r, w)" by (rule prod.exhaust)
    have w: "opened w \<longleftrightarrow> \<not> isl r" using assms(1) [OF c(1) assms(6)] by (simp add: enter)
    have run: "checkpointer_lifespan (Some c) body ?a =
        (case r of
           Inl e \<Rightarrow> (Inl e, ?a\<lparr>app_world := w\<rparr>)
         | Inr itself \<Rightarrow>
             (if \<not> itself
              then async_with (\<lambda>e. on_world (leave e)) (raise (RuntimeError ''generator did not yield''))
                     (raise (RuntimeError ''checkpointer context manager must return itself'')) (?a\<lparr>app_world := w\<rparr>)
              else async_with (\<lambda>e. on_world (leave e)) (ret ()) body (?a\<lparr>app_world := w\<rparr>)))"
      by (simp add: checkpointer_lifespan_def c bind_op_def on_world_def on_part_def enter split: sum.split)
    show ?thesis
    proof (cases r)
      case (Inl e)
      then show ?thesis using w by (simp add: run)
    next
      case (Inr itself)
      then have w: "opened (app_world (?a\<lparr>app_world := w\<rparr>))" using w by simp
      show ?thesis
      proof (cases itself)
        case True
        have "\<not> opened (app_world (snd (async_with (\<lambda>e. on_world (leave e)) (ret ()) body (?a\<lparr>app_world := w\<rparr>))))"
          by (rule exits [OF c(2)]) (use assms(5) [OF w] in \<open>simp_all add: ret_def\<close>)
        then show ?thesis using True Inr by (simp add: run)
      next
        case False
        have "\<not> opened (app_world (snd (async_with (\<lambda>e. on_world (leave e)) (raise f) (raise g) (?a\<lparr>app_world := w\<rparr>))))"
          for f g by (rule exits [OF c(2)]) (use w in \<open>simp_all add: raise_def\<close>)
        then show ?thesis using False Inr by (simp add: run)
      qed
    qed
  qed
  then show ?thesis by (simp add: lifespan_snd restore)
qed

text \<open>
  No request can reach two endpoints: whatever the prefix and the configuration, at most one
  route of the router matches a method and a path, so no route shadows another, whatever the order
  in which they are tried.
\<close>

theorem routes_unambiguous:
  assumes "r \<in> set (ar_routes (create_router config prefix tags))" "r' \<in> set (ar_routes (create_router config prefix tags))"
    and "route_matches m path r" "route_matches m path r'"
  shows "r = r'"
proof -
  have "\<exists>q \<in> set all_routes. x = (fst q, map Lit prefix @ fst (snd q), snd (snd q))"
    if "x \<in> set (ar_routes (create_router config prefix tags))" for x
    using that unfolding create_router_routes set_map case_prod_unfold by blast
  from this [OF assms(1)] this [OF assms(2)] obtain m1 p1 n1 m2 p2 n2
    where in_all: "(m1, p1, n1) \<in> set all_routes" "(m2, p2, n2) \<in> set all_routes"
      and r: "r = (m1, map Lit prefix @ p1, n1)" "r' = (m2, map Lit prefix @ p2, n2)"
    by (metis prod.collapse)
  have "routes_overlap (m1, p1, n1) (m2, p2, n2)"
    using routes_overlap [OF assms(3,4)] unfolding r by (simp add: routes_overlap_def prefix_overlap)
  then have "(m1, p1, n1) = (m2, p2, n2)" using all_routes_disjoint in_all unfolding list_all_iff by blast
  then show ?thesis using r by simp
qed

text \<open>A handler behind the authorizer of its configuration.\<close>

definition authorized_run ::
  "'w server_config \<Rightarrow> pyval \<Rightarrow> ('w server_config \<Rightarrow> ('w server, exc, 'a) op) \<Rightarrow> ('w server, exc, 'a) op" where
  "authorized_run c request handler s =
     (case authorize_request c request (sv_env s) of
        (Inl e, w) \<Rightarrow> (Inl e, s\<lparr>sv_env := w\<rparr>)
      | (Inr _, w) \<Rightarrow> handler c (s\<lparr>sv_env := w\<rparr>))"


text \<open>
  The standalone application is wired as configured: it exists exactly when its server's
  configuration is sound; its lifespan exposes the configuration its only router is bound to; a
  body limit, where there is one, is positive and sits inside CORS; and credentials are never
  allowed together with the wildcard origin.
\<close>

theorem create_app_wiring:
  assumes "make_standalone_config args = Inr config"
  shows "case create_app config of
     Inl e \<Rightarrow> to_server_config config = Inl e
   | Inr (app, c) \<Rightarrow> config_consistent (fa_lifespan_config app) \<and> coordinator_ok c \<and>
       to_server_config config = Inr (fa_lifespan_config app, c) \<and>
       fa_routers app = [create_router (Some (fa_lifespan_config app)) [] (Some [''langgraph''])] \<and>
       (\<exists>limits cors. fa_middleware app = cors @ limits \<and>
          (if st_max_request_body_bytes args = PNone then limits = []
           else \<exists>n > 0. st_max_request_body_bytes args = PInt n \<and> limits = [RequestBodyLimit (PInt n)]) \<and>
          (if st_cors_origins args = [] then cors = []
           else \<exists>m. cors = [m] \<and> cors_origins m = st_cors_origins args \<and>
             \<not> (cors_credentials m \<and> ''*'' \<in> set (cors_origins m))))"
proof -
  have config: "config = args"
    and limit: "st_max_request_body_bytes args \<noteq> PNone \<Longrightarrow> \<exists>n > 0. st_max_request_body_bytes args = PInt n"
    using assms by (cases "st_max_request_body_bytes args"; auto simp: make_standalone_config_def split: if_splits)+
  show ?thesis
  proof (cases "to_server_config args")
    case (Inl e)
    then show ?thesis by (simp add: create_app_def config)
  next
    case (Inr p)
    obtain cfg c where p: "p = (cfg, c)" by (rule prod.exhaust)
    have made: "make_server_config (st_server args) = Inr (cfg, c)" using Inr p by (simp add: to_server_config_def)
    have sound: "config_consistent cfg" "coordinator_ok c"
      using server_config_facts [OF made] by simp_all
    show ?thesis
      using sound limit
      by (auto simp: create_app_def config Inr p Let_def install_routes_def add_middleware_def)
  qed
qed


section \<open>Examples\<close>

text \<open>A saver that is open or not, and an application that raises.\<close>

definition demo_lifecycle :: "bool lifecycle" where
  "demo_lifecycle =
     \<lparr>lc_aenter = Some (\<lambda>w. (Inr True, True)), lc_aexit = Some (\<lambda>e w. (Inr False, False)), lc_aclose = None\<rparr>"

definition crashing :: "((string, bool) app, exc, unit) op" where
  "crashing a = (Inl CancelledError, a)"

definition demo_app :: "(string, bool) app" where
  "demo_app = \<lparr>app_attr = None, app_world = False\<rparr>"

theorem lifespan_restores_witness:
  "app_attr (snd (langgraph_lifespan (Some demo_lifecycle) ''config'' crashing demo_app)) = None \<and>
   langgraph_lifespan (Some demo_lifecycle) ''config'' crashing demo_app =
     langgraph_lifespan (Some demo_lifecycle) ''config''
       (\<lambda>b. if app_attr b = None then (Inr (), b) else crashing b) demo_app"
proof -
  have same: "crashing b = (if app_attr b = None then (Inr (), b) else crashing b)" if "app_attr b = Some (ConfigSlot ''config'')" for b
    using that by simp
  have "app_attr demo_app = None" by (simp add: demo_app_def)
  then show ?thesis
    using lifespan_restores [where config = "''config''" and a = demo_app and checkpointer = "Some demo_lifecycle"
        and body = crashing and body' = "\<lambda>b. if app_attr b = None then (Inr (), b) else crashing b", OF same]
    by metis
qed

theorem lifespan_closes_saver_witness:
  "\<not> app_world (snd (langgraph_lifespan (Some demo_lifecycle) ''config'' crashing demo_app))"
  by (rule lifespan_closes_saver [where opened = "\<lambda>w. w"])
    (auto simp: demo_lifecycle_def crashing_def demo_app_def)

theorem routes_unambiguous_witness:
  "(''GET'', [Lit ''api'', Lit ''threads'', Param ''thread_id''], ''threads:get'') =
     (THE r. r \<in> set (ar_routes (create_router (None :: unit option) [''api''] None)) \<and>
        route_matches ''GET'' [''api'', ''threads'', ''t''] r)"
proof (rule the_equality [symmetric])
  let ?r = "(''GET'', [Lit ''api'', Lit ''threads'', Param ''thread_id''], ''threads:get'')"
  have r: "?r \<in> set (ar_routes (create_router (None :: unit option) [''api''] None))"
    by (simp add: create_router_routes threads_router_def)
  have m: "route_matches ''GET'' [''api'', ''threads'', ''t''] ?r"
    by (simp add: route_matches_def segment_matches_def)
  show "?r \<in> set (ar_routes (create_router (None :: unit option) [''api''] None)) \<and>
      route_matches ''GET'' [''api'', ''threads'', ''t''] ?r" using r m by simp
  show "x = ?r" if "x \<in> set (ar_routes (create_router (None :: unit option) [''api''] None)) \<and>
      route_matches ''GET'' [''api'', ''threads'', ''t''] x" for x
    using that routes_unambiguous [OF _ r _ m] by blast
qed

definition demo_standalone :: "list_cache environment standalone_args" where
  "demo_standalone =
     \<lparr>st_title = ''LangGraph API'', st_description = ''LangGraph-compatible API server'', st_version = ''0.1.0'',
      st_debug = False, st_cors_origins = [''*''], st_server = demo_args, st_max_request_body_bytes = PInt 1048576\<rparr>"

theorem create_app_wiring_witness:
  "\<exists>app c m. create_app demo_standalone = Inr (app, c) \<and> fa_middleware app = [m, RequestBodyLimit (PInt 1048576)] \<and>
     \<not> cors_credentials m"
proof -
  have made: "make_standalone_config demo_standalone = Inr demo_standalone"
    by (simp add: make_standalone_config_def demo_standalone_def)
  have "to_server_config demo_standalone = Inr (demo_config, \<lparr>max_concurrent_runs = 2, active = [], next_token = 0\<rparr>)"
    by (simp add: to_server_config_def demo_standalone_def demo_config_made)
  then have "\<not> isl (create_app demo_standalone)" by (simp add: create_app_def Let_def)
  then obtain app c where app: "create_app demo_standalone = Inr (app, c)"
    by (cases "create_app demo_standalone") auto
  show ?thesis
    using create_app_wiring [OF made] unfolding app by (auto simp: demo_standalone_def)
qed

end
