(* ===== verification/ExampleApp.thy ===== *)
theory ExampleApp
  imports Factory
begin

text \<open>
  \<open>examples/basic.py\<close>: the library in use, a graph of one node behind the standalone application.
  LangGraph's \<open>StateGraph\<close> is the data the code gives its builder, and \<open>compile\<close> a parameter; the
  theorem says what a client of the example meets.
\<close>


section \<open>The graph\<close>

text \<open>A builder: its nodes, with their functions on the state, and its edges.\<close>

datatype graph_node = START | END | Node string

record state_graph =
  sg_nodes :: "(string \<times> (pydict \<Rightarrow> pydict)) list"
  sg_edges :: "(graph_node \<times> graph_node) list"

definition new_state_graph :: state_graph where
  "new_state_graph = \<lparr>sg_nodes = [], sg_edges = []\<rparr>"

definition add_node :: "string \<Rightarrow> (pydict \<Rightarrow> pydict) \<Rightarrow> state_graph \<Rightarrow> state_graph" where
  "add_node name f g = g\<lparr>sg_nodes := sg_nodes g @ [(name, f)]\<rparr>"

definition add_edge :: "graph_node \<Rightarrow> graph_node \<Rightarrow> state_graph \<Rightarrow> state_graph" where
  "add_edge a b g = g\<lparr>sg_edges := sg_edges g @ [(a, b)]\<rparr>"

text \<open>\<open>to_str\<close> is \<open>str\<close> of a value that is not a string.\<close>

definition greet :: "(pyval \<Rightarrow> string) \<Rightarrow> pydict \<Rightarrow> pydict" where
  "greet to_str state =
     (let name = py_get_or state ''name'' (PStr ''world'') in
      [(PStr ''greeting'', PStr (''Hello, '' @ (case name of PStr s \<Rightarrow> s | v \<Rightarrow> to_str v) @ ''!''))])"

definition build_graph ::
  "(pyval \<Rightarrow> string) \<Rightarrow> (state_graph \<Rightarrow> bool \<Rightarrow> exc + 'w graph_ops) \<Rightarrow> bool \<Rightarrow> exc + 'w graph_ops" where
  "build_graph to_str compile checkpointer =
     (let builder = new_state_graph;
          builder = add_node ''greet'' (greet to_str) builder;
          builder = add_edge START (Node ''greet'') builder;
          builder = add_edge (Node ''greet'') END builder
      in compile builder checkpointer)"


section \<open>The application\<close>

definition object_schema :: "string \<Rightarrow> pydict" where
  "object_schema field_name =
     [(PStr ''type'', PStr ''object''),
      (PStr ''properties'', PDict [(PStr field_name, PDict [(PStr ''type'', PStr ''string'')])])]"

text \<open>The arguments of the constructors, with the defaults of the dataclasses for the others.\<close>

definition greeter ::
  "(pyval \<Rightarrow> string) \<Rightarrow> (state_graph \<Rightarrow> bool \<Rightarrow> exc + 'w graph_ops) \<Rightarrow> datetime \<Rightarrow> exc + 'w assistant_config" where
  "greeter to_str compile now =
     make_assistant
       \<lparr>ac_assistant_id = ''greeter'', ac_graph_id = ''greeter'', ac_name = ''Example greeter'',
        ac_factory = build_graph to_str compile,
        ac_description = ''A minimal deterministic LangGraph for local smoke testing.'',
        ac_metadata = [], ac_created_at = now, ac_input_transformer = None, ac_output_transformer = None,
        ac_default_stream_mode = None, ac_input_schema = Some (object_schema ''name''),
        ac_output_schema = Some (object_schema ''greeting''), ac_state_schema = None, ac_config_schema = None,
        ac_graph = None\<rparr>"

definition example_app ::
  "(pyval \<Rightarrow> string) \<Rightarrow> (state_graph \<Rightarrow> bool \<Rightarrow> exc + 'w graph_ops) \<Rightarrow> datetime \<Rightarrow> string \<Rightarrow> 'w store_ops \<Rightarrow>
     exc + 'w fastapi_app \<times> coordinator" where
  "example_app to_str compile now package_version store =
     bind_sum (greeter to_str compile now) (\<lambda>assistant.
     bind_sum (make_standalone_config
       \<lparr>st_title = ''fastapi-langgraph-server example'',
        st_description = ''A local test server backed by a basic LangGraph.'', st_version = package_version,
        st_debug = False, st_cors_origins = [],
        st_server = \<lparr>sa_assistants = [(ac_assistant_id assistant, assistant)], sa_checkpointer = None,
          sa_request_authorizer = None, sa_thread_store = store, sa_max_concurrent_runs = PInt 100,
          sa_run_timeout_seconds = PNone\<rparr>,
        st_max_request_body_bytes = PInt 1048576\<rparr>) create_app)"


section \<open>What a client meets\<close>

lemma greet_default: "greet to_str [] = [(PStr ''greeting'', PStr ''Hello, world!'')]"
  by (simp add: greet_def py_get_or_def dict_get_or_def)

lemma greet_by_name:
  "sget state ''name'' = Some (PStr s) \<Longrightarrow> greet to_str state = [(PStr ''greeting'', PStr (''Hello, '' @ s @ ''!''))]"
  by (simp add: greet_def py_get_or_def dict_get_or_def)

text \<open>
  The example starts whenever LangGraph compiles its graph to one with \<open>ainvoke\<close> and \<open>astream\<close>: one
  assistant, limits of a hundred runs and one mebibyte, no checkpointer - so that the state of a
  thread cannot be read - and no authorizer.
\<close>

theorem example_app_serves:
  assumes "build_graph to_str compile False = Inr g" "g_ainvoke g \<noteq> None" "g_astream g \<noteq> None"
  obtains app c where "example_app to_str compile now package_version store = Inr (app, c)"
    "active c = []" "max_concurrent_runs c = 100"
    "fa_middleware app = [RequestBodyLimit (PInt 1048576)]"
    "get_graph_runtime (fa_lifespan_config app) ''greeter'' = Inr g"
    "\<And>k. k \<noteq> ''greeter'' \<Longrightarrow> get_assistant (fa_lifespan_config app) k = None"
    "\<And>R rq t s. fst (get_state R rq t (fa_lifespan_config app) s) = Inl (HTTPException 501 ''Checkpoint persistence is not configured'')"
    "cfg_request_authorizer (fa_lifespan_config app) = None"
proof -
  have printable: "isprintable ''greeter''" by code_simp
  have created: "create_graph a False = Inr g" if "ac_factory a = build_graph to_str compile" for a
    by (simp add: create_graph_def that assms)
  note wiring = example_app_def greeter_def make_assistant_def printable make_standalone_config_def create_app_def
    to_server_config_def make_server_config_def run_timeout_def created make_coordinator_def Let_def
  have "\<not> isl (example_app to_str compile now package_version store)" by (simp add: wiring)
  then obtain app c where app: "example_app to_str compile now package_version store = Inr (app, c)"
    by (cases "example_app to_str compile now package_version store") auto
  show thesis
    by (rule that [OF app])
      (use app in \<open>auto simp: wiring install_routes_def add_middleware_def get_graph_runtime_def get_assistant_def
         get_state_def get_checkpointer_def require_checkpointer_def bind_op_def pure_op_def\<close>)
qed

end
