(* ===== verification/Distribution.thy ===== *)
theory Distribution
  imports Models Streaming
begin

text \<open>
  \<open>scripts/check_dist.py\<close>: what a built wheel and source distribution must contain before they are
  released. The archives are their lists of names and the text of the metadata file, the directory
  \<open>dist\<close> the results of its two globs; installing the wheel in a fresh environment, which runs other
  programs, is an argument.
\<close>


section \<open>Expected files\<close>

definition distribution_name :: string where
  "distribution_name = ''fastapi-langgraph-server''"

definition package_files :: "string list" where
  "package_files =
     [''fastapi_langgraph_server/__init__.py'',
      ''fastapi_langgraph_server/checkpoint/__init__.py'',
      ''fastapi_langgraph_server/checkpoint/memory.py'',
      ''fastapi_langgraph_server/config.py'',
      ''fastapi_langgraph_server/coordination.py'',
      ''fastapi_langgraph_server/dependencies.py'',
      ''fastapi_langgraph_server/execution.py'',
      ''fastapi_langgraph_server/factory.py'',
      ''fastapi_langgraph_server/middleware.py'',
      ''fastapi_langgraph_server/models.py'',
      ''fastapi_langgraph_server/py.typed'',
      ''fastapi_langgraph_server/routes/__init__.py'',
      ''fastapi_langgraph_server/routes/assistants.py'',
      ''fastapi_langgraph_server/routes/health.py'',
      ''fastapi_langgraph_server/routes/runs.py'',
      ''fastapi_langgraph_server/routes/threads.py'',
      ''fastapi_langgraph_server/state.py'',
      ''fastapi_langgraph_server/storage.py'',
      ''fastapi_langgraph_server/streaming.py'']"

definition sdist_files :: "string list" where
  "sdist_files =
     [''CHANGELOG.md'', ''LICENSE'', ''README.md'', ''SECURITY.md'', ''docs/Development.md'',
      ''docs/In-Memory-Checkpointer.md'', ''docs/RemoteGraph-Compatibility.md'', ''examples/__init__.py'',
      ''examples/basic.py'']"

record project_metadata =
  pm_name :: string
  pm_version :: string


section \<open>Messages\<close>

text \<open>\<open>repr\<close> of a string and of a list of strings.\<close>

definition repr_char :: "char \<Rightarrow> char \<Rightarrow> string" where
  "repr_char q c =
     (let n = of_char c :: nat in
      if c = q \<or> n = 92 then [char_of (92 :: nat), c]
      else if n = 9 then [char_of (92 :: nat), CHR ''t'']
      else if n = 10 then [char_of (92 :: nat), CHR ''n'']
      else if n = 13 then [char_of (92 :: nat), CHR ''r'']
      else if printable_char c then [c]
      else [char_of (92 :: nat), CHR ''x'', hex_digit (n div 16), hex_digit (n mod 16)])"

definition repr_string :: "string \<Rightarrow> string" where
  "repr_string s =
     (let single = char_of (39 :: nat); double = char_of (34 :: nat);
          q = (if single \<in> set s \<and> double \<notin> set s then double else single)
      in [q] @ concat (map (repr_char q) s) @ [q])"

definition repr_strings :: "string list \<Rightarrow> string" where
  "repr_strings xs = ''['' @ join_strings '', '' (map repr_string xs) @ '']''"


section \<open>Checks\<close>

definition single_artifact :: "string \<Rightarrow> string list \<Rightarrow> exc + string" where
  "single_artifact pattern matches =
     (case matches of
        [m] \<Rightarrow> Inr m
      | _ \<Rightarrow> Inl (RuntimeError (''Expected one '' @ pattern @ '' artifact, found '' @ nat_str (length matches))))"

definition ends_with :: "string \<Rightarrow> string \<Rightarrow> bool" where
  "ends_with s suffix = (length suffix \<le> length s \<and> drop (length s - length suffix) s = suffix)"

text \<open>\<open>part in s\<close>\<close>

fun occurs_in :: "string \<Rightarrow> string \<Rightarrow> bool" where
  "occurs_in part [] = (part = [])"
| "occurs_in part (c # s) = (take (length part) (c # s) = part \<or> occurs_in part s)"

definition newline_text :: string where
  "newline_text = [char_of (10 :: nat)]"

fun check_dependencies :: "string \<Rightarrow> string list \<Rightarrow> exc + unit" where
  "check_dependencies metadata [] = Inr ()"
| "check_dependencies metadata (dependency # rest) =
     (if \<not> occurs_in (''Requires-Dist: '' @ dependency) metadata
      then Inl (RuntimeError (''Wheel metadata is missing '' @ repr_string dependency))
      else check_dependencies metadata rest)"

definition validate_wheel :: "string list \<Rightarrow> (string \<Rightarrow> string) \<Rightarrow> project_metadata \<Rightarrow> exc + unit" where
  "validate_wheel namelist read_text project =
     (let names = remdups namelist;
          metadata_files = filter (\<lambda>n. ends_with n ''.dist-info/METADATA'') names;
          license_files = filter (\<lambda>n. ends_with n ''.dist-info/licenses/LICENSE'') names
      in if length metadata_files \<noteq> 1 \<or> length license_files \<noteq> 1
         then Inl (RuntimeError ''Wheel must contain one metadata and license file'')
         else
           (let metadata = read_text (hd metadata_files);
                missing = filter (\<lambda>f. f \<notin> set names) package_files
            in if missing \<noteq> []
               then Inl (RuntimeError (''Wheel is missing expected files: '' @ repr_strings (sorted_strings missing)))
               else if \<not> occurs_in (''Name: '' @ pm_name project @ newline_text) metadata \<or>
                       \<not> occurs_in (''Version: '' @ pm_version project @ newline_text) metadata
               then Inl (RuntimeError ''Wheel metadata has an unexpected name or version'')
               else
                 bind_sum (check_dependencies metadata [''fastapi'', ''langgraph'', ''starlette'']) (\<lambda>_.
                   if \<not> occurs_in (''Provides-Extra: redis'' @ newline_text) metadata
                   then Inl (RuntimeError ''Wheel metadata is missing the Redis extra'')
                   else if \<not> occurs_in ''Requires-Dist: langgraph-checkpoint-redis'' metadata
                   then Inl (RuntimeError ''Wheel metadata is missing the optional Redis dependency'')
                   else Inr ())))"

definition slash :: char where
  "slash = CHR ''/''"

definition expected_sdist_files :: "string \<Rightarrow> string list" where
  "expected_sdist_files dir =
     map (\<lambda>n. dir @ ''/'' @ n) sdist_files @ map (\<lambda>n. dir @ ''/src/'' @ n) package_files"

definition validate_sdist :: "string list \<Rightarrow> exc + unit" where
  "validate_sdist names =
     (let roots = remdups (map (takeWhile (\<lambda>c. c \<noteq> slash)) (filter (\<lambda>n. slash \<in> set n) names))
      in case roots of
           [dir] \<Rightarrow>
             (let missing = filter (\<lambda>f. f \<notin> set names) (expected_sdist_files dir)
              in if missing \<noteq> []
                 then Inl (RuntimeError (''Source distribution is missing files: '' @ repr_strings (sorted_strings missing)))
                 else Inr ())
         | _ \<Rightarrow> Inl (RuntimeError (''Expected one sdist root, found '' @ repr_strings (sorted_strings roots))))"

text \<open>
  \<open>_project_metadata\<close>: \<open>loads\<close> is \<open>tomllib.loads\<close>. The cast of the code promises a name and a version
  that are strings; a table without them, which the code refuses where it first reads them, is
  refused here.
\<close>

definition project_item :: "pydict \<Rightarrow> string \<Rightarrow> exc + string" where
  "project_item table key = (case sget table key of Some (PStr v) \<Rightarrow> Inr v | _ \<Rightarrow> Inl (KeyError key))"

definition read_project_metadata :: "(string \<Rightarrow> exc + pydict) \<Rightarrow> string \<Rightarrow> exc + project_metadata" where
  "read_project_metadata loads pyproject =
     bind_sum (loads pyproject) (\<lambda>d.
       case sget d ''project'' of
         Some (PDict table) \<Rightarrow>
           bind_sum (project_item table ''name'') (\<lambda>name.
           bind_sum (project_item table ''version'') (\<lambda>version.
             Inr \<lparr>pm_name = name, pm_version = version\<rparr>))
       | _ \<Rightarrow> Inl (KeyError ''project''))"

definition uv_executable :: "(string \<Rightarrow> string option) \<Rightarrow> exc + string" where
  "uv_executable which =
     (case which ''uv'' of
        None \<Rightarrow> Inl (RuntimeError ''uv is required to validate built distributions'')
      | Some path \<Rightarrow> Inr path)"


section \<open>The smoke test\<close>

text \<open>
  What the script asks of the machine, whose state is \<open>'s\<close>: the search path, a temporary directory,
  and the exit status of a program that is run with its arguments.
\<close>

record 's machine =
  mc_which :: "string \<Rightarrow> string option"
  mc_make_directory :: "('s, exc, string) op"
  mc_remove_directory :: "string \<Rightarrow> ('s, exc, unit) op"
  mc_run :: "string list \<Rightarrow> 's \<Rightarrow> int \<times> 's"
  mc_platform :: string
  mc_python :: string
  mc_resolve :: "string \<Rightarrow> string"

text \<open>\<open>subprocess.run(args, check=True)\<close>\<close>

definition run_checked :: "'s machine \<Rightarrow> string list \<Rightarrow> ('s, exc, unit) op" where
  "run_checked m args s =
     (case mc_run m args s of (status, t) \<Rightarrow> (if status \<noteq> 0 then Inl (OtherError ''CalledProcessError'') else Inr (), t))"

fun run_all :: "'s machine \<Rightarrow> string list list \<Rightarrow> ('s, exc, unit) op" where
  "run_all m [] = ret ()"
| "run_all m (args # rest) = bind_op (run_checked m args) (\<lambda>_. run_all m rest)"

definition base_smoke :: "project_metadata \<Rightarrow> string" where
  "base_smoke project =
     ''from importlib.metadata import PackageNotFoundError, version; '' @
     ''import fastapi; import fastapi_langgraph_server; import langgraph; '' @
     ''assert version('' @ repr_string distribution_name @ '') == '' @ repr_string (pm_version project) @ ''; '' @
     ''assert '.venv' in '' @
     ''__import__('pathlib').Path(fastapi_langgraph_server.__file__).parts; '' @
     newline_text @ ''try:'' @ newline_text @ '' version('langgraph-checkpoint-redis')'' @
     newline_text @ ''except PackageNotFoundError:'' @ newline_text @ '' pass'' @
     newline_text @ ''else:'' @ newline_text @ '' raise AssertionError('Redis must remain optional')''"

definition redis_smoke :: string where
  "redis_smoke = ''from langgraph.checkpoint.redis.aio import AsyncRedisSaver; '' @ ''assert AsyncRedisSaver is not None''"

text \<open>\<open>str\<close> of a path, whose separator depends on the platform.\<close>

definition join_path :: "'s machine \<Rightarrow> string list \<Rightarrow> string" where
  "join_path m parts = join_strings (if mc_platform m = ''win32'' then [char_of (92 :: nat)] else ''/'') parts"

definition smoke_commands :: "'s machine \<Rightarrow> string \<Rightarrow> string \<Rightarrow> string \<Rightarrow> project_metadata \<Rightarrow> string list list" where
  "smoke_commands m dir uv wheel project =
     (let environment = join_path m [dir, ''.venv''];
          executable = (if mc_platform m = ''win32'' then [''Scripts'', ''python.exe''] else [''bin'', ''python'']);
          python = join_path m ([dir, ''.venv''] @ executable)
      in [[uv, ''venv'', ''--python'', mc_python m, environment],
          [uv, ''pip'', ''install'', ''--python'', python, wheel],
          [python, ''-I'', ''-c'', base_smoke project],
          [uv, ''pip'', ''install'', ''--python'', python, wheel @ ''[redis]''],
          [python, ''-I'', ''-c'', redis_smoke]])"

definition isolated_wheel_smoke :: "'s machine \<Rightarrow> string \<Rightarrow> project_metadata \<Rightarrow> ('s, exc, unit) op" where
  "isolated_wheel_smoke m wheel project =
     bind_op (mc_make_directory m) (\<lambda>dir.
       finally_op
         (bind_op (pure_op (uv_executable (mc_which m))) (\<lambda>uv.
            run_all m (smoke_commands m dir uv wheel project)))
         (mc_remove_directory m dir))"

text \<open>\<open>main\<close>: the archives are opened by name, \<open>pyproject\<close> is the text of the project's file.\<close>

record archives =
  ar_wheels :: "string list"
  ar_sdists :: "string list"
  ar_names :: "string \<Rightarrow> string list"
  ar_text :: "string \<Rightarrow> string \<Rightarrow> string"

definition check_archives :: "project_metadata \<Rightarrow> archives \<Rightarrow> exc + string" where
  "check_archives project built =
     bind_sum (raise_sum_if (pm_name project \<noteq> distribution_name)
       (RuntimeError ''pyproject.toml has an unexpected distribution name'')) (\<lambda>_.
     bind_sum (single_artifact ''*.whl'' (ar_wheels built)) (\<lambda>wheel.
     bind_sum (single_artifact ''*.tar.gz'' (ar_sdists built)) (\<lambda>sdist.
     bind_sum (validate_wheel (ar_names built wheel) (ar_text built wheel) project) (\<lambda>_.
     bind_sum (validate_sdist (ar_names built sdist)) (\<lambda>_.
       Inr wheel)))))"

definition check_distribution ::
  "'s machine \<Rightarrow> (string \<Rightarrow> exc + pydict) \<Rightarrow> string \<Rightarrow> archives \<Rightarrow> ('s, exc, unit) op" where
  "check_distribution m loads pyproject built =
     bind_op (pure_op (read_project_metadata loads pyproject)) (\<lambda>project.
     bind_op (pure_op (check_archives project built)) (\<lambda>wheel.
       isolated_wheel_smoke m (mc_resolve m wheel) project))"


section \<open>Facts\<close>

lemma check_dependencies_Inr:
  "check_dependencies metadata ds = Inr () \<longleftrightarrow> list_all (\<lambda>d. occurs_in (''Requires-Dist: '' @ d) metadata) ds"
  by (induction ds) auto

lemma single_artifact_Inr: "single_artifact pattern matches = Inr m \<longleftrightarrow> matches = [m]"
  by (auto simp: single_artifact_def split: list.split)

lemma if_Inl_Inr: "(if b then Inl e else r) = Inr x \<longleftrightarrow> \<not> b \<and> r = Inr x"
  by simp

lemma single_element: "length xs = 1 \<Longrightarrow> \<exists>x. xs = [x]"
  by (cases xs) auto

lemma remdups_singleton: "remdups xs = [x] \<longleftrightarrow> set xs = {x}"
proof
  show "remdups xs = [x] \<Longrightarrow> set xs = {x}" by (metis list.simps(15) set_empty2 list.set(1) set_remdups)
  assume "set xs = {x}"
  then have "set (remdups xs) = {x}" "distinct (remdups xs)" by simp_all
  then show "remdups xs = [x]"
    by (cases "remdups xs") (auto simp: subset_singleton_iff insert_eq_iff)
qed

text \<open>
  A source distribution passes exactly when all its paths start at one root and every listed file
  is under it.
\<close>

lemma validate_sdist_exact:
  "validate_sdist names = Inr () \<longleftrightarrow>
     (\<exists>dir. (\<forall>n \<in> set names. slash \<in> set n \<longrightarrow> takeWhile (\<lambda>c. c \<noteq> slash) n = dir) \<and>
        set (expected_sdist_files dir) \<subseteq> set names)"
proof -
  let ?start = "takeWhile (\<lambda>c. c \<noteq> slash)"
  let ?starts = "map ?start (filter (\<lambda>n. slash \<in> set n) names)"
  have "validate_sdist names = Inr () \<longleftrightarrow>
      (\<exists>dir. remdups ?starts = [dir] \<and> filter (\<lambda>f. f \<notin> set names) (expected_sdist_files dir) = [])"
    unfolding validate_sdist_def Let_def by (auto split: list.split)
  also have "\<dots> \<longleftrightarrow> (\<exists>dir. set ?starts = {dir} \<and> set (expected_sdist_files dir) \<subseteq> set names)"
    by (simp only: remdups_singleton) (auto simp: filter_empty_conv)
  also have "\<dots> \<longleftrightarrow> (\<exists>dir. (\<forall>n \<in> set names. slash \<in> set n \<longrightarrow> ?start n = dir) \<and>
        set (expected_sdist_files dir) \<subseteq> set names)"
  proof -
    have "set ?starts = {dir} \<longleftrightarrow> (\<forall>n \<in> set names. slash \<in> set n \<longrightarrow> ?start n = dir)"
      if files: "set (expected_sdist_files dir) \<subseteq> set names" for dir
    proof
      show "set ?starts = {dir} \<Longrightarrow> \<forall>n \<in> set names. slash \<in> set n \<longrightarrow> ?start n = dir" by auto
      assume starts: "\<forall>n \<in> set names. slash \<in> set n \<longrightarrow> ?start n = dir"
      have "dir @ ''/'' @ ''LICENSE'' \<in> set names" using files by (simp add: expected_sdist_files_def sdist_files_def)
      moreover have "slash \<in> set (dir @ ''/'' @ ''LICENSE'')" by (simp add: slash_def)
      ultimately have "dir \<in> set ?starts" using starts by (force simp: image_iff)
      then show "set ?starts = {dir}" using starts by auto
    qed
    then show ?thesis by blast
  qed
  finally show ?thesis .
qed

lemma check_archives_complete:
  assumes "check_archives project built = Inr wheel"
  obtains sdist dir meta where "pm_name project = distribution_name" "ar_wheels built = [wheel]" "ar_sdists built = [sdist]"
    "set package_files \<subseteq> set (ar_names built wheel)"
    "\<forall>n. n \<in> set (ar_names built wheel) \<and> ends_with n ''.dist-info/METADATA'' \<longleftrightarrow> n = meta"
    "occurs_in (''Name: '' @ distribution_name @ newline_text) (ar_text built wheel meta)"
    "occurs_in (''Version: '' @ pm_version project @ newline_text) (ar_text built wheel meta)"
    "\<forall>f \<in> set package_files. dir @ ''/src/'' @ f \<in> set (ar_names built sdist)"
    "\<forall>f \<in> set sdist_files. dir @ ''/'' @ f \<in> set (ar_names built sdist)"
proof -
  obtain sdist where name: "pm_name project = distribution_name"
    and found: "ar_wheels built = [wheel]" "ar_sdists built = [sdist]"
    and valid: "validate_wheel (ar_names built wheel) (ar_text built wheel) project = Inr ()"
      "validate_sdist (ar_names built sdist) = Inr ()"
    using assms unfolding check_archives_def by (auto simp: bind_sum_eq_Inr single_artifact_Inr)
  let ?names = "ar_names built wheel" and ?meta = "\<lambda>n. ends_with n ''.dist-info/METADATA''"
  let ?files = "filter ?meta (remdups ?names)"
  note passes = valid(1) [unfolded validate_wheel_def Let_def if_Inl_Inr]
  note passes1 = conjunct1 [OF passes, unfolded de_Morgan_disj not_not]
    and passes2 = conjunct1 [OF conjunct2 [OF passes], unfolded not_not]
    and passes3 = conjunct1 [OF conjunct2 [OF conjunct2 [OF passes]], unfolded de_Morgan_disj not_not]
  have one: "length ?files = 1" by (rule conjunct1 [OF passes1])
  have files: "set package_files \<subseteq> set ?names" using passes2 unfolding filter_empty_conv set_remdups by blast
  obtain m where m: "?files = [m]" using single_element [OF one] by blast
  have meta: "\<forall>n. n \<in> set ?names \<and> ?meta n \<longleftrightarrow> n = m"
    using arg_cong [OF m, of set] unfolding set_filter set_remdups by (simp add: set_eq_iff)
  obtain dir where dir: "set (expected_sdist_files dir) \<subseteq> set (ar_names built sdist)"
    using valid(2) unfolding validate_sdist_exact by blast
  have inside: "\<forall>f \<in> set package_files. dir @ ''/src/'' @ f \<in> set (ar_names built sdist)"
      "\<forall>f \<in> set sdist_files. dir @ ''/'' @ f \<in> set (ar_names built sdist)"
    using dir unfolding expected_sdist_files_def set_append set_map by blast+
  note named = passes3 [unfolded m list.sel name]
  show thesis
    by (rule that [OF name found files meta named [THEN conjunct1] named [THEN conjunct2] inside])
qed

text \<open>The smoke test: success means that every command succeeded, and the directory is removed on every path.\<close>

lemma run_all_Inr:
  "run_all m commands s = (Inr (), t) \<Longrightarrow>
   list_all (\<lambda>args. \<exists>u. fst (mc_run m args u) = 0) commands"
  by (induction commands arbitrary: s)
    (auto simp: bind_op_def run_checked_def split: prod.splits sum.splits if_splits, metis fst_conv)

lemma smoke_removes_directory:
  assumes "isolated_wheel_smoke m wheel project s = (r, t)" "mc_make_directory m s = (Inr dir, u)"
  obtains v where "t = snd (mc_remove_directory m dir v)"
proof -
  have last: "snd (finally_op b f v) = snd (f (snd (b v)))" for b :: "('a, exc, unit) op" and f v
    by (auto simp: finally_op_def case_prod_unfold split: sum.split)
  obtain b where "isolated_wheel_smoke m wheel project s = finally_op b (mc_remove_directory m dir) u"
    using assms(2) by (simp add: isolated_wheel_smoke_def bind_op_def [of "mc_make_directory m"])
  then have "t = snd (mc_remove_directory m dir (snd (b u)))" using assms(1) last [of b] by (metis snd_conv)
  then show thesis by (rule that)
qed

lemma smoke_Inr:
  assumes "isolated_wheel_smoke m wheel project s = (Inr (), t)"
  obtains dir u uv where "mc_make_directory m s = (Inr dir, u)" "mc_which m ''uv'' = Some uv"
    "list_all (\<lambda>args. \<exists>v. fst (mc_run m args v) = 0) (smoke_commands m dir uv wheel project)"
proof -
  obtain dir u where dir: "mc_make_directory m s = (Inr dir, u)"
    using assms by (auto simp: isolated_wheel_smoke_def bind_op_def split: prod.splits sum.splits)
  obtain uv where uv: "mc_which m ''uv'' = Some uv"
    using assms dir
    by (cases "mc_which m ''uv''")
      (auto simp: isolated_wheel_smoke_def bind_op_def finally_op_def uv_executable_def pure_op_def split: prod.splits sum.splits)
  obtain v where "run_all m (smoke_commands m dir uv wheel project) u = (Inr (), v)"
    using assms dir uv
    by (auto simp: isolated_wheel_smoke_def bind_op_def finally_op_def uv_executable_def pure_op_def split: prod.splits sum.splits)
  from that [OF dir uv run_all_Inr [OF this]] show thesis .
qed

text \<open>
  A distribution that passes is complete: there is one wheel and one source distribution, each has
  every file of the package, the latter under its only root's \<open>src\<close> and with the documents, the
  wheel has one metadata file, which names the project and its version, and a Python of a fresh
  environment, with the wheel installed, has run the import test.
\<close>

theorem checked_distribution_complete:
  assumes "check_distribution m loads pyproject built s = (Inr (), t)"
  shows "\<exists>project wheel sdist dir meta.
    read_project_metadata loads pyproject = Inr project \<and> pm_name project = distribution_name \<and>
    ar_wheels built = [wheel] \<and> ar_sdists built = [sdist] \<and>
    set package_files \<subseteq> set (ar_names built wheel) \<and>
    (\<forall>n. n \<in> set (ar_names built wheel) \<and> ends_with n ''.dist-info/METADATA'' \<longleftrightarrow> n = meta) \<and>
    occurs_in (''Name: '' @ distribution_name @ newline_text) (ar_text built wheel meta) \<and>
    occurs_in (''Version: '' @ pm_version project @ newline_text) (ar_text built wheel meta) \<and>
    (\<forall>f \<in> set package_files. dir @ ''/src/'' @ f \<in> set (ar_names built sdist)) \<and>
    (\<forall>f \<in> set sdist_files. dir @ ''/'' @ f \<in> set (ar_names built sdist)) \<and>
    (\<exists>python v. fst (mc_run m [python, ''-I'', ''-c'', base_smoke project] v) = 0)"
proof -
  obtain project wheel where project: "read_project_metadata loads pyproject = Inr project"
    and wheel: "check_archives project built = Inr wheel"
    and smoke: "isolated_wheel_smoke m (mc_resolve m wheel) project s = (Inr (), t)"
    using assms unfolding check_distribution_def
    by (cases "read_project_metadata loads pyproject"; cases "check_archives (projr (read_project_metadata loads pyproject)) built")
      (auto simp: bind_op_def pure_op_def)
  obtain dir u uv where "list_all (\<lambda>args. \<exists>v. fst (mc_run m args v) = 0) (smoke_commands m dir uv (mc_resolve m wheel) project)"
    by (rule smoke_Inr [OF smoke])
  then have run: "\<exists>python v. fst (mc_run m [python, ''-I'', ''-c'', base_smoke project] v) = 0"
    unfolding smoke_commands_def Let_def list.pred_inject by blast
  show ?thesis
    by (rule check_archives_complete [OF wheel]) (rule exI, rule exI, rule exI, rule exI, rule exI,
      rule conjI [OF project], (rule conjI, assumption)+, rule run)
qed

end
