(* ===== verification/Spec2Isabelle.thy ===== *)
theory Spec2Isabelle
  imports ClaimRace Ownership SaverLifecycle Middleware ExampleApp Distribution
begin

text \<open>
  FastAPI LangGraph Server: a library (package \<open>fastapi_langgraph_server\<close> under \<open>src/src\<close>) that
  serves LangGraph assistants over HTTP. A request passes the body limit, is parsed into a protocol
  model, finds its server's configuration, is authorized, and reaches a route handler. The
  handlers work on threads: the thread store keeps each thread's metadata and the assistant that
  owns it, the checkpoint saver keeps the state of its graph, and the run coordinator lends one
  lease per thread at a time. A run invokes the assistant's graph, or streams its items as
  server-sent events.

  \<^bold>\<open>How the code is modelled.\<close> A statement that may change a state and may raise is an operation
  (\<open>Prelude.op\<close>): a function from the state to an exception or a value, and the state, which
  survives the exception. \<open>bind_op\<close>, \<open>try_op\<close>, \<open>finally_op\<close> and \<open>raise_if\<close> are the code's sequencing,
  \<open>except\<close>, \<open>finally\<close> and guards; \<open>wp\<close> is the weakest precondition through which the proofs step.
  Dictionaries are association lists in insertion order. Python's dynamic values are the datatype
  \<open>PyValues.pyval\<close>, exceptions \<open>PyValues.exc\<close>. Integers are unbounded, as in Python.

  \<^bold>\<open>Theories.\<close>
  \<^item> \<open>Prelude\<close>, \<open>PyValues\<close>: dictionaries, operations, the generic transition system with an invariant,
    values, exceptions, identifiers.
  \<^item> \<open>Coordination\<close> (\<open>coordination.py\<close>): \<open>RunCoordinator\<close> and \<open>RunLease\<close>. The atomic operations, and an
    inductive step relation in which any number of leases release in two steps each, since the
    code awaits between marking a lease and freeing its slot.
  \<^item> \<open>SaverConfig\<close>, \<open>SaverState\<close>, \<open>SaverOps\<close> (\<open>checkpoint/memory.py\<close>): the configuration of
    \<open>BoundedInMemorySaver\<close>, its size ledger, eviction and expiry, and its public operations. The
    record \<open>saver\<close> has the fields of the class. LangGraph's \<open>InMemorySaver\<close>, which it extends, is the
    parameter \<open>parent_ops\<close>, with the laws \<open>parent_laws\<close>; \<open>ReferenceParent\<close> instantiates them.
    \<open>SaverInvariant\<close> proves one preservation lemma per operation, \<open>SaverLimits\<close> the quotas,
    \<open>SaverProperties\<close> and \<open>SaverLifecycle\<close> the properties of writes, deletion, eviction, expiry and
    statistics.
  \<^item> \<open>Models\<close> (\<open>models.py\<close>): the protocol models with their constraints and validators.
  \<^item> \<open>ThreadStorage\<close> (\<open>storage.py\<close>): \<open>InMemoryThreadStore\<close> over \<open>cachetools.TTLCache\<close>, a parameter with
    laws. The locale \<open>thread_store\<close> is the contract that the server relies on, over a view of the
    store; it is interpreted on this store.
  \<^item> \<open>StateView\<close> (\<open>state.py\<close>), \<open>Execution\<close> (\<open>execution.py\<close>): from checkpoint tuples to thread states;
    run configurations and invocation. A graph is a record of the methods that \<open>getattr\<close> finds.
  \<^item> \<open>ServerState\<close>: the composition. \<open>environment\<close> holds the thread store, the saver and the clock,
    \<open>server\<close> an environment and a coordinator. Operations of the parts are lifted, the contract
    \<open>thread_store\<close> is interpreted on the lifted store, and \<open>with_lease\<close> is the bracket of the handlers.
  \<^item> \<open>Streaming\<close> (\<open>streaming.py\<close>): JSON text, the framing of events, the event protocol of a run, and a
    reader of events as a client has it.
  \<^item> \<open>ServerConfig\<close> (\<open>config.py\<close>, \<open>dependencies.py\<close>), \<open>ThreadRoutes\<close> (\<open>routes/threads.py\<close>), \<open>RunRoutes\<close>
    (\<open>routes/runs.py\<close>), \<open>AssistantRoutes\<close> (\<open>routes/assistants.py\<close>, \<open>routes/health.py\<close>), \<open>Factory\<close>
    (\<open>factory.py\<close>): configuration, handlers, and the assembly of routers and applications.
  \<^item> \<open>Middleware\<close> (\<open>middleware.py\<close>): the request body limit.
  \<^item> \<open>Interleaving\<close>: coroutines that share a state. A task is a tree: the end, or a suspension that goes
    on, in the state of that moment, with or without a cancellation. Its combinators are those of
    \<open>Prelude\<close> when a task is not disturbed; the locale \<open>discipline\<close> is the rule for what a task does to
    the shared state from one suspension to the next.
  \<^item> \<open>TaskRoutes\<close> (\<open>routes/threads.py\<close>, \<open>routes/runs.py\<close>, \<open>coordination.py\<close>): the ten handlers of threads
    and runs as such tasks, cut at every \<open>await\<close>; \<open>TaskSimulation\<close> shows them equal, undisturbed, to the
    handlers of \<open>ThreadRoutes\<close> and \<open>RunRoutes\<close>. An \<open>await\<close> that the event loop may skip is one that is
    resumed at once.
  \<^item> \<open>Concurrency\<close>: any number of requests that arrive, are resumed and cancelled in any order, with an
    environment that may change in between. Its invariant gives each task a ticket, and is proved
    from the discipline of the handlers. \<open>ClaimRace\<close> is one path of that system, in which a run loses
    its thread to another assistant between its claim and its lease. \<open>Ownership\<close> takes the discipline
    a second time, for the owners of threads. The parameter \<open>rely\<close> of the system bounds what happens to
    the environment besides the tasks: in \<open>Ownership\<close> anything but a write to the thread store.
  \<^item> \<open>Distribution\<close> (\<open>scripts/check_dist.py\<close>): what a wheel and a source distribution must contain, and the
    smoke test as the commands it runs. \<open>ExampleApp\<close> (\<open>examples/basic.py\<close>): the sample application.

  \<^bold>\<open>What the lemmas show.\<close> The saver's byte counter is the sum of its ledger and the ledger is exact
  after any run of operations; thread and checkpoint quotas hold, eviction takes the least recently
  used threads and no more than needed, refused writes store nothing. At most one lease per thread
  is out, and each handler returns the one it takes on every path, time-outs and cancellations
  included. Concurrent requests exclude each other on a thread in every interleaving, cancellations
  included, and when their work has ended, as it does in finitely many steps, every slot is free. A
  thread has one owner: claims of other assistants are refused in the store and in the
  routes, and only deletion or expiry frees it, in every interleaving of requests too. The event stream of a run has the documented shape
  for every way a graph may end, and its thread is idle afterwards. A stateless run leaves nothing in
  the saver. Whatever configuration a client sends, the run's thread, checkpoint and owner are the
  server's. Search pages are exact. An application's configuration and saver are taken down on
  every path.

  \<^bold>\<open>Bounds and termination.\<close> No definition runs on fuel. The eviction loops of the saver end because
  each step drops a tracked thread; Python's \<open>==\<close> recurses on the size of its first argument. The
  loop that buffers a request body need not end, since a client may send empty chunks for ever; it is
  a partial function, and \<open>body_limit_exact\<close> says exactly when it has a value.

  \<^bold>\<open>Parameters.\<close> Graphs, factories, transformers and authorizers of the application; LangGraph's saver;
  \<open>cachetools\<close>; pydantic's \<open>model_dump\<close> and JSON size; \<open>str\<close> of objects and \<open>repr\<close> of floats;
  \<open>datetime.fromisoformat\<close>; random tokens, UUIDs, the clock, and whether a deadline has passed.

  \<^bold>\<open>Not modelled.\<close> Log lines; pydantic's coercion of JSON to field types (the models' constraints are
  predicates on typed records); code points above U+00FF; rounding of floats; the HTTP
  representation of results and exceptions, which is FastAPI's; what a graph does between the
  events of a stream, which is one operation under the lease; a client's write to the very thread
  object that the store holds. \<open>__init__.py\<close> files only re-export names. Which interleavings the event
  loop prefers is not modelled either: all of them are allowed.

  \<^bold>\<open>Plan.\<close> Every operation of the package is a definition. What could still be refined is the grain of
  the streams in the interleaved system: a stream is one task step there, and \<open>Streaming\<close> has its items
  one by one for a run that is alone.
\<close>

end
